(* ===== verification/Prelude.thy ===== *)
theory Prelude
  imports Main "HOL-Library.Word" "HOL-Library.AList" "HOL-Library.Multiset"
begin

text \<open>
  Shared vocabulary of the development: the machine integers of the Rust code with the
  checked and saturating operations it uses, results and the propagation of errors by the
  question-mark operator, and the parts of \<^verbatim>\<open>std::collections\<close> the node relies on.
  \<^item> \<^verbatim>\<open>BTreeMap\<close> is an association list kept strictly ascending in its keys, so that
    iterating over the list is iterating over the map in key order.
  \<^item> \<^verbatim>\<open>BTreeSet\<close> is a strictly ascending list.
  \<^item> \<^verbatim>\<open>HashMap\<close> and \<^verbatim>\<open>DashMap\<close> use the same representation; their iteration order is
    unspecified in Rust, and every use in the node is insensitive to it.
\<close>

named_theorems ord_map_simps \<open>rewriting lookups, keys and sums of ordered maps\<close>
named_theorems wf_intros \<open>well-formedness is kept by an operation\<close>

section \<open>Machine integers\<close>

type_synonym u8 = "8 word"
type_synonym u64 = "64 word"
type_synonym bytes = "8 word list"

definition checked_add :: "'a::len word \<Rightarrow> 'a word \<Rightarrow> 'a word option" where
  "checked_add a b = (if unat a + unat b < 2 ^ LENGTH('a) then Some (a + b) else None)"

definition saturating_sub :: "'a::len word \<Rightarrow> 'a word \<Rightarrow> 'a word" where
  "saturating_sub a b = (if a < b then 0 else a - b)"

lemma checked_add_SomeD:
  "checked_add (a :: 'a::len word) b = Some c \<Longrightarrow>
    c = a + b \<and> unat c = unat a + unat b \<and> unat a + unat b < 2 ^ LENGTH('a)"
  by (auto simp: checked_add_def unat_word_ariths split: if_splits)

lemma unat_less_2p: "unat (a :: 'a::len word) < 2 ^ LENGTH('a)"
  by (rule unsigned_less)

lemma checked_add_None_iff:
  "checked_add (a :: 'a::len word) b = None \<longleftrightarrow> 2 ^ LENGTH('a) \<le> unat a + unat b"
  by (auto simp: checked_add_def)

lemma unat_saturating_sub [simp]: "unat (saturating_sub a b) = unat a - unat b"
  by (auto simp: saturating_sub_def word_less_nat_alt unat_sub_if' not_less)

lemma saturating_sub_le: "saturating_sub a b \<le> a"
  by (simp add: word_le_nat_alt)

lemma saturating_sub_add [simp]:
  "unat (a :: 'a::len word) + unat b < 2 ^ LENGTH('a) \<Longrightarrow> saturating_sub (a + b) b = a"
  by (rule word_unat_eq_iff [THEN iffD2]) (simp add: unat_word_ariths)

lemma unat_add_no_wrap:
  "unat (a :: 'a::len word) + unat b < 2 ^ LENGTH('a) \<Longrightarrow> unat (a + b) = unat a + unat b"
  by (simp add: unat_word_ariths)

lemma unat_mult_no_wrap:
  "unat (a :: 'a::len word) * unat b < 2 ^ LENGTH('a) \<Longrightarrow> unat (a * b) = unat a * unat b"
  by (simp add: unat_word_ariths)

lemma unat_of_nat_eq: "n < 2 ^ LENGTH('a) \<Longrightarrow> unat (of_nat n :: 'a::len word) = n"
  by (simp add: unsigned_of_nat take_bit_nat_eq_self)

section \<open>Results\<close>

text \<open>
  \<^verbatim>\<open>Result<T, E>\<close> is the sum \<open>'e + 'a\<close>, the error on the left. \<open>and_then\<close> is the
  propagation of an error by the question-mark operator inside a function without effects.
\<close>

definition and_then :: "'e + 'a \<Rightarrow> ('a \<Rightarrow> 'e + 'b) \<Rightarrow> 'e + 'b" where
  "and_then r f = (case r of Inl e \<Rightarrow> Inl e | Inr a \<Rightarrow> f a)"

definition is_ok :: "'e + 'a \<Rightarrow> bool" where
  "is_ok r = (case r of Inl _ \<Rightarrow> False | Inr _ \<Rightarrow> True)"

definition map_err :: "('e \<Rightarrow> 'f) \<Rightarrow> 'e + 'a \<Rightarrow> 'f + 'a" where
  "map_err g r = (case r of Inl e \<Rightarrow> Inl (g e) | Inr a \<Rightarrow> Inr a)"

definition ok_or :: "'e \<Rightarrow> 'a option \<Rightarrow> 'e + 'a" where
  "ok_or e x = (case x of None \<Rightarrow> Inl e | Some a \<Rightarrow> Inr a)"

lemma and_then_simps [simp]: "and_then (Inl e) f = Inl e" "and_then (Inr a) f = f a"
  by (simp_all add: and_then_def)

lemma is_ok_simps [simp]: "\<not> is_ok (Inl e)" "is_ok (Inr a)"
  by (simp_all add: is_ok_def)

lemma map_err_simps [simp]: "map_err g (Inl e) = Inl (g e)" "map_err g (Inr a) = Inr a"
  by (simp_all add: map_err_def)

lemma ok_or_simps [simp]: "ok_or e None = Inl e" "ok_or e (Some a) = Inr a"
  by (simp_all add: ok_or_def)

lemma and_then_Inr_iff: "and_then r f = Inr b \<longleftrightarrow> (\<exists>a. r = Inr a \<and> f a = Inr b)"
  by (cases r) auto

lemma map_err_Inr_iff [simp]: "map_err g r = Inr a \<longleftrightarrow> r = Inr a"
  by (cases r) auto

lemma ok_or_Inr_iff [simp]: "ok_or e x = Inr a \<longleftrightarrow> x = Some a"
  by (cases x) auto

text \<open>A loop whose body may return early with an error, keeping what it has changed so far.\<close>

fun try_fold :: "('x \<Rightarrow> 's \<Rightarrow> ('e + unit) \<times> 's) \<Rightarrow> 'x list \<Rightarrow> 's \<Rightarrow> ('e + unit) \<times> 's" where
  "try_fold f [] s = (Inr (), s)"
| "try_fold f (x # xs) s = (case f x s of
     (Inl e, s') \<Rightarrow> (Inl e, s')
   | (Inr _, s') \<Rightarrow> try_fold f xs s')"

lemma try_fold_Cons_OkD:
  assumes "try_fold f (x # xs) s = (Inr (), s')"
  obtains s1 where "f x s = (Inr (), s1)" "try_fold f xs s1 = (Inr (), s')"
  using assms by (auto split: prod.splits sum.splits)

lemma try_fold_invariant:
  assumes "try_fold f xs s = (Inr (), s')" and "P s"
    and "\<And>x s s'. x \<in> set xs \<Longrightarrow> P s \<Longrightarrow> f x s = (Inr (), s') \<Longrightarrow> P s'"
  shows "P s'"
  using assms
proof (induction xs arbitrary: s)
  case (Cons x xs)
  from Cons.prems(1) obtain s1 where "f x s = (Inr (), s1)" "try_fold f xs s1 = (Inr (), s')"
    by (rule try_fold_Cons_OkD)
  with Cons.IH [of s1] Cons.prems(2,3) show ?case by (meson list.set_intros)
qed simp

lemma try_fold_total:
  assumes "P s" and "\<And>x s. x \<in> set xs \<Longrightarrow> P s \<Longrightarrow> \<exists>s'. f x s = (Inr (), s') \<and> P s'"
  shows "\<exists>s'. try_fold f xs s = (Inr (), s') \<and> P s'"
  using assms
proof (induction xs arbitrary: s)
  case (Cons x xs)
  then obtain s1 where "f x s = (Inr (), s1)" "P s1" by (metis list.set_intros(1))
  with Cons.IH [of s1] Cons.prems(2) show ?case by simp
qed simp

text \<open>Requests served, with their answers, one after the other.\<close>

fun run_steps :: "('q \<Rightarrow> 's \<Rightarrow> 'r \<times> 's) \<Rightarrow> 'q list \<Rightarrow> 's \<Rightarrow> 'r list \<times> 's" where
  "run_steps step [] s = ([], s)"
| "run_steps step (q # qs) s =
     (let a = step q s; b = run_steps step qs (snd a) in (fst a # fst b, snd b))"

text \<open>How an evaluation ends: with a value, with a panic, or never.\<close>

datatype (plugins only: code size) 'a outcome = Returns 'a | Panics | Runs_forever

section \<open>Decimal numbers\<close>

text \<open>The decimal form of a natural number, as \<^verbatim>\<open>to_string\<close> and \<^verbatim>\<open>format!\<close> print it.\<close>

definition digit_char :: "nat \<Rightarrow> char" where
  "digit_char n = char_of (48 + n)"

fun dec_string :: "nat \<Rightarrow> string" where
  "dec_string n = (if n < 10 then [digit_char n] else dec_string (n div 10) @ [digit_char (n mod 10)])"

declare dec_string.simps [simp del]

definition digit_value :: "char \<Rightarrow> nat option" where
  "digit_value c = (let k = (of_char c :: nat) in if 48 \<le> k \<and> k \<le> 57 then Some (k - 48) else None)"

text \<open>Reading a decimal number, \<^const>\<open>None\<close> on an empty string or any other character.\<close>

fun dec_digits :: "string \<Rightarrow> nat \<Rightarrow> nat option" where
  "dec_digits [] acc = Some acc"
| "dec_digits (c # cs) acc = (case digit_value c of None \<Rightarrow> None | Some d \<Rightarrow> dec_digits cs (10 * acc + d))"

definition dec_parse :: "string \<Rightarrow> nat option" where
  "dec_parse s = (if s = [] then None else dec_digits s 0)"

lemma digit_value_char: "n < 10 \<Longrightarrow> digit_value (digit_char n) = Some n"
  by (simp add: digit_value_def digit_char_def of_char_of)

lemma dec_digits_append:
  "dec_digits (s @ t) acc = (case dec_digits s acc of None \<Rightarrow> None | Some v \<Rightarrow> dec_digits t v)"
  by (induction s arbitrary: acc) (auto split: option.splits)

lemma dec_digits_string: "dec_digits (dec_string n) 0 = Some n"
proof (induction n rule: dec_string.induct)
  case (1 n)
  then show ?case
    by (subst dec_string.simps) (auto simp: digit_value_char dec_digits_append)
qed

lemma dec_string_neq_Nil [simp]: "dec_string n \<noteq> []"
  by (subst dec_string.simps) simp

lemma dec_parse_string [simp]: "dec_parse (dec_string n) = Some n"
  by (simp add: dec_parse_def dec_digits_string)

lemma dec_string_inject [simp]: "dec_string m = dec_string n \<longleftrightarrow> m = n"
  by (metis dec_parse_string option.inject)

section \<open>Ordered maps\<close>

type_synonym ('k, 'v) btree_map = "('k \<times> 'v) list"

abbreviation (input) btm_empty :: "('k, 'v) btree_map" where
  "btm_empty \<equiv> []"

abbreviation (input) btm_get :: "('k, 'v) btree_map \<Rightarrow> 'k \<Rightarrow> 'v option" where
  "btm_get \<equiv> map_of"

fun btm_insert :: "'k::linorder \<Rightarrow> 'v \<Rightarrow> ('k, 'v) btree_map \<Rightarrow> ('k, 'v) btree_map" where
  "btm_insert k v [] = [(k, v)]"
| "btm_insert k v (e # m) =
     (if fst e < k then e # btm_insert k v m
      else if fst e = k then (k, v) # m
      else (k, v) # e # m)"

definition btm_remove :: "'k \<Rightarrow> ('k, 'v) btree_map \<Rightarrow> ('k, 'v) btree_map" where
  "btm_remove k m = filter (\<lambda>e. fst e \<noteq> k) m"

definition btm_wf :: "('k::linorder, 'v) btree_map \<Rightarrow> bool" where
  "btm_wf m = sorted_wrt (<) (map fst m)"

lemma btm_wf_Nil [simp, wf_intros]: "btm_wf []"
  by (simp add: btm_wf_def)

lemma btm_wf_Cons [simp]:
  "btm_wf ((k, v) # m) \<longleftrightarrow> (\<forall>j \<in> fst ` set m. k < j) \<and> btm_wf m"
  by (auto simp: btm_wf_def)

lemma btm_wf_distinct: "btm_wf m \<Longrightarrow> distinct (map fst m)"
  by (simp add: btm_wf_def strict_sorted_iff)

lemma keys_btm_insert [ord_map_simps]: "fst ` set (btm_insert k v m) = insert k (fst ` set m)"
  by (induction m) auto

lemma btm_wf_insert [simp, wf_intros]: "btm_wf m \<Longrightarrow> btm_wf (btm_insert k v m)"
  by (induction m) (auto simp: keys_btm_insert, fastforce+)

lemma btm_get_insert [simp, ord_map_simps]:
  "btm_get (btm_insert k v m) = (btm_get m)(k \<mapsto> v)"
  by (induction m) (auto simp: fun_eq_iff)

lemma keys_btm_remove [ord_map_simps]: "fst ` set (btm_remove k m) = fst ` set m - {k}"
  by (auto simp: btm_remove_def)

lemma btm_wf_remove [simp, wf_intros]: "btm_wf m \<Longrightarrow> btm_wf (btm_remove k m)"
  by (induction m) (auto simp: btm_remove_def)

lemma btm_get_remove [simp, ord_map_simps]: "btm_get (btm_remove k m) = (btm_get m)(k := None)"
  by (induction m) (auto simp: btm_remove_def fun_eq_iff)

lemma btm_get_keys: "(btm_get m k \<noteq> None) \<longleftrightarrow> k \<in> fst ` set m"
  by (metis map_of_eq_None_iff)

lemma btm_insert_set:
  "btm_wf m \<Longrightarrow> set (btm_insert k v m) = insert (k, v) {e \<in> set m. fst e \<noteq> k}"
  by (induction m) (auto simp: keys_btm_insert, force+)

lemma length_btm_insert:
  assumes "btm_wf m"
  shows "length (btm_insert k v m) = (if k \<in> fst ` set m then length m else Suc (length m))"
  using assms
proof (induction m)
  case Nil
  then show ?case by simp
next
  case (Cons e m)
  obtain a b where e: "e = (a, b)" by (cases e)
  with Cons.prems have "\<forall>j \<in> fst ` set m. a < j" and "btm_wf m" by auto
  with Cons.IH e show ?case by (cases a k rule: linorder_cases) auto
qed

lemma btm_remove_notin [simp]: "k \<notin> fst ` set m \<Longrightarrow> btm_remove k m = m"
  by (induction m) (auto simp: btm_remove_def)

text \<open>
  The interface of an ordered map, as the clients of the collections use it. The loop
  \<^verbatim>\<open>for x in xs { map.insert(key(x), x) }\<close> occurs throughout the node; what it builds is
  proved once, for every implementation of the interface.
\<close>

locale ordered_map =
  fixes empty :: 'm
    and insert :: "'k \<Rightarrow> 'v \<Rightarrow> 'm \<Rightarrow> 'm"
    and remove :: "'k \<Rightarrow> 'm \<Rightarrow> 'm"
    and get :: "'m \<Rightarrow> 'k \<Rightarrow> 'v option"
    and wf :: "'m \<Rightarrow> bool"
  assumes get_empty: "get empty k = None"
    and get_insert: "wf m \<Longrightarrow> get (insert k v m) j = (if j = k then Some v else get m j)"
    and get_remove: "wf m \<Longrightarrow> get (remove k m) j = (if j = k then None else get m j)"
    and wf_empty: "wf empty"
    and wf_insert: "wf m \<Longrightarrow> wf (insert k v m)"
    and wf_remove: "wf m \<Longrightarrow> wf (remove k m)"
begin

lemma wf_fold_insert: "wf m \<Longrightarrow> wf (fold (\<lambda>x. insert (f x) (g x)) xs m)"
  by (induction xs arbitrary: m) (auto simp: wf_insert)

lemma get_fold_insert_notin:
  "wf m \<Longrightarrow> k \<notin> f ` set xs \<Longrightarrow> get (fold (\<lambda>x. insert (f x) (g x)) xs m) k = get m k"
  by (induction xs arbitrary: m) (auto simp: wf_insert get_insert)

lemma get_fold_insert:
  "wf m \<Longrightarrow> distinct (map f xs) \<Longrightarrow> x \<in> set xs \<Longrightarrow>
    get (fold (\<lambda>x. insert (f x) (g x)) xs m) (f x) = Some (g x)"
proof (induction xs arbitrary: m)
  case Nil
  then show ?case by simp
next
  case (Cons y ys)
  show ?case
  proof (cases "x = y")
    case True
    with Cons.prems show ?thesis
      by (simp add: wf_insert get_insert get_fold_insert_notin)
  next
    case False
    with Cons show ?thesis by (simp add: wf_insert)
  qed
qed

lemma wf_fold_remove: "wf m \<Longrightarrow> wf (fold remove ks m)"
  by (induction ks arbitrary: m) (auto simp: wf_remove)

lemma get_fold_remove:
  "wf m \<Longrightarrow> get (fold remove ks m) k = (if k \<in> set ks then None else get m k)"
  by (induction ks arbitrary: m) (auto simp: wf_remove get_remove)

end

interpretation btm: ordered_map btm_empty btm_insert btm_remove btm_get btm_wf
  by unfold_locales auto

section \<open>Sums over maps\<close>

text \<open>The values of a map, added up; inserting under a fresh key adds one summand.\<close>

definition btm_sum :: "('v \<Rightarrow> nat) \<Rightarrow> ('k, 'v) btree_map \<Rightarrow> nat" where
  "btm_sum f m = (\<Sum>e\<leftarrow>m. f (snd e))"

lemma btm_sum_simps [simp]:
  "btm_sum f [] = 0" "btm_sum f ((k, v) # m) = f v + btm_sum f m"
  by (simp_all add: btm_sum_def)

lemma btm_sum_insert:
  "btm_wf m \<Longrightarrow>
    btm_sum f (btm_insert k v m) + (case btm_get m k of None \<Rightarrow> 0 | Some w \<Rightarrow> f w) = f v + btm_sum f m"
proof (induction m)
  case Nil
  then show ?case by simp
next
  case (Cons e m)
  obtain a b where e: "e = (a, b)" by (cases e)
  with Cons.prems have less: "\<forall>j \<in> fst ` set m. a < j" and wf: "btm_wf m" by auto
  show ?case
  proof (cases a k rule: linorder_cases)
    case less
    with Cons.IH wf e show ?thesis by (auto split: option.splits)
  next
    case equal
    with e show ?thesis by simp
  next
    case greater
    with less have "btm_get m k = None" by (metis btm_get_keys order.asym)
    with e greater show ?thesis by (auto simp: less_not_sym)
  qed
qed

lemma btm_sum_get: "btm_get m k = Some v \<Longrightarrow> f v \<le> btm_sum f m"
  by (induction m) (auto split: if_splits)

lemma btm_sum_permute: "mset m = mset n \<Longrightarrow> btm_sum f m = btm_sum f n"
  by (simp add: btm_sum_def flip: sum_mset_sum_list)

section \<open>Ordered sets\<close>

type_synonym 'a btree_set = "'a list"

fun bts_insert :: "'a::linorder \<Rightarrow> 'a btree_set \<Rightarrow> 'a btree_set" where
  "bts_insert x [] = [x]"
| "bts_insert x (y # ys) =
     (if y < x then y # bts_insert x ys else if y = x then y # ys else x # y # ys)"

definition bts_remove :: "'a \<Rightarrow> 'a btree_set \<Rightarrow> 'a btree_set" where
  "bts_remove x ys = filter (\<lambda>y. y \<noteq> x) ys"

definition bts_wf :: "'a::linorder btree_set \<Rightarrow> bool" where
  "bts_wf xs = sorted_wrt (<) xs"

text \<open>\<^verbatim>\<open>iter().collect::<BTreeSet<_>>()\<close>.\<close>

definition bts_collect :: "'a::linorder list \<Rightarrow> 'a btree_set" where
  "bts_collect xs = fold bts_insert xs []"

lemma set_bts_insert [simp]: "set (bts_insert x ys) = insert x (set ys)"
  by (induction ys) auto

lemma bts_wf_Nil [simp, wf_intros]: "bts_wf []"
  by (simp add: bts_wf_def)

lemma bts_wf_insert [simp, wf_intros]: "bts_wf ys \<Longrightarrow> bts_wf (bts_insert x ys)"
  unfolding bts_wf_def by (induction ys) auto

lemma set_bts_remove [simp]: "set (bts_remove x ys) = set ys - {x}"
  by (auto simp: bts_remove_def)

lemma bts_wf_remove [simp, wf_intros]: "bts_wf ys \<Longrightarrow> bts_wf (bts_remove x ys)"
  by (simp add: bts_wf_def bts_remove_def sorted_wrt_filter)

lemma bts_wf_distinct: "bts_wf ys \<Longrightarrow> distinct ys"
  by (simp add: bts_wf_def strict_sorted_iff)

lemma bts_wf_fold_insert: "bts_wf ys \<Longrightarrow> bts_wf (fold bts_insert xs ys)"
  by (induction xs arbitrary: ys) auto

lemma set_fold_bts_insert: "set (fold bts_insert xs ys) = set xs \<union> set ys"
  by (induction xs arbitrary: ys) auto

lemma bts_wf_collect [simp, wf_intros]: "bts_wf (bts_collect xs)"
  by (simp add: bts_collect_def bts_wf_fold_insert)

lemma set_bts_collect [simp]: "set (bts_collect xs) = set xs"
  by (simp add: bts_collect_def set_fold_bts_insert)

lemma length_bts: "bts_wf ys \<Longrightarrow> length ys = card (set ys)"
  by (simp add: bts_wf_distinct distinct_card)

lemma length_bts_insert:
  "bts_wf ys \<Longrightarrow> length (bts_insert x ys) = (if x \<in> set ys then length ys else Suc (length ys))"
  by (simp add: length_bts insert_absorb)

end
