(* ===== verification/Data_Types.thy ===== *)
theory Data_Types
  imports Prelude
begin

text \<open>
  The plain data the node receives from the crates it is built on (\<^verbatim>\<open>xor_name\<close>,
  \<^verbatim>\<open>threshold_crypto\<close>, \<^verbatim>\<open>sn_data_types\<close>), with the variants and fields that the sources
  construct, match or read. Key material, signatures and the data types the node only stores
  and forwards are opaque identities (natural numbers): the node compares and copies them.
  Everything these crates compute (hashes, signatures, permissions, wallets) is not
  defined here; it is a parameter of the definitions that use it.
\<close>

section \<open>Names, keys, signatures\<close>

type_synonym XorName = "256 word"
type_synonym Token = u64
type_synonym NodeAge = u8
type_synonym CreditId = "256 word"
type_synonym MessageId = "256 word"

datatype (plugins only: code size) Prefix = Prefix (prefix_bit_count: nat) (prefix_name: XorName)

datatype (plugins only: code size) PublicKey = Ed25519 nat | Bls nat | BlsShare nat

text \<open>\<^verbatim>\<open>PublicKey\<close> is a key of ordered maps; the order itself is never observed.\<close>

fun pk_rank :: "PublicKey \<Rightarrow> nat \<times> nat" where
  "pk_rank (Ed25519 k) = (0, k)"
| "pk_rank (Bls k) = (1, k)"
| "pk_rank (BlsShare k) = (2, k)"

lemma pk_rank_inject: "pk_rank a = pk_rank b \<longleftrightarrow> a = b"
  by (cases a; cases b) auto

instantiation PublicKey :: linorder
begin

definition less_eq_PublicKey :: "PublicKey \<Rightarrow> PublicKey \<Rightarrow> bool" where
  "less_eq_PublicKey a b \<longleftrightarrow> fst (pk_rank a) < fst (pk_rank b) \<or>
     fst (pk_rank a) = fst (pk_rank b) \<and> snd (pk_rank a) \<le> snd (pk_rank b)"

definition less_PublicKey :: "PublicKey \<Rightarrow> PublicKey \<Rightarrow> bool" where
  "less_PublicKey a b \<longleftrightarrow> fst (pk_rank a) < fst (pk_rank b) \<or>
     fst (pk_rank a) = fst (pk_rank b) \<and> snd (pk_rank a) < snd (pk_rank b)"

instance
  by standard
    (auto simp: less_eq_PublicKey_def less_PublicKey_def prod_eq_iff simp flip: pk_rank_inject)

end

datatype (plugins only: code size) PublicKeySet = PublicKeySet nat

record SignatureShare =
  share :: nat
  share_index :: nat

datatype (plugins only: code size) Signature = SigBls nat | SigEd25519 nat | SigBlsShare SignatureShare

text \<open>
  The threshold cryptography the node calls: the threshold and the section key of a public
  key set, and the combination of signature shares, which fails on shares it cannot combine.
\<close>

record bls_api =
  threshold :: "PublicKeySet \<Rightarrow> nat"
  public_key :: "PublicKeySet \<Rightarrow> nat"
  combine_signatures :: "PublicKeySet \<Rightarrow> (nat, nat) btree_map \<Rightarrow> nat option"

section \<open>Transfers\<close>

record Credit =
  credit_id :: CreditId
  credit_amount :: Token
  credit_recipient :: PublicKey
  credit_msg :: string

record Debit =
  debit_actor :: PublicKey
  debit_counter :: u64
  debit_amount :: Token

record SignedCredit =
  sc_credit :: Credit
  sc_actor_signature :: Signature

record SignedDebit =
  sd_debit :: Debit
  sd_actor_signature :: Signature

record SignedTransfer =
  st_debit :: SignedDebit
  st_credit :: SignedCredit

record Transfer =
  transfer_to :: PublicKey
  transfer_debit :: Debit

record CreditAgreementProof =
  cap_signed_credit :: SignedCredit
  cap_debiting_replicas_sig :: Signature
  cap_debiting_replicas_keys :: PublicKeySet

record TransferAgreementProof =
  tap_signed_credit :: SignedCredit
  tap_signed_debit :: SignedDebit
  tap_debit_sig :: Signature
  tap_credit_sig :: Signature
  tap_debiting_replicas_keys :: PublicKeySet

record TransferValidated =
  tv_signed_credit :: SignedCredit
  tv_signed_debit :: SignedDebit
  tv_replica_debit_sig :: SignatureShare
  tv_replica_credit_sig :: SignatureShare
  tv_replicas :: PublicKeySet

datatype (plugins only: code size) ReplicaEvent =
    TransferValidationProposed PublicKey
  | TransferValidatedEv TransferValidated
  | TransferRegistered TransferAgreementProof
  | TransferPropagated CreditAgreementProof

record ActorHistory =
  credits :: "CreditAgreementProof list"
  debits :: "TransferAgreementProof list"

text \<open>Getters of the structures above.\<close>

definition cap_id :: "CreditAgreementProof \<Rightarrow> CreditId" where
  "cap_id p = credit_id (sc_credit (cap_signed_credit p))"

definition cap_recipient :: "CreditAgreementProof \<Rightarrow> PublicKey" where
  "cap_recipient p = credit_recipient (sc_credit (cap_signed_credit p))"

definition cap_amount :: "CreditAgreementProof \<Rightarrow> Token" where
  "cap_amount p = credit_amount (sc_credit (cap_signed_credit p))"

definition sc_id :: "SignedCredit \<Rightarrow> CreditId" where
  "sc_id c = credit_id (sc_credit c)"

definition tap_sender :: "TransferAgreementProof \<Rightarrow> PublicKey" where
  "tap_sender p = debit_actor (sd_debit (tap_signed_debit p))"

definition tap_recipient :: "TransferAgreementProof \<Rightarrow> PublicKey" where
  "tap_recipient p = credit_recipient (sc_credit (tap_signed_credit p))"

definition tap_amount :: "TransferAgreementProof \<Rightarrow> Token" where
  "tap_amount p = debit_amount (sd_debit (tap_signed_debit p))"

definition tap_id :: "TransferAgreementProof \<Rightarrow> PublicKey \<times> u64" where
  "tap_id p = (debit_actor (sd_debit (tap_signed_debit p)), debit_counter (sd_debit (tap_signed_debit p)))"

definition st_sender :: "SignedTransfer \<Rightarrow> PublicKey" where
  "st_sender t = debit_actor (sd_debit (st_debit t))"

definition tv_sender :: "TransferValidated \<Rightarrow> PublicKey" where
  "tv_sender t = debit_actor (sd_debit (tv_signed_debit t))"

text \<open>The proof of the credit half of a transfer.\<close>

definition credit_proof :: "TransferAgreementProof \<Rightarrow> CreditAgreementProof" where
  "credit_proof p = \<lparr>cap_signed_credit = tap_signed_credit p,
     cap_debiting_replicas_sig = tap_credit_sig p,
     cap_debiting_replicas_keys = tap_debiting_replicas_keys p\<rparr>"

section \<open>Rewards\<close>

record SignedCreditShare =
  scs_credit :: Credit
  scs_actor_signature :: SignatureShare

record RewardProposal =
  rp_section_key :: PublicKey
  rp_rewards :: "SignedCreditShare list"

record AccumulatingReward =
  ar_signed_credit :: SignedCredit
  ar_sig :: SignatureShare

record RewardAccumulation =
  ra_section_key :: PublicKey
  ra_rewards :: "AccumulatingReward list"

section \<open>Blobs, maps, sequences\<close>

datatype (plugins only: code size) BlobAddress = BlobPrivateAddr XorName | BlobPublicAddr XorName

fun blob_address_name :: "BlobAddress \<Rightarrow> XorName" where
  "blob_address_name (BlobPrivateAddr n) = n"
| "blob_address_name (BlobPublicAddr n) = n"

fun blob_address_is_private :: "BlobAddress \<Rightarrow> bool" where
  "blob_address_is_private (BlobPrivateAddr n) = True"
| "blob_address_is_private (BlobPublicAddr n) = False"

instantiation BlobAddress :: linorder
begin

definition less_eq_BlobAddress :: "BlobAddress \<Rightarrow> BlobAddress \<Rightarrow> bool" where
  "less_eq_BlobAddress a b \<longleftrightarrow> (blob_address_is_private a \<and> \<not> blob_address_is_private b) \<or>
     blob_address_is_private a = blob_address_is_private b \<and> blob_address_name a \<le> blob_address_name b"

definition less_BlobAddress :: "BlobAddress \<Rightarrow> BlobAddress \<Rightarrow> bool" where
  "less_BlobAddress a b \<longleftrightarrow> (blob_address_is_private a \<and> \<not> blob_address_is_private b) \<or>
     blob_address_is_private a = blob_address_is_private b \<and> blob_address_name a < blob_address_name b"

instance
proof
  fix x y z :: BlobAddress
  show "(x < y) = (x \<le> y \<and> \<not> y \<le> x)"
    by (auto simp: less_eq_BlobAddress_def less_BlobAddress_def)
  show "x \<le> x" by (simp add: less_eq_BlobAddress_def)
  show "x \<le> y \<Longrightarrow> y \<le> z \<Longrightarrow> x \<le> z" by (auto simp: less_eq_BlobAddress_def)
  show "x \<le> y \<Longrightarrow> y \<le> x \<Longrightarrow> x = y"
    by (cases x; cases y) (auto simp: less_eq_BlobAddress_def)
  show "x \<le> y \<or> y \<le> x" by (auto simp: less_eq_BlobAddress_def)
qed

end

text \<open>
  \<^verbatim>\<open>Blob::Public\<close> and \<^verbatim>\<open>Blob::Private\<close>: the address is the one the blob reports (its
  content hash); only private blobs have an owner.
\<close>

datatype (plugins only: code size) Blob = PublicBlob BlobAddress bytes | PrivateBlob BlobAddress bytes PublicKey

fun blob_address :: "Blob \<Rightarrow> BlobAddress" where
  "blob_address (PublicBlob a v) = a"
| "blob_address (PrivateBlob a v k) = a"

fun blob_owner :: "Blob \<Rightarrow> PublicKey option" where
  "blob_owner (PublicBlob a v) = None"
| "blob_owner (PrivateBlob a v k) = Some k"

fun blob_is_private :: "Blob \<Rightarrow> bool" where
  "blob_is_private (PublicBlob a v) = False"
| "blob_is_private (PrivateBlob a v k) = True"

definition blob_name :: "Blob \<Rightarrow> XorName" where
  "blob_name b = blob_address_name (blob_address b)"

type_synonym MapValue = nat
type_synonym MapValues = nat
type_synonym MapEntries = nat
type_synonym MapPermissions = nat
type_synonym MapPermissionSet = nat
type_synonym MapEntryActions = nat
type_synonym SequenceEntry = bytes
type_synonym SequenceEntries = nat
type_synonym SequencePermissions = nat
type_synonym SequenceUser = nat

datatype (plugins only: code size) MapAddress = MapAddress nat

datatype (plugins only: code size) Map = SeqMap nat | UnseqMap nat

datatype (plugins only: code size) SequenceAddress = SeqPrivateAddr XorName nat | SeqPublicAddr XorName nat

fun seq_address_is_public :: "SequenceAddress \<Rightarrow> bool" where
  "seq_address_is_public (SeqPublicAddr n t) = True"
| "seq_address_is_public (SeqPrivateAddr n t) = False"

datatype (plugins only: code size) Sequence = Sequence nat

datatype (plugins only: code size) SequenceIndex = FromStart u64 | FromEnd u64

record SequenceOp =
  op_address :: SequenceAddress
  op_entry :: SequenceEntry

record SequencePolicy =
  policy_owner :: PublicKey
  policy_permissions :: SequencePermissions

end
