(* ===== verification/Errors.thy ===== *)
theory Errors
  imports Data_Types
begin

text \<open>
  The errors of the node (\<^verbatim>\<open>src/src/error.rs\<close>): the enumeration \<^verbatim>\<open>Error\<close>, the errors of
  \<^verbatim>\<open>sn_data_types\<close> and \<^verbatim>\<open>sn_messaging\<close> the sources name, and the two conversions to the
  error a client is told. The rendering of an error as text, used for errors without a
  mapping, is derived by a macro and is a parameter (\<open>to_string\<close>).
\<close>

text \<open>\<^verbatim>\<open>sn_data_types::Error\<close>; \<open>DtOther\<close> stands for the variants the node has no mapping for.\<close>

datatype (plugins only: code size) DtError =
    DtInvalidOperation
  | DtPolicyNotSet
  | DtNoSuchEntry
  | DtCrdtUnexpectedState
  | DtOpNotCausallyReady
  | DtAccessDenied PublicKey
  | DtOther nat

text \<open>\<^verbatim>\<open>sn_transfers::Error\<close>, by the variants the node constructs or matches.\<close>

datatype (plugins only: code size) TransfersError = InvalidOwner | SectionKeyNeverExisted | TransfersOther nat

text \<open>\<^verbatim>\<open>sn_messaging::client::Error\<close>, by the variants the node constructs.\<close>

datatype (plugins only: code size) ErrorMessage =
    EmInvalidOperation
  | EmInvalidOwners PublicKey
  | EmInvalidSignature
  | EmTransactionIdExists
  | EmNoSuchData
  | EmNotEnoughSpace
  | EmBalanceExists
  | EmFailedToWriteFile
  | EmDataExists
  | EmPolicyNotSet
  | EmNoSuchEntry
  | EmCrdtUnexpectedState
  | EmOpNotCausallyReady
  | EmAccessDenied PublicKey
  | EmNoSuchRecipient
  | EmInsufficientBalance
  | EmPaymentFailed
  | EmNoSuchKey
  | EmNoHistoryForPublicKey PublicKey
  | EmFailedToDelete

datatype (plugins only: code size) Error =
    BalanceExists
  | NotEnoughSpace
  | NoSectionPublicKey
  | UnknownSectionKey PublicKey
  | ProvidedPkIsNotBlsShare
  | ProvidedPkIsNotBls
  | NoSectionPublicKeySet
  | NoSectionPublicKeyKnown XorName
  | InvalidRewardStage
  | NodeNotFoundForReward
  | NoSuchChunk
  | NoChunks
  | NoMetadata
  | NoTransfers
  | NoSectionFunds
  | NotChurningFunds
  | TempDirCreationFailed string
  | NoStoreId
  | CouldNotCombineSignatures
  | DataExists
  | Io
  | JsonSerialisation
  | Bincode
  | ClientMessage ErrorMessage
  | MessageError
  | PickleDb
  | NetworkData DtError
  | TransferError TransfersError
  | Routing nat
  | Onboarding
  | TransferAlreadyRegistered
  | InvalidSignedTransfer PublicKey u64
  | InvalidPropagatedTransfer CreditAgreementProof
  | InvalidMessage MessageId string
  | InvalidOwners PublicKey
  | InvalidOperation string
  | NoErrorMapping string
  | Logic string
  | Configuration string

type_synonym 'a result = "Error + 'a"

text \<open>The texts of the errors, as \<^verbatim>\<open>thiserror\<close> renders them.\<close>

record error_texts =
  to_string :: "Error \<Rightarrow> string"
  dt_to_string :: "DtError \<Rightarrow> string"

fun convert_dt_error_to_error_message :: "error_texts \<Rightarrow> DtError \<Rightarrow> ErrorMessage result" where
  "convert_dt_error_to_error_message T DtInvalidOperation = Inr EmInvalidOperation"
| "convert_dt_error_to_error_message T DtPolicyNotSet = Inr EmPolicyNotSet"
| "convert_dt_error_to_error_message T DtNoSuchEntry = Inr EmNoSuchEntry"
| "convert_dt_error_to_error_message T DtCrdtUnexpectedState = Inr EmCrdtUnexpectedState"
| "convert_dt_error_to_error_message T DtOpNotCausallyReady = Inr EmOpNotCausallyReady"
| "convert_dt_error_to_error_message T (DtAccessDenied pk) = Inr (EmAccessDenied pk)"
| "convert_dt_error_to_error_message T e = Inl (NoErrorMapping (dt_to_string T e))"

definition convert_to_error_message :: "error_texts \<Rightarrow> Error \<Rightarrow> ErrorMessage result" where
  "convert_to_error_message T error = (case error of
     InvalidOperation msg \<Rightarrow> Inr EmInvalidOperation
   | InvalidOwners key \<Rightarrow> Inr (EmInvalidOwners key)
   | InvalidSignedTransfer a c \<Rightarrow> Inr EmInvalidSignature
   | TransferAlreadyRegistered \<Rightarrow> Inr EmTransactionIdExists
   | NoSuchChunk \<Rightarrow> Inr EmNoSuchData
   | NotEnoughSpace \<Rightarrow> Inr EmNotEnoughSpace
   | BalanceExists \<Rightarrow> Inr EmBalanceExists
   | TempDirCreationFailed s \<Rightarrow> Inr EmFailedToWriteFile
   | DataExists \<Rightarrow> Inr EmDataExists
   | NetworkData e \<Rightarrow> convert_dt_error_to_error_message T e
   | e \<Rightarrow> Inl (NoErrorMapping (to_string T e)))"

text \<open>The errors a client can be told about.\<close>

definition has_mapping :: "Error \<Rightarrow> bool" where
  "has_mapping error = (case error of
     InvalidOperation msg \<Rightarrow> True
   | InvalidOwners key \<Rightarrow> True
   | InvalidSignedTransfer a c \<Rightarrow> True
   | TransferAlreadyRegistered \<Rightarrow> True
   | NoSuchChunk \<Rightarrow> True
   | NotEnoughSpace \<Rightarrow> True
   | BalanceExists \<Rightarrow> True
   | TempDirCreationFailed s \<Rightarrow> True
   | DataExists \<Rightarrow> True
   | NetworkData e \<Rightarrow> (case e of DtOther n \<Rightarrow> False | _ \<Rightarrow> True)
   | _ \<Rightarrow> False)"

lemma convert_dt_error_ok_iff:
  "is_ok (convert_dt_error_to_error_message T d) \<longleftrightarrow> has_mapping (NetworkData d)"
  by (cases d) (simp_all add: has_mapping_def)

text \<open>
  The conversion fails exactly on the errors without a mapping, and then only with
  \<^const>\<open>NoErrorMapping\<close>.
\<close>

lemma convert_to_error_message_ok_iff:
  "is_ok (convert_to_error_message T e) \<longleftrightarrow> has_mapping e"
  by (cases e) (simp_all add: convert_to_error_message_def has_mapping_def
      convert_dt_error_ok_iff [unfolded has_mapping_def])

lemma convert_dt_error_Inl:
  "convert_dt_error_to_error_message T d = Inl e \<Longrightarrow> \<exists>s. e = NoErrorMapping s"
  by (cases d) auto

lemma convert_to_error_message_Inl:
  "convert_to_error_message T e = Inl e' \<Longrightarrow> \<exists>s. e' = NoErrorMapping s"
  by (cases e) (auto simp: convert_to_error_message_def dest: convert_dt_error_Inl)

end
