(* ===== verification/Node_Ops.thy ===== *)
theory Node_Ops
  imports Errors
begin

text \<open>
  The messages of \<^verbatim>\<open>sn_messaging\<close> the node sends and receives, by the variants its sources
  construct or match, and the internal messages of the node (\<^verbatim>\<open>src/src/node_ops.rs\<close>): the
  outgoing message and the duties passed between the node's modules.
\<close>

section \<open>Locations\<close>

datatype (plugins only: code size) EndUser = AllClients PublicKey | Client PublicKey XorName

fun end_user_id :: "EndUser \<Rightarrow> PublicKey" where
  "end_user_id (AllClients k) = k"
| "end_user_id (Client k s) = k"

datatype (plugins only: code size) SrcLocation = SrcNode XorName | SrcSection XorName | SrcEndUser EndUser

datatype (plugins only: code size) DstLocation = DstNode XorName | DstSection XorName | DstEndUser EndUser | DstDirect

datatype (plugins only: code size) Aggregation = AggregationNone | AtDestination

section \<open>Messages\<close>

datatype (plugins only: code size) BlobRead = GetBlobAt BlobAddress

datatype (plugins only: code size) BlobWrite = NewBlob Blob | DeletePrivate BlobAddress

datatype (plugins only: code size) MapRead =
    GetMapAt MapAddress
  | GetValue MapAddress bytes
  | GetShell MapAddress
  | GetVersion MapAddress
  | ListEntries MapAddress
  | ListKeys MapAddress
  | ListValues MapAddress
  | ListPermissions MapAddress
  | ListUserPermissions MapAddress PublicKey

datatype (plugins only: code size) MapWrite =
    NewMap Map
  | DeleteMap MapAddress
  | SetUserPermissions MapAddress PublicKey MapPermissionSet u64
  | DelUserPermissions MapAddress PublicKey u64
  | EditMap MapAddress MapEntryActions

datatype (plugins only: code size) SequenceRead =
    GetSeq SequenceAddress
  | GetRange SequenceAddress SequenceIndex SequenceIndex
  | GetLastEntry SequenceAddress
  | GetOwner SequenceAddress
  | GetUserPermissions SequenceAddress SequenceUser
  | GetPublicPolicy SequenceAddress
  | GetPrivatePolicy SequenceAddress

datatype (plugins only: code size) SequenceWrite = NewSeq Sequence | EditSeq SequenceOp | DeleteSeq SequenceAddress

datatype (plugins only: code size) DataQuery = BlobQuery BlobRead | MapQuery MapRead | SequenceQuery SequenceRead

datatype (plugins only: code size) DataCmd = BlobCmd BlobWrite | MapCmd MapWrite | SequenceCmd SequenceWrite

datatype (plugins only: code size) TransferCmd =
    ValidateTransfer SignedTransfer
  | SimulatePayoutCmd Transfer
  | RegisterTransferCmd TransferAgreementProof

datatype (plugins only: code size) TransferQuery =
    GetHistory PublicKey nat
  | GetBalanceOf PublicKey
  | GetStoreCostOf PublicKey u64

datatype (plugins only: code size) Cmd = DataCmdMsg TransferAgreementProof DataCmd | TransferCmdMsg TransferCmd

datatype (plugins only: code size) Query = DataQueryMsg DataQuery | TransferQueryMsg TransferQuery

datatype (plugins only: code size) QueryResponse =
    GetBlobResponse "ErrorMessage + Blob"
  | GetStoreCostResponse "ErrorMessage + Token"
  | GetBalanceResponse "ErrorMessage + Token"
  | GetHistoryResponse "ErrorMessage + ActorHistory"
  | GetMapResponse "ErrorMessage + Map"
  | GetMapShellResponse "ErrorMessage + Map"
  | GetMapVersionResponse "ErrorMessage + u64"
  | GetMapValueResponse "ErrorMessage + MapValue"
  | ListMapKeysResponse "ErrorMessage + bytes list"
  | ListMapValuesResponse "ErrorMessage + MapValues"
  | ListMapEntriesResponse "ErrorMessage + MapEntries"
  | ListMapPermissionsResponse "ErrorMessage + MapPermissions"
  | ListMapUserPermissionsResponse "ErrorMessage + MapPermissionSet"
  | GetSequenceResponse "ErrorMessage + Sequence"
  | GetSequenceRangeResponse "ErrorMessage + SequenceEntries"
  | GetSequenceLastEntryResponse "ErrorMessage + (u64 \<times> SequenceEntry)"
  | GetSequenceOwnerResponse "ErrorMessage + PublicKey"
  | GetSequenceUserPermissionsResponse "ErrorMessage + SequencePermissions"
  | GetSequencePublicPolicyResponse "ErrorMessage + SequencePolicy"
  | GetSequencePrivatePolicyResponse "ErrorMessage + SequencePolicy"

datatype (plugins only: code size) TransferErrorMsg = TransferValidationErr ErrorMessage | TransferRegistrationErr ErrorMessage

datatype (plugins only: code size) CmdErrorMsg = CmdErrorData ErrorMessage | CmdErrorTransfer TransferErrorMsg

datatype (plugins only: code size) NodeSystemCmd =
    RegisterWallet PublicKey
  | ReceiveExistingData "(XorName, NodeAge \<times> PublicKey) btree_map" "(PublicKey, ActorHistory) btree_map"
  | ProposeRewardPayout RewardProposal
  | AccumulateRewardPayout RewardAccumulation
  | ReplicateChunkCmd XorName BlobAddress "XorName btree_set"
  | StorageFull XorName PublicKey

datatype (plugins only: code size) NodeCmd =
    NodeMetadataCmd DataCmd EndUser
  | NodeChunksCmd BlobWrite EndUser
  | NodeSystem NodeSystemCmd
  | NodePropagateTransfer CreditAgreementProof

datatype (plugins only: code size) NodeSystemQuery =
    GetChunkQuery XorName BlobAddress "XorName btree_set"
  | GetSectionEldersQuery

datatype (plugins only: code size) NodeQuery =
    NodeMetadataQuery DataQuery EndUser
  | NodeChunksQuery BlobRead EndUser
  | NodeRewardsQuery XorName
  | NodeSystemQueryMsg NodeSystemQuery
  | GetReplicaEventsQuery

record SectionElders =
  elders_prefix :: Prefix
  elders_names :: "XorName btree_set"
  elders_key_set :: PublicKeySet

datatype (plugins only: code size) NodeQueryResponse =
    GetChunkResponse "ErrorMessage + Blob"
  | GetReplicaEventsResponse "ErrorMessage + ReplicaEvent list"
  | GetSectionEldersResponse SectionElders

text \<open>
  \<^verbatim>\<open>sn_messaging::client::Message\<close>: the payload, the id, for responses the id of the message
  responded to, and the target section key.
\<close>

datatype (plugins only: code size) Message =
    CmdM Cmd MessageId "PublicKey option"
  | QueryM Query MessageId "PublicKey option"
  | QueryResponseM QueryResponse MessageId MessageId "PublicKey option"
  | CmdErrorM CmdErrorMsg MessageId MessageId "PublicKey option"
  | EventM TransferValidated MessageId MessageId "PublicKey option"
  | NodeCmdM NodeCmd MessageId "PublicKey option"
  | NodeQueryM NodeQuery MessageId "PublicKey option"
  | NodeQueryResponseM NodeQueryResponse MessageId MessageId "PublicKey option"
  | NodeCmdErrorM ErrorMessage MessageId MessageId "PublicKey option"
  | NodeEventM nat MessageId MessageId "PublicKey option"

fun message_id :: "Message \<Rightarrow> MessageId" where
  "message_id (CmdM c i t) = i"
| "message_id (QueryM q i t) = i"
| "message_id (QueryResponseM r i c t) = i"
| "message_id (CmdErrorM e i c t) = i"
| "message_id (EventM e i c t) = i"
| "message_id (NodeCmdM c i t) = i"
| "message_id (NodeQueryM q i t) = i"
| "message_id (NodeQueryResponseM r i c t) = i"
| "message_id (NodeCmdErrorM e i c t) = i"
| "message_id (NodeEventM e i c t) = i"

text \<open>
  What \<^verbatim>\<open>sn_messaging\<close>, \<^verbatim>\<open>sn_data_types\<close> and \<^verbatim>\<open>xor_name\<close> compute for the node: message ids
  derived from other ids, names and signatures, the name of a key, conversions of locations,
  the address a data message is routed to, prefixes.
\<close>

record externals =
  in_response_to :: "MessageId \<Rightarrow> MessageId"
  combine :: "XorName list \<Rightarrow> MessageId"
  from_content :: "Signature \<Rightarrow> MessageId result"
  xor_name_of_key :: "PublicKey \<Rightarrow> XorName"
  end_user_name :: "EndUser \<Rightarrow> XorName"
  src_to_dst :: "SrcLocation \<Rightarrow> DstLocation"
  src_name :: "SrcLocation \<Rightarrow> XorName"
  dst_name :: "DstLocation \<Rightarrow> XorName option"
  dst_contains :: "DstLocation \<Rightarrow> XorName \<Rightarrow> Prefix \<Rightarrow> bool"
  blob_read_dst_address :: "BlobRead \<Rightarrow> XorName"
  data_query_dst_address :: "DataQuery \<Rightarrow> XorName"
  data_cmd_dst_address :: "DataCmd \<Rightarrow> XorName"
  prefix_matches :: "Prefix \<Rightarrow> XorName \<Rightarrow> bool"
  prefix_sibling :: "Prefix \<Rightarrow> Prefix"
  texts :: error_texts

section \<open>Outgoing messages and duties\<close>

record OutgoingMsg =
  msg :: Message
  dst :: DstLocation
  section_source :: bool
  aggregation :: Aggregation

definition outgoing_msg_id :: "OutgoingMsg \<Rightarrow> MessageId" where
  "outgoing_msg_id m = message_id (msg m)"

datatype (plugins only: code size) NodeDuty =
    AddPayment CreditAgreementProof
  | GetNodeWalletKey XorName MessageId SrcLocation
  | PropagateTransfer CreditAgreementProof MessageId SrcLocation
  | SetNodeWallet PublicKey XorName MessageId SrcLocation
  | GetTransferReplicaEvents MessageId SrcLocation
  | ValidateClientTransfer SignedTransfer MessageId SrcLocation
  | RegisterTransfer TransferAgreementProof MessageId
  | SimulatePayout Transfer MessageId SrcLocation
  | ReadChunk BlobRead MessageId EndUser
  | WriteChunk BlobWrite MessageId EndUser
  | GetSectionElders MessageId SrcLocation
  | GetTransfersHistory PublicKey nat MessageId SrcLocation
  | GetBalance PublicKey MessageId SrcLocation
  | GetStoreCost PublicKey u64 MessageId SrcLocation
  | ReceiveRewardProposal RewardProposal
  | ReceiveRewardAccumulation RewardAccumulation
  | Genesis
  | EldersChanged Prefix PublicKey bool
  | SectionSplit Prefix PublicKey PublicKey bool
  | LevelDown
  | SynchState "(XorName, NodeAge \<times> PublicKey) btree_map" "(PublicKey, ActorHistory) btree_map"
  | ProcessLostMember XorName u8
  | ReachingMaxCapacity
  | IncrementFullNodeCount PublicKey
  | SetNodeJoinsAllowed bool
  | Send OutgoingMsg
  | SendToNodes "XorName btree_set" Message
  | ProcessRead DataQuery MessageId EndUser
  | ProcessWrite DataCmd MessageId EndUser
  | ProcessDataPayment Message EndUser
  | ReplicateChunk BlobAddress "XorName btree_set" MessageId
  | GetChunkForReplication BlobAddress XorName MessageId
  | StoreChunkForReplication Blob MessageId
  | NoOp

type_synonym NodeDuties = "NodeDuty list"

text \<open>\<^verbatim>\<open>impl From<NodeDuty> for NodeDuties\<close>.\<close>

definition node_duties_from :: "NodeDuty \<Rightarrow> NodeDuties" where
  "node_duties_from duty = (case duty of NoOp \<Rightarrow> [] | d \<Rightarrow> [d])"

lemma NoOp_notin_node_duties_from: "NoOp \<notin> set (node_duties_from d)"
  by (cases d) (simp_all add: node_duties_from_def)

text \<open>
  \<^verbatim>\<open>impl Debug for NodeDuty\<close>, what the log shows of a duty; the texts of the parts of messages are parameters.
\<close>

definition debug_duty :: "(OutgoingMsg \<Rightarrow> string) \<Rightarrow> (XorName btree_set \<Rightarrow> string) \<Rightarrow> (Message \<Rightarrow> string) \<Rightarrow> NodeDuty \<Rightarrow> string" where
  "debug_duty show_outgoing show_targets show_msg duty = (case duty of
     AddPayment _ \<Rightarrow> ''AddPayment''
   | GetNodeWalletKey _ _ _ \<Rightarrow> ''GetNodeWalletKey''
   | PropagateTransfer _ _ _ \<Rightarrow> ''PropagateTransfer''
   | SetNodeWallet _ _ _ _ \<Rightarrow> ''SetNodeWallet''
   | GetTransferReplicaEvents _ _ \<Rightarrow> ''GetTransferReplicaEvents''
   | ValidateClientTransfer _ _ _ \<Rightarrow> ''ValidateClientTransfer''
   | RegisterTransfer _ _ \<Rightarrow> ''RegisterTransfer''
   | SimulatePayout _ _ _ \<Rightarrow> ''SimulatePayout''
   | ReadChunk _ _ _ \<Rightarrow> ''ReadChunk''
   | WriteChunk _ _ _ \<Rightarrow> ''WriteChunk''
   | GetSectionElders _ _ \<Rightarrow> ''GetSectionElders''
   | GetTransfersHistory _ _ _ _ \<Rightarrow> ''GetTransfersHistory''
   | GetBalance _ _ _ \<Rightarrow> ''GetBalance''
   | GetStoreCost _ _ _ _ \<Rightarrow> ''GetStoreCost''
   | ReceiveRewardProposal _ \<Rightarrow> ''ReceiveRewardProposal''
   | ReceiveRewardAccumulation _ \<Rightarrow> ''ReceiveRewardAccumulation''
   | Genesis \<Rightarrow> ''Genesis''
   | EldersChanged _ _ _ \<Rightarrow> ''EldersChanged''
   | SectionSplit _ _ _ _ \<Rightarrow> ''SectionSplit''
   | LevelDown \<Rightarrow> ''LevelDown''
   | SynchState _ _ \<Rightarrow> ''SynchState''
   | ProcessLostMember _ _ \<Rightarrow> ''ProcessLostMember''
   | ReachingMaxCapacity \<Rightarrow> ''ReachingMaxCapacity''
   | IncrementFullNodeCount _ \<Rightarrow> ''IncrementFullNodeCount''
   | SetNodeJoinsAllowed _ \<Rightarrow> ''SetNodeJoinsAllowed''
   | ProcessRead _ _ _ \<Rightarrow> ''ProcessRead''
   | ProcessWrite _ _ _ \<Rightarrow> ''ProcessWrite''
   | ProcessDataPayment _ _ \<Rightarrow> ''ProcessDataPayment''
   | ReplicateChunk _ _ _ \<Rightarrow> ''ReplicateChunk''
   | GetChunkForReplication _ _ _ \<Rightarrow> ''GetChunkForReplication''
   | StoreChunkForReplication _ _ \<Rightarrow> ''StoreChunkForReplication''
   | Send m \<Rightarrow> ''Send [ msg: '' @ show_outgoing m @ '' ]''
   | SendToNodes targets m \<Rightarrow> ''SendToNodes [ targets: '' @ show_targets targets @ '', msg: '' @ show_msg m @ '' ]''
   | NoOp \<Rightarrow> ''No op.'')"

text \<open>The data of a client and who sent it do not get into the log with the duties about them.\<close>

lemma debug_duty_payload:
  "debug_duty f g h (WriteChunk wr i u) = debug_duty f' g' h' (WriteChunk wr' i' u')"
  "debug_duty f g h (ProcessWrite cmd i u) = debug_duty f' g' h' (ProcessWrite cmd' i' u')"
  "debug_duty f g h (ProcessDataPayment m u) = debug_duty f' g' h' (ProcessDataPayment m' u')"
  by (simp_all add: debug_duty_def)

text \<open>
  The reply to a failed command: an error message in response to the message of the given id,
  sent as a single node.
\<close>

definition cmd_error_to :: "externals \<Rightarrow> CmdErrorMsg \<Rightarrow> MessageId \<Rightarrow> DstLocation \<Rightarrow> NodeDuty" where
  "cmd_error_to E error msg_id d = Send \<lparr>
     msg = CmdErrorM error (in_response_to E msg_id) msg_id None,
     dst = d, section_source = False, aggregation = AggregationNone\<rparr>"

text \<open>The reply to a query.\<close>

definition query_response_to :: "externals \<Rightarrow> QueryResponse \<Rightarrow> MessageId \<Rightarrow> DstLocation \<Rightarrow> NodeDuty" where
  "query_response_to E response msg_id d = Send \<lparr>
     msg = QueryResponseM response (in_response_to E msg_id) msg_id None,
     dst = d, section_source = False, aggregation = AggregationNone\<rparr>"

lemma cmd_error_to_neq [simp]:
  "cmd_error_to E e i d \<noteq> NoOp" "cmd_error_to E e i d \<noteq> SendToNodes ts m"
  "NoOp \<noteq> cmd_error_to E e i d" "SendToNodes ts m \<noteq> cmd_error_to E e i d"
  by (simp_all add: cmd_error_to_def)

lemma query_response_to_neq [simp]:
  "query_response_to E r i d \<noteq> NoOp" "query_response_to E r i d \<noteq> SendToNodes ts m"
  "NoOp \<noteq> query_response_to E r i d" "SendToNodes ts m \<noteq> query_response_to E r i d"
  by (simp_all add: query_response_to_def)

text \<open>One instance of the external functions, for concrete runs.\<close>

definition example_ext :: externals where
  "example_ext = \<lparr>in_response_to = (\<lambda>i. i + 1), combine = sum_list,
     from_content = (\<lambda>s. case s of SigBls n \<Rightarrow> Inr (of_nat n) | _ \<Rightarrow> Inl Bincode),
     xor_name_of_key = (\<lambda>k. case k of Ed25519 n \<Rightarrow> of_nat n | Bls n \<Rightarrow> of_nat n | BlsShare n \<Rightarrow> of_nat n),
     end_user_name = (\<lambda>u. case u of AllClients k \<Rightarrow> 0 | Client k n \<Rightarrow> n),
     src_to_dst = (\<lambda>s. case s of SrcNode n \<Rightarrow> DstNode n | SrcSection n \<Rightarrow> DstSection n | SrcEndUser u \<Rightarrow> DstEndUser u),
     src_name = (\<lambda>s. case s of SrcNode n \<Rightarrow> n | SrcSection n \<Rightarrow> n | SrcEndUser u \<Rightarrow> 0),
     dst_name = (\<lambda>d. case d of DstNode n \<Rightarrow> Some n | DstSection n \<Rightarrow> Some n | _ \<Rightarrow> None),
     dst_contains = (\<lambda>d n p. True), blob_read_dst_address = (\<lambda>r. 0),
     data_query_dst_address = (\<lambda>q. 0), data_cmd_dst_address = (\<lambda>c. 0),
     prefix_matches = (\<lambda>p n. True), prefix_sibling = (\<lambda>p. p),
     texts = \<lparr>to_string = (\<lambda>e. []), dt_to_string = (\<lambda>e. [])\<rparr>\<rparr>"

end
