(* ===== verification/Reward_Stage.thy ===== *)
theory Reward_Stage
  imports Node_Ops
begin

text \<open>
  The stages of a reward payout and the collection of signature shares in each of them
  (\<^verbatim>\<open>src/src/section_funds/reward_stage.rs\<close>). Threshold signatures (the threshold of a key set and
  the combination of shares) are a parameter. The collection of shares for proposed
  credits and for accumulating credits is the same interface, proved once.
\<close>

type_synonym shares = "(nat, nat) btree_map"

record CreditProposal =
  cp_proposal :: Credit
  cp_signatures :: shares
  cp_pending_agreement :: "SignedCredit option"

record RewardProposalDetails =
  rpd_pk_set :: PublicKeySet
  rpd_rewards :: "(CreditId, CreditProposal) btree_map"

record CreditAccumulation =
  ca_agreed_proposal :: SignedCredit
  ca_signatures :: shares
  ca_pending_agreement :: "CreditAgreementProof option"

record RewardAccumulationDetails =
  rad_pk_set :: PublicKeySet
  rad_rewards :: "(CreditId, CreditAccumulation) btree_map"

datatype (plugins only: code size) RewardStage =
    StageNone
  | AwaitingThreshold
  | ProposingCredits RewardProposalDetails
  | AccumulatingCredits RewardAccumulationDetails
  | Completed "(CreditId, CreditAgreementProof) btree_map"

definition cp_id :: "CreditProposal \<Rightarrow> CreditId" where
  "cp_id c = credit_id (cp_proposal c)"

definition cp_amount :: "CreditProposal \<Rightarrow> Token" where
  "cp_amount c = credit_amount (cp_proposal c)"

definition ca_id :: "CreditAccumulation \<Rightarrow> CreditId" where
  "ca_id c = sc_id (ca_agreed_proposal c)"

definition check :: "SignatureShare \<Rightarrow> shares \<Rightarrow> bool option" where
  "check sig signatures = (case btm_get signatures (share_index sig) of
     Some sh \<Rightarrow> if sh = share sig then Some True else Some False
   | None \<Rightarrow> None)"

section \<open>Proposed credits\<close>

definition rpd_pending_agreements :: "RewardProposalDetails \<Rightarrow> (CreditId, SignedCredit) btree_map option" where
  "rpd_pending_agreements d =
     (let rewards = fold (\<lambda>credit. btm_insert (sc_id credit) credit)
            (List.map_filter cp_pending_agreement (map snd (rpd_rewards d))) []
      in if length rewards = length (rpd_rewards d) then Some rewards else None)"

definition get_proposal :: "RewardProposalDetails \<Rightarrow> PublicKey \<Rightarrow> nat \<Rightarrow> RewardProposal" where
  "get_proposal d section_key index = \<lparr>rp_section_key = section_key,
     rp_rewards = List.map_filter (\<lambda>(cid, credit).
       (case btm_get (cp_signatures credit) index of
         None \<Rightarrow> None
       | Some sh \<Rightarrow> Some \<lparr>scs_credit = cp_proposal credit,
           scs_actor_signature = \<lparr>share = sh, share_index = index\<rparr>\<rparr>)) (rpd_rewards d)\<rparr>"

definition rpd_add_sig :: "bls_api \<Rightarrow> CreditId \<Rightarrow> SignatureShare \<Rightarrow> RewardProposalDetails \<Rightarrow>
    unit result \<times> RewardProposalDetails" where
  "rpd_add_sig B cid sig d = (case btm_get (rpd_rewards d) cid of
     None \<Rightarrow> (Inl (Logic ''logic error..''), d)
   | Some credit \<Rightarrow>
       if check sig (cp_signatures credit) = Some True then (Inr (), d)
       else let signatures = btm_insert (share_index sig) (share sig) (cp_signatures credit);
                credit1 = credit\<lparr>cp_signatures := signatures\<rparr>;
                min_count = 1 + threshold B (rpd_pk_set d)
         in if length signatures \<ge> min_count then
              (case combine_signatures B (rpd_pk_set d) signatures of
                None \<Rightarrow> (Inl CouldNotCombineSignatures, d\<lparr>rpd_rewards := btm_insert cid credit1 (rpd_rewards d)\<rparr>)
              | Some s \<Rightarrow> (Inr (), d\<lparr>rpd_rewards := btm_insert cid
                  (credit1\<lparr>cp_pending_agreement := Some \<lparr>sc_credit = cp_proposal credit,
                     sc_actor_signature = SigBls s\<rparr>\<rparr>) (rpd_rewards d)\<rparr>))
            else (Inr (), d\<lparr>rpd_rewards := btm_insert cid credit1 (rpd_rewards d)\<rparr>))"

section \<open>Accumulating credits\<close>

definition rad_pending_agreements ::
    "RewardAccumulationDetails \<Rightarrow> (CreditId, CreditAgreementProof) btree_map option" where
  "rad_pending_agreements d =
     (let rewards = fold (\<lambda>credit. btm_insert (cap_id credit) credit)
            (List.map_filter ca_pending_agreement (map snd (rad_rewards d))) []
      in if length rewards = length (rad_rewards d) then Some rewards else None)"

definition get_accumulation :: "RewardAccumulationDetails \<Rightarrow> PublicKey \<Rightarrow> nat \<Rightarrow> RewardAccumulation" where
  "get_accumulation d section_key index = \<lparr>ra_section_key = section_key,
     ra_rewards = List.map_filter (\<lambda>(cid, credit).
       (case btm_get (ca_signatures credit) index of
         None \<Rightarrow> None
       | Some sh \<Rightarrow> Some \<lparr>ar_signed_credit = ca_agreed_proposal credit,
           ar_sig = \<lparr>share = sh, share_index = index\<rparr>\<rparr>)) (rad_rewards d)\<rparr>"

definition rad_add_sig :: "bls_api \<Rightarrow> CreditId \<Rightarrow> SignatureShare \<Rightarrow> RewardAccumulationDetails \<Rightarrow>
    unit result \<times> RewardAccumulationDetails" where
  "rad_add_sig B cid sig d = (case btm_get (rad_rewards d) cid of
     None \<Rightarrow> (Inl (Logic ''''), d)
   | Some credit \<Rightarrow>
       if check sig (ca_signatures credit) = Some True then (Inr (), d)
       else let signatures = btm_insert (share_index sig) (share sig) (ca_signatures credit);
                credit1 = credit\<lparr>ca_signatures := signatures\<rparr>;
                min_count = 1 + threshold B (rad_pk_set d)
         in if length signatures \<ge> min_count then
              (case combine_signatures B (rad_pk_set d) signatures of
                None \<Rightarrow> (Inl CouldNotCombineSignatures, d\<lparr>rad_rewards := btm_insert cid credit1 (rad_rewards d)\<rparr>)
              | Some s \<Rightarrow> (Inr (), d\<lparr>rad_rewards := btm_insert cid
                  (credit1\<lparr>ca_pending_agreement := Some \<lparr>cap_signed_credit = ca_agreed_proposal credit,
                     cap_debiting_replicas_sig = SigBls s, cap_debiting_replicas_keys = rad_pk_set d\<rparr>\<rparr>)
                  (rad_rewards d)\<rparr>))
            else (Inr (), d\<lparr>rad_rewards := btm_insert cid credit1 (rad_rewards d)\<rparr>))"

section \<open>Collecting shares\<close>

text \<open>
  A collection is exact if every entry's agreement is the combination of the shares collected for
  it, and there is one as soon as more shares than the threshold have been collected.
\<close>

definition entry_exact :: "nat \<Rightarrow> (shares \<Rightarrow> nat option) \<Rightarrow> shares \<Rightarrow> nat option \<Rightarrow> bool" where
  "entry_exact q comb m a \<longleftrightarrow> btm_wf m \<and>
     (if q < length m then a \<noteq> None \<and> a = comb m else a = None)"

definition shares_exact ::
    "nat \<Rightarrow> (shares \<Rightarrow> nat option) \<Rightarrow> ('i \<Rightarrow> shares option) \<Rightarrow> ('i \<Rightarrow> nat option) \<Rightarrow> bool" where
  "shares_exact q comb sigs agreed \<longleftrightarrow> (\<forall>i m. sigs i = Some m \<longrightarrow> entry_exact q comb m (agreed i))"

text \<open>An entry holds a share; a list of shares has at most one share per entry and index.\<close>

definition holds_share :: "('i \<Rightarrow> shares option) \<Rightarrow> 'i \<times> SignatureShare \<Rightarrow> bool" where
  "holds_share sigs p \<longleftrightarrow> (\<exists>m. sigs (fst p) = Some m \<and> btm_get m (share_index (snd p)) = Some (share (snd p)))"

definition no_conflict :: "('i \<times> SignatureShare) list \<Rightarrow> bool" where
  "no_conflict ps \<longleftrightarrow> (\<forall>p \<in> set ps. \<forall>q \<in> set ps.
     fst p = fst q \<longrightarrow> share_index (snd p) = share_index (snd q) \<longrightarrow> share (snd p) = share (snd q))"

lemma no_conflictD:
  "no_conflict ps \<Longrightarrow> p \<in> set ps \<Longrightarrow> q \<in> set ps \<Longrightarrow> fst p = fst q \<Longrightarrow>
    share_index (snd p) = share_index (snd q) \<Longrightarrow> share (snd p) = share (snd q)"
  unfolding no_conflict_def by blast

lemma no_conflict_Cons: "no_conflict (p # ps) \<Longrightarrow> no_conflict ps"
  unfolding no_conflict_def by (meson list.set_intros(2))

locale share_collector =
  fixes add :: "'i \<Rightarrow> SignatureShare \<Rightarrow> 'd \<Rightarrow> unit result \<times> 'd"
    and sigs :: "'d \<Rightarrow> 'i \<Rightarrow> shares option"
    and agreed :: "'d \<Rightarrow> 'i \<Rightarrow> nat option"
    and quorum :: "'d \<Rightarrow> nat"
    and comb :: "'d \<Rightarrow> shares \<Rightarrow> nat option"
  assumes add_unknown: "sigs d i = None \<Longrightarrow> \<exists>e. add i s d = (Inl e, d)"
    and add_known: "sigs d i = Some m \<Longrightarrow> btm_get m (share_index s) = Some (share s) \<Longrightarrow> add i s d = (Inr (), d)"
    and add_effect: "sigs d i = Some m \<Longrightarrow> btm_get m (share_index s) \<noteq> Some (share s) \<Longrightarrow>
      add i s d = (Inr (), d') \<Longrightarrow> quorum d' = quorum d \<and> comb d' = comb d \<and>
      sigs d' = (sigs d)(i \<mapsto> btm_insert (share_index s) (share s) m) \<and>
      (if quorum d < length (btm_insert (share_index s) (share s) m)
       then comb d (btm_insert (share_index s) (share s) m) \<noteq> None \<and>
         agreed d' = (agreed d)(i := comb d (btm_insert (share_index s) (share s) m))
       else agreed d' = agreed d)"
    and add_succeeds: "sigs d i = Some m \<Longrightarrow>
      (quorum d < length (btm_insert (share_index s) (share s) m) \<Longrightarrow>
        comb d (btm_insert (share_index s) (share s) m) \<noteq> None) \<Longrightarrow> \<exists>d'. add i s d = (Inr (), d')"
begin

lemma add_okE:
  assumes "add i s d = (Inr (), d')"
  obtains (same) m where "sigs d i = Some m" "btm_get m (share_index s) = Some (share s)" "d' = d"
  | (new) m where "sigs d i = Some m" "btm_get m (share_index s) \<noteq> Some (share s)"
    "quorum d' = quorum d" "comb d' = comb d"
    "sigs d' = (sigs d)(i \<mapsto> btm_insert (share_index s) (share s) m)"
proof (cases "sigs d i")
  case None
  with add_unknown [of d i s] assms show ?thesis by auto
next
  case m: (Some m)
  show ?thesis
  proof (cases "btm_get m (share_index s) = Some (share s)")
    case True
    with add_known [OF m True] assms m show ?thesis by (intro same) auto
  next
    case False
    with add_effect [OF m False assms] m show ?thesis by (intro new) auto
  qed
qed

lemma add_frame:
  assumes "add i s d = (Inr (), d')"
  shows "quorum d' = quorum d \<and> comb d' = comb d \<and> dom (sigs d') = dom (sigs d)"
  using assms by (cases rule: add_okE) (auto simp: insert_absorb domI)

lemma exact_add:
  assumes "add i s d = (Inr (), d')" and "shares_exact (quorum d) (comb d) (sigs d) (agreed d)"
  shows "shares_exact (quorum d') (comb d') (sigs d') (agreed d')"
proof -
  obtain m where m: "sigs d i = Some m" using assms(1) by (rule add_okE)
  show ?thesis
  proof (cases "btm_get m (share_index s) = Some (share s)")
    case True
    with add_known [OF m, of s] assms show ?thesis by simp
  next
    case False
    let ?m = "btm_insert (share_index s) (share s) m"
    have ex: "entry_exact (quorum d) (comb d) m (agreed d i)"
      using assms(2) m by (simp add: shares_exact_def)
    have "length m \<le> length ?m" using ex by (simp add: entry_exact_def length_btm_insert)
    with ex add_effect [OF m False assms(1)]
    have "entry_exact (quorum d) (comb d) ?m (agreed d' i)"
      by (auto simp: entry_exact_def split: if_splits)
    moreover have "agreed d' j = agreed d j" if "j \<noteq> i" for j
      using add_effect [OF m False assms(1)] that by (simp split: if_splits)
    ultimately show ?thesis
      using add_effect [OF m False assms(1)] assms(2) by (auto simp: shares_exact_def)
  qed
qed

lemma exact_adds:
  assumes "try_fold (\<lambda>p. add (fst p) (snd p)) ps d = (Inr (), d')"
    and "shares_exact (quorum d) (comb d) (sigs d) (agreed d)"
  shows "shares_exact (quorum d') (comb d') (sigs d') (agreed d')"
  using assms by (rule try_fold_invariant) (rule exact_add)

lemma adds_frame:
  assumes "try_fold (\<lambda>p. add (fst p) (snd p)) ps d = (Inr (), d')"
  shows "quorum d' = quorum d \<and> comb d' = comb d \<and> dom (sigs d') = dom (sigs d)"
proof (rule try_fold_invariant [OF assms, of "\<lambda>x. quorum x = quorum d \<and> comb x = comb d \<and> dom (sigs x) = dom (sigs d)"])
  fix p x x'
  assume "quorum x = quorum d \<and> comb x = comb d \<and> dom (sigs x) = dom (sigs d)"
    and "add (fst p) (snd p) x = (Inr (), x')"
  then show "quorum x' = quorum d \<and> comb x' = comb d \<and> dom (sigs x') = dom (sigs d)"
    using add_frame [of "fst p" "snd p" x x'] by simp
qed simp

lemma add_holds: "add i s d = (Inr (), d') \<Longrightarrow> holds_share (sigs d') (i, s)"
  by (erule add_okE) (simp_all add: holds_share_def)

lemma add_keeps:
  assumes "add i s d = (Inr (), d')" and "holds_share (sigs d) (j, t)"
    and "j = i \<Longrightarrow> share_index t = share_index s \<Longrightarrow> share t = share s"
  shows "holds_share (sigs d') (j, t)"
  using assms(1)
proof (cases rule: add_okE)
  case (new m)
  with assms(2,3) show ?thesis by (cases "j = i") (auto simp: holds_share_def)
qed (use assms(2) in simp)

lemma adds_keep:
  assumes "try_fold (\<lambda>p. add (fst p) (snd p)) ps d = (Inr (), d')" and "no_conflict ((j, t) # ps)"
    and "holds_share (sigs d) (j, t)"
  shows "holds_share (sigs d') (j, t)"
proof (rule try_fold_invariant [OF assms(1), of "\<lambda>x. holds_share (sigs x) (j, t)"])
  show "holds_share (sigs d) (j, t)" by (rule assms(3))
  fix p x x'
  assume p: "p \<in> set ps" and x: "holds_share (sigs x) (j, t)" "add (fst p) (snd p) x = (Inr (), x')"
  have "fst p = j \<Longrightarrow> share_index t = share_index (snd p) \<Longrightarrow> share t = share (snd p)"
    using no_conflictD [OF assms(2), of "(j, t)" p] p by simp
  then show "holds_share (sigs x') (j, t)" by (intro add_keeps [OF x(2,1)]) auto
qed

lemma adds_hold:
  assumes "try_fold (\<lambda>p. add (fst p) (snd p)) ps d = (Inr (), d')" and "no_conflict ps"
  shows "\<forall>p \<in> set ps. holds_share (sigs d') p"
  using assms
proof (induction ps arbitrary: d)
  case (Cons p ps)
  from Cons.prems(1) obtain d1 where d1: "add (fst p) (snd p) d = (Inr (), d1)"
      "try_fold (\<lambda>p. add (fst p) (snd p)) ps d1 = (Inr (), d')"
    by (rule try_fold_Cons_OkD)
  have "holds_share (sigs d') (fst p, snd p)"
    using adds_keep [OF d1(2), of "fst p" "snd p"] add_holds [OF d1(1)] Cons.prems(2) by simp
  with Cons.IH [OF d1(2)] no_conflict_Cons [OF Cons.prems(2)] show ?case by simp
qed simp

lemma adds_held:
  "\<forall>p \<in> set ps. holds_share (sigs d) p \<Longrightarrow> try_fold (\<lambda>p. add (fst p) (snd p)) ps d = (Inr (), d)"
proof (induction ps)
  case (Cons p ps)
  then have "add (fst p) (snd p) d = (Inr (), d)"
    by (auto simp: holds_share_def intro: add_known)
  with Cons show ?case by simp
qed simp

text \<open>The indices of which an entry has a share: those it had and those that were added.\<close>

lemma add_indices:
  assumes "add i s d = (Inr (), d')" and "sigs d j = Some m"
  shows "\<exists>m'. sigs d' j = Some m' \<and>
    fst ` set m' = fst ` set m \<union> (if j = i then {share_index s} else {})"
  using assms(1)
proof (cases rule: add_okE)
  case (same m0)
  then have "j = i \<Longrightarrow> share_index s \<in> fst ` set m" using assms(2) by (metis btm_get_keys option.distinct(1) option.inject)
  with same assms(2) show ?thesis by auto
next
  case (new m0)
  with assms(2) show ?thesis by (auto simp: keys_btm_insert)
qed

lemma adds_indices:
  assumes "try_fold (\<lambda>p. add (fst p) (snd p)) ps d = (Inr (), d')" and "sigs d j = Some m"
  shows "\<exists>m'. sigs d' j = Some m' \<and>
    fst ` set m' = fst ` set m \<union> (\<lambda>p. share_index (snd p)) ` {p \<in> set ps. fst p = j}"
  using assms
proof (induction ps arbitrary: d m)
  case (Cons p ps)
  from Cons.prems(1) obtain d1 where d1: "add (fst p) (snd p) d = (Inr (), d1)"
      "try_fold (\<lambda>p. add (fst p) (snd p)) ps d1 = (Inr (), d')"
    by (rule try_fold_Cons_OkD)
  obtain m1 where m1: "sigs d1 j = Some m1"
      "fst ` set m1 = fst ` set m \<union> (if j = fst p then {share_index (snd p)} else {})"
    using add_indices [OF d1(1) Cons.prems(2)] by blast
  obtain m' where m': "sigs d' j = Some m'"
      "fst ` set m' = fst ` set m1 \<union> (\<lambda>p. share_index (snd p)) ` {p \<in> set ps. fst p = j}"
    using Cons.IH [OF d1(2) m1(1)] by blast
  have "fst ` set m' = fst ` set m \<union> (\<lambda>p. share_index (snd p)) ` {q \<in> set (p # ps). fst q = j}"
    unfolding m' m1 by force
  with m'(1) show ?case by blast
qed simp

text \<open>Receiving the same shares again changes nothing.\<close>

lemma adds_idempotent:
  assumes "try_fold (\<lambda>p. add (fst p) (snd p)) ps d = (Inr (), d')" and "no_conflict ps"
  shows "try_fold (\<lambda>p. add (fst p) (snd p)) ps d' = (Inr (), d')"
  using adds_hold [OF assms] by (rule adds_held)

text \<open>Shares of known entries are all accepted, if enough shares can always be combined.\<close>

lemma adds_succeed:
  assumes "\<forall>p \<in> set ps. sigs d (fst p) \<noteq> None" and "\<And>m. quorum d < length m \<Longrightarrow> comb d m \<noteq> None"
  shows "\<exists>d'. try_fold (\<lambda>p. add (fst p) (snd p)) ps d = (Inr (), d')"
proof -
  have "\<exists>d'. try_fold (\<lambda>p. add (fst p) (snd p)) ps d = (Inr (), d') \<and>
      (quorum d' = quorum d \<and> comb d' = comb d \<and> dom (sigs d') = dom (sigs d))"
  proof (rule try_fold_total [of "\<lambda>x. quorum x = quorum d \<and> comb x = comb d \<and> dom (sigs x) = dom (sigs d)"])
    fix p x
    assume p: "p \<in> set ps" and x: "quorum x = quorum d \<and> comb x = comb d \<and> dom (sigs x) = dom (sigs d)"
    then obtain m where m: "sigs x (fst p) = Some m" using assms(1) by auto
    with add_succeeds [OF m, of "snd p"] x assms(2) obtain x' where "add (fst p) (snd p) x = (Inr (), x')" by auto
    with x add_frame [OF this]
    show "\<exists>x'. add (fst p) (snd p) x = (Inr (), x') \<and>
        (quorum x' = quorum d \<and> comb x' = comb d \<and> dom (sigs x') = dom (sigs d))"
      by simp
  qed simp
  then show ?thesis by blast
qed

end

text \<open>The two collections of the code as instances.\<close>

fun bls_signature :: "Signature \<Rightarrow> nat option" where
  "bls_signature (SigBls s) = Some s"
| "bls_signature _ = None"

definition rpd_sigs :: "RewardProposalDetails \<Rightarrow> CreditId \<Rightarrow> shares option" where
  "rpd_sigs d i = map_option cp_signatures (btm_get (rpd_rewards d) i)"

definition rpd_agreed :: "RewardProposalDetails \<Rightarrow> CreditId \<Rightarrow> nat option" where
  "rpd_agreed d i = (case btm_get (rpd_rewards d) i of None \<Rightarrow> None
     | Some c \<Rightarrow> Option.bind (cp_pending_agreement c) (\<lambda>sc. bls_signature (sc_actor_signature sc)))"

definition rad_sigs :: "RewardAccumulationDetails \<Rightarrow> CreditId \<Rightarrow> shares option" where
  "rad_sigs d i = map_option ca_signatures (btm_get (rad_rewards d) i)"

definition rad_agreed :: "RewardAccumulationDetails \<Rightarrow> CreditId \<Rightarrow> nat option" where
  "rad_agreed d i = (case btm_get (rad_rewards d) i of None \<Rightarrow> None
     | Some c \<Rightarrow> Option.bind (ca_pending_agreement c) (\<lambda>p. bls_signature (cap_debiting_replicas_sig p)))"

lemma check_True_iff: "check s m = Some True \<longleftrightarrow> btm_get m (share_index s) = Some (share s)"
  by (auto simp: check_def split: option.splits)

interpretation proposing: share_collector "rpd_add_sig B" rpd_sigs rpd_agreed
  "\<lambda>d. threshold B (rpd_pk_set d)" "\<lambda>d. combine_signatures B (rpd_pk_set d)"
  for B
proof (unfold_locales, goal_cases)
  case (1 d i s)
  then show ?case by (simp add: rpd_add_sig_def rpd_sigs_def)
next
  case (2 d i m s)
  then show ?case by (auto simp: rpd_add_sig_def rpd_sigs_def check_True_iff)
next
  case (3 d i m s d')
  then show ?case
    by (auto simp: rpd_add_sig_def rpd_sigs_def rpd_agreed_def check_True_iff Let_def fun_eq_iff
        split: if_splits option.splits)
next
  case (4 d i m s)
  then show ?case by (fastforce simp: rpd_add_sig_def rpd_sigs_def Let_def split: option.splits)
qed

interpretation accumulating: share_collector "rad_add_sig B" rad_sigs rad_agreed
  "\<lambda>d. threshold B (rad_pk_set d)" "\<lambda>d. combine_signatures B (rad_pk_set d)"
  for B
proof (unfold_locales, goal_cases)
  case (1 d i s)
  then show ?case by (simp add: rad_add_sig_def rad_sigs_def)
next
  case (2 d i m s)
  then show ?case by (auto simp: rad_add_sig_def rad_sigs_def check_True_iff)
next
  case (3 d i m s d')
  then show ?case
    by (auto simp: rad_add_sig_def rad_sigs_def rad_agreed_def check_True_iff Let_def fun_eq_iff
        split: if_splits option.splits)
next
  case (4 d i m s)
  then show ?case by (fastforce simp: rad_add_sig_def rad_sigs_def Let_def split: option.splits)
qed

section \<open>Agreements\<close>

text \<open>
  What an entry stores besides its shares: entries are filed under the id of their credit, and an
  agreement is about the entry's own credit.
\<close>

definition cp_wf :: "CreditId \<times> CreditProposal \<Rightarrow> bool" where
  "cp_wf e \<longleftrightarrow> cp_id (snd e) = fst e \<and> (\<forall>sc. cp_pending_agreement (snd e) = Some sc \<longrightarrow>
     sc_credit sc = cp_proposal (snd e) \<and> bls_signature (sc_actor_signature sc) \<noteq> None)"

definition rpd_wf :: "RewardProposalDetails \<Rightarrow> bool" where
  "rpd_wf d \<longleftrightarrow> btm_wf (rpd_rewards d) \<and> (\<forall>e \<in> set (rpd_rewards d). cp_wf e)"

definition ca_wf :: "PublicKeySet \<Rightarrow> CreditId \<times> CreditAccumulation \<Rightarrow> bool" where
  "ca_wf ks e \<longleftrightarrow> ca_id (snd e) = fst e \<and> (\<forall>p. ca_pending_agreement (snd e) = Some p \<longrightarrow>
     cap_signed_credit p = ca_agreed_proposal (snd e) \<and> cap_debiting_replicas_keys p = ks \<and>
     bls_signature (cap_debiting_replicas_sig p) \<noteq> None)"

definition rad_wf :: "RewardAccumulationDetails \<Rightarrow> bool" where
  "rad_wf d \<longleftrightarrow> btm_wf (rad_rewards d) \<and> (\<forall>e \<in> set (rad_rewards d). ca_wf (rad_pk_set d) e)"

lemma rpd_insert_wf:
  "rpd_wf d \<Longrightarrow> cp_wf (i, c) \<Longrightarrow> rpd_wf (d\<lparr>rpd_rewards := btm_insert i c (rpd_rewards d)\<rparr>)"
  by (auto simp: rpd_wf_def btm_insert_set)

lemma rpd_add_sig_cases:
  assumes "rpd_add_sig B i s d = (Inr (), d')"
  obtains "d' = d" | c m where "btm_get (rpd_rewards d) i = Some c"
      "d' = d\<lparr>rpd_rewards := btm_insert i (c\<lparr>cp_signatures := m\<rparr>) (rpd_rewards d)\<rparr>"
    | c m x where "btm_get (rpd_rewards d) i = Some c"
      "d' = d\<lparr>rpd_rewards := btm_insert i
        (c\<lparr>cp_signatures := m, cp_pending_agreement := Some (\<lparr>sc_credit = cp_proposal c, sc_actor_signature = SigBls x\<rparr>)\<rparr>) (rpd_rewards d)\<rparr>"
  using assms by (auto simp: rpd_add_sig_def Let_def split: option.splits if_splits)

lemma rpd_add_sig_wf:
  assumes "rpd_add_sig B i s d = (Inr (), d')" and "rpd_wf d"
  shows "rpd_wf d' \<and> rpd_pk_set d' = rpd_pk_set d"
proof -
  have c: "cp_wf (i, c)" if "btm_get (rpd_rewards d) i = Some c" for c
    using assms(2) map_of_SomeD [OF that] unfolding rpd_wf_def by blast
  from assms(1) show ?thesis
  proof (cases rule: rpd_add_sig_cases)
    case 1
    with assms(2) show ?thesis by simp
  next
    case (2 c m)
    have "cp_wf (i, c\<lparr>cp_signatures := m\<rparr>)"
      using c [OF 2(1)] by (simp add: cp_wf_def cp_id_def)
    from rpd_insert_wf [OF assms(2) this] 2(2) show ?thesis by simp
  next
    case (3 c m x)
    have "cp_wf (i, c\<lparr>cp_signatures := m, cp_pending_agreement := Some (\<lparr>sc_credit = cp_proposal c, sc_actor_signature = SigBls x\<rparr>)\<rparr>)"
      using c [OF 3(1)] by (simp add: cp_wf_def cp_id_def)
    from rpd_insert_wf [OF assms(2) this] 3(2) show ?thesis by simp
  qed
qed

lemma rad_insert_wf:
  "rad_wf d \<Longrightarrow> ca_wf (rad_pk_set d) (i, c) \<Longrightarrow> rad_wf (d\<lparr>rad_rewards := btm_insert i c (rad_rewards d)\<rparr>)"
  by (auto simp: rad_wf_def btm_insert_set)

lemma rad_add_sig_cases:
  assumes "rad_add_sig B i s d = (Inr (), d')"
  obtains "d' = d" | c m where "btm_get (rad_rewards d) i = Some c"
      "d' = d\<lparr>rad_rewards := btm_insert i (c\<lparr>ca_signatures := m\<rparr>) (rad_rewards d)\<rparr>"
    | c m x where "btm_get (rad_rewards d) i = Some c"
      "d' = d\<lparr>rad_rewards := btm_insert i
        (c\<lparr>ca_signatures := m, ca_pending_agreement := Some (\<lparr>cap_signed_credit = ca_agreed_proposal c, cap_debiting_replicas_sig = SigBls x, cap_debiting_replicas_keys = rad_pk_set d\<rparr>)\<rparr>) (rad_rewards d)\<rparr>"
  using assms by (auto simp: rad_add_sig_def Let_def split: option.splits if_splits)

lemma rad_add_sig_wf:
  assumes "rad_add_sig B i s d = (Inr (), d')" and "rad_wf d"
  shows "rad_wf d' \<and> rad_pk_set d' = rad_pk_set d"
proof -
  have c: "ca_wf (rad_pk_set d) (i, c)" if "btm_get (rad_rewards d) i = Some c" for c
    using assms(2) map_of_SomeD [OF that] unfolding rad_wf_def by blast
  from assms(1) show ?thesis
  proof (cases rule: rad_add_sig_cases)
    case 1
    with assms(2) show ?thesis by simp
  next
    case (2 c m)
    have "ca_wf (rad_pk_set d) (i, c\<lparr>ca_signatures := m\<rparr>)"
      using c [OF 2(1)] by (simp add: ca_wf_def ca_id_def)
    from rad_insert_wf [OF assms(2) this] 2(2) show ?thesis by simp
  next
    case (3 c m x)
    have "ca_wf (rad_pk_set d) (i, c\<lparr>ca_signatures := m, ca_pending_agreement := Some (\<lparr>cap_signed_credit = ca_agreed_proposal c, cap_debiting_replicas_sig = SigBls x, cap_debiting_replicas_keys = rad_pk_set d\<rparr>)\<rparr>)"
      using c [OF 3(1)] by (simp add: ca_wf_def ca_id_def)
    from rad_insert_wf [OF assms(2) this] 3(2) show ?thesis by simp
  qed
qed

text \<open>Collecting the agreements into a map: complete exactly if every entry has one.\<close>

lemma fold_insert_collect:
  assumes "distinct (map f xs)"
  shows "length (fold (\<lambda>x. btm_insert (f x) x) xs []) = length xs"
    and "set (fold (\<lambda>x. btm_insert (f x) x) xs []) = (\<lambda>x. (f x, x)) ` set xs"
    and "btm_wf (fold (\<lambda>x. btm_insert (f x) x) xs [])"
proof -
  have *: "length (fold (\<lambda>x. btm_insert (f x) x) xs m) = length xs + length m \<and>
      set (fold (\<lambda>x. btm_insert (f x) x) xs m) = (\<lambda>x. (f x, x)) ` set xs \<union> set m \<and>
      btm_wf (fold (\<lambda>x. btm_insert (f x) x) xs m)"
    if "btm_wf m" "f ` set xs \<inter> fst ` set m = {}" for m
    using assms that
  proof (induction xs arbitrary: m)
    case (Cons x xs)
    have "f ` set xs \<inter> fst ` set (btm_insert (f x) x m) = {}" "f x \<notin> fst ` set m"
      using Cons.prems by (auto simp: keys_btm_insert)
    moreover have "set (btm_insert (f x) x m) = insert (f x, x) (set m)"
      using Cons.prems(2) \<open>f x \<notin> fst ` set m\<close> by (force simp: btm_insert_set)
    ultimately show ?case
      using Cons.IH [of "btm_insert (f x) x m"] Cons.prems by (auto simp: length_btm_insert)
  qed simp
  from * [of "[]"] show "length (fold (\<lambda>x. btm_insert (f x) x) xs []) = length xs"
    and "set (fold (\<lambda>x. btm_insert (f x) x) xs []) = (\<lambda>x. (f x, x)) ` set xs"
    and "btm_wf (fold (\<lambda>x. btm_insert (f x) x) xs [])"
    by simp_all
qed

lemma map_filter_le: "length (List.map_filter f xs) \<le> length xs"
  by (induction xs) (auto simp: List.map_filter_simps split: option.splits)

lemma map_filter_length:
  "length (List.map_filter f xs) = length xs \<longleftrightarrow> (\<forall>x \<in> set xs. f x \<noteq> None)"
proof (induction xs)
  case (Cons x xs)
  then show ?case
    using map_filter_le [of f xs] by (cases "f x") (auto simp: List.map_filter_simps)
qed (simp add: List.map_filter_simps)

lemma distinct_map_filter:
  "distinct (map g xs) \<Longrightarrow> (\<And>x y. x \<in> set xs \<Longrightarrow> f x = Some y \<Longrightarrow> h y = g x) \<Longrightarrow>
    distinct (map h (List.map_filter f xs))"
proof (induction xs)
  case (Cons x xs)
  have IH: "distinct (map h (List.map_filter f xs))"
    using Cons.prems by (intro Cons.IH) auto
  show ?case
  proof (cases "f x")
    case None
    with IH show ?thesis by (simp add: List.map_filter_simps)
  next
    case (Some y)
    have "h y \<notin> h ` set (List.map_filter f xs)"
    proof
      assume "h y \<in> h ` set (List.map_filter f xs)"
      then obtain x' y' where "x' \<in> set xs" "f x' = Some y'" "h y' = h y"
        by (auto simp: map_filter_def)
      with Cons.prems Some show False by (metis distinct.simps(2) image_eqI list.set_intros list.simps(9) set_map)
    qed
    with IH Some show ?thesis by (simp add: List.map_filter_simps)
  qed
qed (simp add: List.map_filter_simps)

lemma rpd_pending_agreements_iff:
  assumes "rpd_wf d"
  shows "rpd_pending_agreements d = Some m \<longleftrightarrow>
    (\<forall>e \<in> set (rpd_rewards d). cp_pending_agreement (snd e) \<noteq> None) \<and>
    m = fold (\<lambda>c. btm_insert (sc_id c) c) (List.map_filter cp_pending_agreement (map snd (rpd_rewards d))) []"
    and "distinct (map sc_id (List.map_filter cp_pending_agreement (map snd (rpd_rewards d))))"
proof -
  have wf: "cp_wf e" if "e \<in> set (rpd_rewards d)" for e using assms that by (simp add: rpd_wf_def)
  have "map cp_id (map snd (rpd_rewards d)) = map fst (rpd_rewards d)"
    using wf by (simp add: cp_wf_def)
  then have "distinct (map cp_id (map snd (rpd_rewards d)))"
    using assms by (simp only: rpd_wf_def btm_wf_distinct)
  then show dist: "distinct (map sc_id (List.map_filter cp_pending_agreement (map snd (rpd_rewards d))))"
    by (rule distinct_map_filter) (use wf in \<open>auto simp: cp_wf_def sc_id_def cp_id_def\<close>)
  show "rpd_pending_agreements d = Some m \<longleftrightarrow>
      (\<forall>e \<in> set (rpd_rewards d). cp_pending_agreement (snd e) \<noteq> None) \<and>
      m = fold (\<lambda>c. btm_insert (sc_id c) c) (List.map_filter cp_pending_agreement (map snd (rpd_rewards d))) []"
    using map_filter_length [of cp_pending_agreement "map snd (rpd_rewards d)"] fold_insert_collect(1) [OF dist]
    by (auto simp: rpd_pending_agreements_def Let_def)
qed

lemma rad_pending_agreements_iff:
  assumes "rad_wf d"
  shows "rad_pending_agreements d = Some m \<longleftrightarrow>
    (\<forall>e \<in> set (rad_rewards d). ca_pending_agreement (snd e) \<noteq> None) \<and>
    m = fold (\<lambda>c. btm_insert (cap_id c) c) (List.map_filter ca_pending_agreement (map snd (rad_rewards d))) []"
    and "distinct (map cap_id (List.map_filter ca_pending_agreement (map snd (rad_rewards d))))"
proof -
  have wf: "ca_wf (rad_pk_set d) e" if "e \<in> set (rad_rewards d)" for e using assms that by (simp add: rad_wf_def)
  have "map ca_id (map snd (rad_rewards d)) = map fst (rad_rewards d)"
    using wf by (simp add: ca_wf_def)
  then have "distinct (map ca_id (map snd (rad_rewards d)))"
    using assms by (simp only: rad_wf_def btm_wf_distinct)
  then show dist: "distinct (map cap_id (List.map_filter ca_pending_agreement (map snd (rad_rewards d))))"
    by (rule distinct_map_filter) (use wf in \<open>auto simp: ca_wf_def cap_id_def sc_id_def ca_id_def\<close>)
  show "rad_pending_agreements d = Some m \<longleftrightarrow>
      (\<forall>e \<in> set (rad_rewards d). ca_pending_agreement (snd e) \<noteq> None) \<and>
      m = fold (\<lambda>c. btm_insert (cap_id c) c) (List.map_filter ca_pending_agreement (map snd (rad_rewards d))) []"
    using map_filter_length [of ca_pending_agreement "map snd (rad_rewards d)"] fold_insert_collect(1) [OF dist]
    by (auto simp: rad_pending_agreements_def Let_def)
qed

end
