(* ===== verification/Reward_Calc.thy ===== *)
theory Reward_Calc
  imports Data_Types
begin

text \<open>
  The size of a reward and its distribution over the section's nodes
  (\<^verbatim>\<open>src/src/section_funds/reward_calc.rs\<close>), on 64-bit words with the wrap-around of a release
  build. \<^const>\<open>None\<close> is a call that does not return: the loop never ends, or a division by zero
  or a missing key panics.
\<close>

section \<open>Minting\<close>

definition MAX_SUPPLY :: u64 where
  "MAX_SUPPLY = 4294967295 * 1000000000"

definition MIN_REWARD_AGE :: u8 where
  "MIN_REWARD_AGE = 6"

definition get_reward_and_mint_amount :: "Token \<Rightarrow> Token \<Rightarrow> Token \<Rightarrow> Token" where
  "get_reward_and_mint_amount payments section_managed max_supply =
     (if max_supply > section_managed then
        let to_be_minted = min payments (max_supply - section_managed)
        in payments + to_be_minted
      else let excess_supply = section_managed - max_supply
        in if payments > excess_supply then payments - excess_supply else 0)"

section \<open>Distribution\<close>

type_synonym nodes = "(XorName, NodeAge \<times> PublicKey) btree_map"
type_synonym wallet_bucket = "(XorName, PublicKey) btree_map"
type_synonym buckets = "(NodeAge, wallet_bucket) btree_map"
type_synonym rewards = "(XorName, NodeAge \<times> PublicKey \<times> Token) btree_map"

definition add_to_bucket :: "XorName \<times> NodeAge \<times> PublicKey \<Rightarrow> buckets \<Rightarrow> buckets" where
  "add_to_bucket node rb = (case node of (node_name, age, wallet) \<Rightarrow>
     if age \<ge> MIN_REWARD_AGE then
       (let bucket = (case btm_get rb age of None \<Rightarrow> [] | Some b \<Rightarrow> b)
        in btm_insert age (btm_insert node_name wallet bucket) rb)
     else rb)"

definition get_buckets :: "nodes \<Rightarrow> buckets" where
  "get_buckets nodes = fold add_to_bucket nodes []"

definition checked_div :: "u64 \<Rightarrow> u64 \<Rightarrow> u64 option" where
  "checked_div a b = (if b = 0 then None else Some (a div b))"

text \<open>The number of decimal digits, \<^verbatim>\<open>to_string().len()\<close>.\<close>

fun dec_len :: "nat \<Rightarrow> nat" where
  "dec_len n = (if n < 10 then 1 else Suc (dec_len (n div 10)))"

declare dec_len.simps [simp del]

definition proportional_work :: "NodeAge \<Rightarrow> u64" where
  "proportional_work age = 2 ^ unat age"

text \<open>What a bucket is owed in one round, before it is cut to what remains.\<close>

definition bucket_reward :: "u64 \<Rightarrow> NodeAge \<Rightarrow> wallet_bucket \<Rightarrow> u64" where
  "bucket_reward bucket_multiplier age wallets =
     (proportional_work age * of_nat (length wallets)) * bucket_multiplier"

definition bucket_multiplier :: "u64 \<Rightarrow> buckets \<Rightarrow> u64 option" where
  "bucket_multiplier remaining_amount rb =
     (let max_age = ucast (fold max (map fst rb) 0) :: u64;
          node_count = (\<Sum>b\<leftarrow>map snd rb. of_nat (length b)) :: u64
      in case checked_div remaining_amount (max_age * node_count) of
          None \<Rightarrow> None
        | Some sh \<Rightarrow>
            let divisor = max_age * of_nat (dec_len (unat remaining_amount))
            in map_option (max 1) (checked_div sh divisor))"

text \<open>The inner loop, one round over the buckets in the order of their ages.\<close>

fun tick :: "u64 \<Rightarrow> buckets \<Rightarrow> (NodeAge, u64) btree_map \<Rightarrow> u64 \<Rightarrow> (NodeAge, u64) btree_map \<times> u64" where
  "tick m [] counters remaining_amount = (counters, remaining_amount)"
| "tick m ((age, wallets) # rb) counters remaining_amount =
     (let reward = min (bucket_reward m age wallets) remaining_amount;
          counters' = (case btm_get counters age of
              None \<Rightarrow> btm_insert age reward counters
            | Some existing \<Rightarrow> btm_insert age (existing + reward) counters);
          remaining' = remaining_amount - reward
      in if remaining' = 0 then (counters', remaining') else tick m rb counters' remaining')"

partial_function (option) rounds ::
    "u64 \<Rightarrow> buckets \<Rightarrow> (NodeAge, u64) btree_map \<Rightarrow> u64 \<Rightarrow> (NodeAge, u64) btree_map option" where
  "rounds m rb counters remaining_amount =
     (if remaining_amount > 0
      then rounds m rb (fst (tick m rb counters remaining_amount)) (snd (tick m rb counters remaining_amount))
      else Some counters)"

declare rounds.simps [code]

text \<open>The wallets of one bucket: the first also takes the remainder.\<close>

fun pay_wallets :: "NodeAge \<Rightarrow> u64 \<Rightarrow> u64 \<Rightarrow> bool \<Rightarrow> wallet_bucket \<Rightarrow> rewards \<Rightarrow> rewards" where
  "pay_wallets age reward_per_wallet remainder first_added [] to_return = to_return"
| "pay_wallets age reward_per_wallet remainder first_added ((node_name, wallet) # ws) to_return =
     (if \<not> first_added
      then pay_wallets age reward_per_wallet remainder True ws
             (btm_insert node_name (age, wallet, reward_per_wallet + remainder) to_return)
      else pay_wallets age reward_per_wallet remainder first_added ws
             (btm_insert node_name (age, wallet, reward_per_wallet) to_return))"

fun pay_out :: "buckets \<Rightarrow> (NodeAge, u64) btree_map \<Rightarrow> rewards \<Rightarrow> rewards option" where
  "pay_out rb [] to_return = Some to_return"
| "pay_out rb ((age, reward) # counters) to_return = (case btm_get rb age of
     None \<Rightarrow> None
   | Some wallets \<Rightarrow>
       let wallet_count = of_nat (length wallets) :: u64
       in if wallet_count = 0 then None
          else pay_out rb counters
                 (pay_wallets age (reward div wallet_count) (reward mod wallet_count) False wallets to_return))"

definition distribute :: "Token \<Rightarrow> buckets \<Rightarrow> rewards option" where
  "distribute amount rb =
     (if rb = [] then Some []
      else case bucket_multiplier amount rb of
        None \<Rightarrow> None
      | Some m \<Rightarrow> (case rounds m rb [] amount of
          None \<Rightarrow> None
        | Some counters \<Rightarrow> pay_out rb counters []))"

definition distribute_rewards :: "Token \<Rightarrow> nodes \<Rightarrow> rewards option" where
  "distribute_rewards amount nodes = distribute amount (get_buckets nodes)"

section \<open>The buckets\<close>

text \<open>The nodes a bucket holds are the rewarded nodes of its age.\<close>

definition bucket_ok :: "NodeAge \<times> wallet_bucket \<Rightarrow> bool" where
  "bucket_ok b \<longleftrightarrow> fst b \<ge> MIN_REWARD_AGE \<and> snd b \<noteq> [] \<and> btm_wf (snd b)"

definition buckets_wf :: "buckets \<Rightarrow> bool" where
  "buckets_wf rb \<longleftrightarrow> btm_wf rb \<and> (\<forall>b \<in> set rb. bucket_ok b)"

definition in_bucket :: "buckets \<Rightarrow> XorName \<Rightarrow> NodeAge \<Rightarrow> PublicKey \<Rightarrow> bool" where
  "in_bucket rb n age k \<longleftrightarrow> (\<exists>ws. btm_get rb age = Some ws \<and> btm_get ws n = Some k)"

lemma btm_get_eq_Some_iff: "btm_wf m \<Longrightarrow> btm_get m k = Some v \<longleftrightarrow> (k, v) \<in> set m"
  by (meson btm_wf_distinct map_of_eq_Some_iff)

lemma btm_insert_neq_Nil [simp]: "btm_insert k v m \<noteq> []"
  by (cases m) auto

lemma buckets_wf_Nil [simp]: "buckets_wf []"
  by (simp add: buckets_wf_def)

lemma in_bucket_Nil [simp]: "\<not> in_bucket [] n a k"
  by (simp add: in_bucket_def)

lemma buckets_wf_get: "buckets_wf rb \<Longrightarrow> btm_get rb a = Some ws \<Longrightarrow> bucket_ok (a, ws)"
  by (auto simp: buckets_wf_def dest: map_of_SomeD)

lemma buckets_wf_add:
  assumes "buckets_wf rb"
  shows "buckets_wf (add_to_bucket node rb)"
proof -
  obtain n a k where node: "node = (n, a, k)" by (cases node) auto
  have "bucket_ok (a, btm_insert n k (case btm_get rb a of None \<Rightarrow> [] | Some b \<Rightarrow> b))" if "a \<ge> MIN_REWARD_AGE"
    using that buckets_wf_get [OF assms, of a] by (auto simp: bucket_ok_def split: option.split)
  with assms show ?thesis
    by (auto simp: buckets_wf_def add_to_bucket_def node Let_def btm_insert_set)
qed

lemma in_bucket_add:
  "in_bucket (add_to_bucket (n, a, k) rb) n' a' k' \<longleftrightarrow>
    (if a \<ge> MIN_REWARD_AGE \<and> n' = n \<and> a' = a then k' = k else in_bucket rb n' a' k')"
  by (auto simp: in_bucket_def add_to_bucket_def Let_def split: option.splits)

lemma fold_buckets:
  assumes "distinct (map fst nodes)" and "buckets_wf rb" and "\<forall>n \<in> fst ` set nodes. \<forall>a k. \<not> in_bucket rb n a k"
  shows "buckets_wf (fold add_to_bucket nodes rb) \<and>
    (\<forall>n a k. in_bucket (fold add_to_bucket nodes rb) n a k \<longleftrightarrow>
      in_bucket rb n a k \<or> ((n, a, k) \<in> set nodes \<and> a \<ge> MIN_REWARD_AGE))"
  using assms
proof (induction nodes arbitrary: rb)
  case (Cons node nodes)
  obtain n a k where node: "node = (n, a, k)" by (cases node) auto
  have "\<forall>n' \<in> fst ` set nodes. \<forall>a' k'. \<not> in_bucket (add_to_bucket node rb) n' a' k'"
    using Cons.prems by (auto simp: node in_bucket_add)
  with Cons.IH [of "add_to_bucket node rb"] Cons.prems show ?case
    by (auto simp: buckets_wf_add node in_bucket_add)
qed simp

lemma get_buckets_wf: "btm_wf nodes \<Longrightarrow> buckets_wf (get_buckets nodes)"
  using fold_buckets [of nodes "[]"]
  by (simp add: get_buckets_def btm_wf_distinct)

lemma in_get_buckets:
  "btm_wf nodes \<Longrightarrow> in_bucket (get_buckets nodes) n a k \<longleftrightarrow>
    btm_get nodes n = Some (a, k) \<and> a \<ge> MIN_REWARD_AGE"
  using fold_buckets [of nodes "[]"]
  by (simp add: get_buckets_def btm_wf_distinct btm_get_eq_Some_iff)

section \<open>The rounds\<close>

abbreviation counted :: "(NodeAge, u64) btree_map \<Rightarrow> nat" where
  "counted \<equiv> btm_sum unat"

text \<open>
  One step moves tokens from what remains to a counter and loses none; the counters cannot
  wrap around as long as all tokens fit into 64 bits.
\<close>

definition bump :: "NodeAge \<Rightarrow> u64 \<Rightarrow> (NodeAge, u64) btree_map \<Rightarrow> (NodeAge, u64) btree_map" where
  "bump age reward counters = (case btm_get counters age of
     None \<Rightarrow> btm_insert age reward counters
   | Some existing \<Rightarrow> btm_insert age (existing + reward) counters)"

lemma bump_counted:
  assumes "btm_wf c" and "counted c + unat x < 2 ^ 64"
  shows "btm_wf (bump age x c)" and "counted (bump age x c) = counted c + unat x"
    and "fst ` set (bump age x c) = insert age (fst ` set c)"
proof -
  show "btm_wf (bump age x c)" using assms(1) by (simp add: bump_def split: option.split)
  show "fst ` set (bump age x c) = insert age (fst ` set c)"
    by (simp add: bump_def keys_btm_insert split: option.split)
  show "counted (bump age x c) = counted c + unat x"
  proof (cases "btm_get c age")
    case None
    then show ?thesis using btm_sum_insert [OF assms(1), of unat age x] by (simp add: bump_def)
  next
    case (Some y)
    then have "unat y \<le> counted c" by (rule btm_sum_get)
    then have "unat (y + x) = unat y + unat x" using assms(2) by (simp add: unat_add_no_wrap)
    with Some btm_sum_insert [OF assms(1), of unat age "y + x"] show ?thesis by (simp add: bump_def)
  qed
qed

lemma tick_step:
  "tick m ((age, ws) # rb) c r =
    (let reward = min (bucket_reward m age ws) r; r' = r - reward
     in if r' = 0 then (bump age reward c, r') else tick m rb (bump age reward c) r')"
  by (simp only: tick.simps bump_def Let_def)

lemma unat_minus_min: "unat (r - min x r) + unat (min x r) = unat (r :: u64)"
  by (simp add: min_def unat_sub_if' word_le_nat_alt)

lemma tick_conserves:
  assumes "btm_wf c" and "counted c + unat r < 2 ^ 64"
  shows "btm_wf (fst (tick m rb c r)) \<and>
    counted (fst (tick m rb c r)) + unat (snd (tick m rb c r)) = counted c + unat r \<and>
    fst ` set (fst (tick m rb c r)) \<subseteq> fst ` set c \<union> fst ` set rb"
  using assms
proof (induction rb arbitrary: c r)
  case (Cons b rb)
  obtain age ws where b: "b = (age, ws)" by (cases b)
  define x where "x = min (bucket_reward m age ws) r"
  have x: "unat (r - x) + unat x = unat r" by (simp add: x_def unat_minus_min)
  note bump = bump_counted [OF Cons.prems(1), of x age]
  have bump: "btm_wf (bump age x c)" "counted (bump age x c) = counted c + unat x"
      "fst ` set (bump age x c) = insert age (fst ` set c)"
    using bump Cons.prems(2) x by simp_all
  then show ?case
    using Cons.IH [of "bump age x c" "r - x"] Cons.prems(2) x
    by (auto simp: b tick_step Let_def x_def [symmetric] simp del: tick.simps)
qed simp

text \<open>A round pays something if and only if some bucket is owed something.\<close>

lemma tick_le: "snd (tick m rb c r) \<le> r"
proof (induction rb arbitrary: c r)
  case (Cons b rb)
  obtain age ws where b: "b = (age, ws)" by (cases b)
  define x where "x = min (bucket_reward m age ws) r"
  have "unat (r - x) + unat x = unat r" by (simp add: x_def unat_minus_min)
  then have "r - x \<le> r" by (simp add: word_le_nat_alt)
  with Cons.IH [of "bump age x c" "r - x"] show ?case
    by (auto simp: b tick_step Let_def x_def [symmetric] simp del: tick.simps)
qed simp

definition owed :: "u64 \<Rightarrow> buckets \<Rightarrow> bool" where
  "owed m rb \<longleftrightarrow> (\<exists>b \<in> set rb. bucket_reward m (fst b) (snd b) \<noteq> 0)"

lemma owed_simps [simp]:
  "\<not> owed m []" "owed m ((age, ws) # rb) \<longleftrightarrow> bucket_reward m age ws \<noteq> 0 \<or> owed m rb"
  by (auto simp: owed_def)

lemma tick_progress: "owed m rb \<Longrightarrow> r \<noteq> 0 \<Longrightarrow> snd (tick m rb c r) < r"
proof (induction rb arbitrary: c r)
  case (Cons b rb)
  obtain age ws where b: "b = (age, ws)" by (cases b)
  define x where "x = min (bucket_reward m age ws) r"
  have x: "unat (r - x) + unat x = unat r" by (simp add: x_def unat_minus_min)
  show ?case
  proof (cases "x = 0")
    case True
    with Cons.prems have "owed m rb" by (auto simp: b x_def min_def split: if_splits)
    with Cons.IH [of r "bump age x c"] Cons.prems True show ?thesis
      by (simp add: b tick_step Let_def x_def [symmetric] del: tick.simps)
  next
    case False
    then have "0 < unat x" by (simp add: unat_gt_0)
    with x have "r - x < r" unfolding word_less_nat_alt by linarith
    with tick_le [of m rb "bump age x c" "r - x"] show ?thesis
      by (auto simp: b tick_step Let_def x_def [symmetric] simp del: tick.simps)
  qed
qed simp

lemma tick_stuck: "\<not> owed m rb \<Longrightarrow> r \<noteq> 0 \<Longrightarrow> snd (tick m rb c r) = r"
proof (induction rb arbitrary: c)
  case (Cons b rb)
  obtain age ws where b: "b = (age, ws)" by (cases b)
  from Cons show ?case by (simp add: b tick_step del: tick.simps)
qed simp

lemma rounds_returns:
  assumes "owed m rb"
  shows "\<exists>c'. rounds m rb c r = Some c'"
proof (induction r arbitrary: c rule: measure_induct_rule [where f = unat])
  case (less r)
  show ?case
  proof (cases "r = 0")
    case True
    then show ?thesis by (simp add: rounds.simps)
  next
    case False
    with tick_progress [OF assms, of r c] less show ?thesis
      by (subst rounds.simps) (simp add: word_neq_0_conv word_less_nat_alt)
  qed
qed

lemma rounds_stuck:
  assumes "rounds m rb c r = Some y"
  shows "r = 0 \<or> owed m rb"
  using _ assms
proof (rule rounds.raw_induct)
  fix rnds m rb c r and y :: "(NodeAge, u64) btree_map"
  assume IH: "\<And>m rb c r y. rnds m rb c r = Some y \<Longrightarrow> r = 0 \<or> owed m rb"
    and eq: "(if 0 < r then rnds m rb (fst (tick m rb c r)) (snd (tick m rb c r)) else Some c) = Some y"
  show "r = 0 \<or> owed m rb"
  proof (cases "r = 0")
    case False
    with eq IH have "snd (tick m rb c r) = 0 \<or> owed m rb" by (simp add: word_neq_0_conv)
    with False tick_stuck [of m rb r c] show ?thesis by metis
  qed simp
qed

lemma rounds_conserves:
  assumes "rounds m rb c r = Some y" and "btm_wf c" and "counted c + unat r < 2 ^ 64"
  shows "btm_wf y \<and> counted y = counted c + unat r \<and> fst ` set y \<subseteq> fst ` set c \<union> fst ` set rb"
proof -
  have "btm_wf c \<longrightarrow> counted c + unat r < 2 ^ 64 \<longrightarrow>
      btm_wf y \<and> counted y = counted c + unat r \<and> fst ` set y \<subseteq> fst ` set c \<union> fst ` set rb"
    using _ assms(1)
  proof (rule rounds.raw_induct, intro impI)
    fix rnds m rb c r and y :: "(NodeAge, u64) btree_map"
    assume IH: "\<And>m rb c r y. rnds m rb c r = Some y \<Longrightarrow> btm_wf c \<longrightarrow> counted c + unat r < 2 ^ 64 \<longrightarrow>
        btm_wf y \<and> counted y = counted c + unat r \<and> fst ` set y \<subseteq> fst ` set c \<union> fst ` set rb"
      and eq: "(if 0 < r then rnds m rb (fst (tick m rb c r)) (snd (tick m rb c r)) else Some c) = Some y"
      and c: "btm_wf c" "counted c + unat r < 2 ^ 64"
    show "btm_wf y \<and> counted y = counted c + unat r \<and> fst ` set y \<subseteq> fst ` set c \<union> fst ` set rb"
    proof (cases "r = 0")
      case True
      with eq c show ?thesis by simp
    next
      case False
      with eq have "rnds m rb (fst (tick m rb c r)) (snd (tick m rb c r)) = Some y"
        by (simp add: word_neq_0_conv)
      note y = IH [OF this, rule_format]
      have t: "btm_wf (fst (tick m rb c r))"
          "counted (fst (tick m rb c r)) + unat (snd (tick m rb c r)) = counted c + unat r"
          "fst ` set (fst (tick m rb c r)) \<subseteq> fst ` set c \<union> fst ` set rb"
        using tick_conserves [OF c, of m rb] by simp_all
      have "counted (fst (tick m rb c r)) + unat (snd (tick m rb c r)) < 2 ^ 64" using t(2) c(2) by simp
      with y [OF t(1)] t(2) have "btm_wf y" "counted y = counted c + unat r"
          "fst ` set y \<subseteq> fst ` set (fst (tick m rb c r)) \<union> fst ` set rb"
        by simp_all
      with t(3) show ?thesis by blast
    qed
  qed
  with assms(2,3) show ?thesis by simp
qed

section \<open>Paying out\<close>

abbreviation paid :: "rewards \<Rightarrow> nat" where
  "paid \<equiv> btm_sum (\<lambda>v. unat (snd (snd v)))"

lemma pay_wallets_keys:
  "fst ` set (pay_wallets age per rem f ws acc) = fst ` set ws \<union> fst ` set acc"
  by (induction age per rem f ws acc rule: pay_wallets.induct) (auto simp: keys_btm_insert)

lemma pay_wallets_wf: "btm_wf acc \<Longrightarrow> btm_wf (pay_wallets age per rem f ws acc)"
  by (induction age per rem f ws acc rule: pay_wallets.induct) auto

lemma pay_wallets_mem:
  "btm_wf acc \<Longrightarrow> (n, a, k, t) \<in> set (pay_wallets age per rem f ws acc) \<Longrightarrow>
    (a = age \<and> (n, k) \<in> set ws) \<or> (n, a, k, t) \<in> set acc"
  by (induction age per rem f ws acc rule: pay_wallets.induct) (fastforce simp: btm_insert_set split: if_splits)+

lemma paid_insert_fresh:
  "btm_wf acc \<Longrightarrow> n \<notin> fst ` set acc \<Longrightarrow> paid (btm_insert n v acc) = unat (snd (snd v)) + paid acc"
  using btm_sum_insert [of acc "\<lambda>v. unat (snd (snd v))" n v] map_of_eq_None_iff [of acc n] by simp

lemma pay_wallets_paid:
  assumes "btm_wf acc" and "distinct (map fst ws)" and "fst ` set ws \<inter> fst ` set acc = {}"
    and "unat per + unat rem < 2 ^ 64"
  shows "paid (pay_wallets age per rem f ws acc) =
    paid acc + length ws * unat per + (if f \<or> ws = [] then 0 else unat rem)"
  using assms
proof (induction age per rem f ws acc rule: pay_wallets.induct)
  case (2 age per rem f n w ws acc)
  have "fst ` set ws \<inter> fst ` set (btm_insert n v acc) = {}" for v
    using 2(4,5) by (auto simp: keys_btm_insert)
  then show ?case
    using 2 by (cases f) (simp_all add: paid_insert_fresh unat_add_no_wrap)
qed simp

lemma pay_bucket:
  assumes "btm_wf acc" and "bucket_ok (age, ws)" and "fst ` set ws \<inter> fst ` set acc = {}"
    and "length ws < 2 ^ 64"
  shows "paid (pay_wallets age (x div of_nat (length ws)) (x mod of_nat (length ws)) False ws acc) =
    paid acc + unat x"
proof -
  let ?n = "of_nat (length ws) :: u64"
  have n: "unat ?n = length ws" using assms(4) by (simp add: unat_of_nat_eq)
  have d: "unat (x div ?n) = unat x div length ws" and m: "unat (x mod ?n) = unat x mod length ws"
    by (simp_all add: unat_div_distrib unat_mod_distrib n)
  have "unat x div length ws + unat x mod length ws \<le> unat x"
    using div_mult_mod_eq [of "unat x" "length ws"] assms(2)
    by (metis add_le_cancel_right bucket_ok_def length_0_conv less_one mult_le_mono2 mult.right_neutral not_less snd_conv)
  then have "unat (x div ?n) + unat (x mod ?n) < 2 ^ 64"
    using unat_less_2p [of x] by (simp add: d m)
  from pay_wallets_paid [OF assms(1) _ assms(3) this] assms(2) show ?thesis
    by (simp add: bucket_ok_def btm_wf_distinct d m)
qed

text \<open>Every name is in one bucket only.\<close>

definition names_apart :: "buckets \<Rightarrow> bool" where
  "names_apart rb \<longleftrightarrow> (\<forall>n a a' k k'. in_bucket rb n a k \<longrightarrow> in_bucket rb n a' k' \<longrightarrow> a = a')"

lemma names_apart_get_buckets: "btm_wf nodes \<Longrightarrow> names_apart (get_buckets nodes)"
  by (auto simp: names_apart_def in_get_buckets)

lemma in_bucket_names: "btm_get rb a = Some ws \<Longrightarrow> n \<in> fst ` set ws \<Longrightarrow> \<exists>k. in_bucket rb n a k"
  by (auto simp: in_bucket_def) (metis btm_get_keys fst_conv image_eqI not_None_eq)

lemma pay_out_total:
  assumes "buckets_wf rb" and "names_apart rb" and "\<forall>b \<in> set rb. length (snd b) < 2 ^ 64"
    and "distinct (map fst counters)" and "fst ` set counters \<subseteq> fst ` set rb" and "btm_wf acc"
    and "\<forall>n \<in> fst ` set acc. \<forall>a \<in> fst ` set counters. \<forall>k. \<not> in_bucket rb n a k"
  shows "\<exists>m. pay_out rb counters acc = Some m \<and> paid m = paid acc + counted counters \<and> btm_wf m \<and>
    (\<forall>n a k t. (n, a, k, t) \<in> set m \<longrightarrow> (n, a, k, t) \<in> set acc \<or> in_bucket rb n a k)"
  using assms(4-7)
proof (induction counters arbitrary: acc)
  case (Cons c counters)
  obtain age x where c: "c = (age, x)" by (cases c)
  have "age \<in> fst ` set rb" using Cons.prems(2) by (simp add: c)
  then obtain ws where ws: "btm_get rb age = Some ws" by (metis btm_get_keys not_None_eq)
  have ok: "bucket_ok (age, ws)" "length ws < 2 ^ 64"
    using buckets_wf_get [OF assms(1) ws] assms(3) map_of_SomeD [OF ws] by auto
  have dis: "fst ` set ws \<inter> fst ` set acc = {}"
  proof (intro equals0I, elim IntE)
    fix nm
    assume "nm \<in> fst ` set ws" "nm \<in> fst ` set acc"
    then obtain k where "in_bucket rb nm age k" using in_bucket_names [OF ws] by blast
    with Cons.prems(4) [rule_format, OF \<open>nm \<in> fst ` set acc\<close>, of age k] show False by (simp add: c)
  qed
  let ?acc = "pay_wallets age (x div of_nat (length ws)) (x mod of_nat (length ws)) False ws acc"
  have n: "(of_nat (length ws) :: u64) \<noteq> 0"
    using ok unat_of_nat_eq [of "length ws", where 'a = 64] by (auto simp: bucket_ok_def)
  have "\<not> in_bucket rb nm a k" if "nm \<in> fst ` set ?acc" "a \<in> fst ` set counters" for nm a k
  proof (cases "nm \<in> fst ` set ws")
    case True
    then obtain k' where "in_bucket rb nm age k'" using in_bucket_names [OF ws] by blast
    moreover have "a \<noteq> age" using Cons.prems(1) that(2) by (auto simp: c)
    ultimately show ?thesis using assms(2) by (auto simp: names_apart_def)
  next
    case False
    with that Cons.prems(4) show ?thesis by (auto simp: pay_wallets_keys c)
  qed
  then obtain m where m: "pay_out rb counters ?acc = Some m" "paid m = paid ?acc + counted counters" "btm_wf m"
      "\<forall>n a k t. (n, a, k, t) \<in> set m \<longrightarrow> (n, a, k, t) \<in> set ?acc \<or> in_bucket rb n a k"
    using Cons.IH [of ?acc] Cons.prems by (auto simp: c pay_wallets_wf)
  have "in_bucket rb n age k" if "(n, k) \<in> set ws" for n k
    using that ok(1) ws by (auto simp: in_bucket_def bucket_ok_def btm_get_eq_Some_iff)
  with m(4) pay_wallets_mem [OF Cons.prems(3)]
  have "\<forall>n a k t. (n, a, k, t) \<in> set m \<longrightarrow> (n, a, k, t) \<in> set acc \<or> in_bucket rb n a k" by blast
  with m pay_bucket [OF Cons.prems(3) ok(1) dis ok(2), of x] n ws show ?case by (simp add: c Let_def)
qed simp

section \<open>The multiplier\<close>

lemma dec_len_bounds: "1 \<le> dec_len n \<and> (n < 10 ^ k \<longrightarrow> 0 < k \<longrightarrow> dec_len n \<le> k)"
proof (induction n arbitrary: k rule: dec_len.induct)
  case (1 n)
  show ?case
  proof (cases "n < 10")
    case True
    then show ?thesis by (simp add: dec_len.simps)
  next
    case False
    have "dec_len (n div 10) \<le> k - 1" if "n < 10 ^ k"
    proof -
      from that False have k: "1 < k" by (cases k; cases "k - 1") auto
      then have "(10 :: nat) ^ k = 10 * 10 ^ (k - 1)" by (cases k) auto
      with that have "n div 10 < 10 ^ (k - 1)" by auto
      with 1 [OF False, of "k - 1"] k show ?thesis by simp
    qed
    with False 1 [OF False] show ?thesis by (subst (1 2) dec_len.simps) auto
  qed
qed

lemma bucket_total_add: "buckets_wf rb \<Longrightarrow> btm_sum length (add_to_bucket node rb) \<le> Suc (btm_sum length rb)"
proof -
  assume wf: "buckets_wf rb"
  obtain n a k where node: "node = (n, a, k)" by (cases node) auto
  have "btm_wf rb" using wf by (simp add: buckets_wf_def)
  from btm_sum_insert [OF this, of length a "btm_insert n k (case btm_get rb a of None \<Rightarrow> [] | Some b \<Rightarrow> b)"]
  show ?thesis
    using buckets_wf_get [OF wf, of a]
    by (auto simp: add_to_bucket_def node Let_def bucket_ok_def length_btm_insert split: option.splits if_splits)
qed

lemma bucket_total_fold:
  "buckets_wf rb \<Longrightarrow> btm_sum length (fold add_to_bucket nodes rb) \<le> length nodes + btm_sum length rb"
proof (induction nodes arbitrary: rb)
  case (Cons node nodes)
  note Cons.IH [OF buckets_wf_add [OF Cons.prems], of node]
  also have "length nodes + btm_sum length (add_to_bucket node rb) \<le> length (node # nodes) + btm_sum length rb"
    using bucket_total_add [OF Cons.prems, of node] by simp
  finally show ?case by simp
qed simp

lemma node_count_sum: "(\<Sum>b\<leftarrow>map snd rb. of_nat (length b)) = (of_nat (btm_sum length rb) :: u64)"
  by (induction rb) auto

lemma fold_max_ge: "(a :: u8) \<in> set xs \<Longrightarrow> a \<le> fold max xs z"
proof -
  have acc: "z \<le> fold max xs z" for xs and z :: u8
  proof (induction xs arbitrary: z)
    case (Cons y ys)
    have "z \<le> max y z" by simp
    also have "\<dots> \<le> fold max ys (max y z)" by (rule Cons.IH)
    finally show ?case by simp
  qed simp
  show "a \<in> set xs \<Longrightarrow> a \<le> fold max xs z"
    by (induction xs arbitrary: z) (auto intro: order_trans [OF _ acc])
qed

lemma bucket_multiplier_total:
  assumes "buckets_wf rb" and "rb \<noteq> []" and "btm_sum length rb < 2 ^ 56"
  shows "\<exists>m. bucket_multiplier amount rb = Some m"
proof -
  let ?a = "fold max (map fst rb) 0"
  obtain age ws rb' where rb: "rb = (age, ws) # rb'" using assms(2) by (cases rb) auto
  have "age \<le> ?a" by (rule fold_max_ge) (simp add: rb)
  moreover have "age \<ge> 6" "ws \<noteq> []"
    using assms(1) by (auto simp: rb buckets_wf_def bucket_ok_def MIN_REWARD_AGE_def)
  ultimately have "6 \<le> unat ?a" by (simp add: word_le_nat_alt)
  moreover have u: "unat (ucast ?a :: u64) = unat ?a" "unat ?a < 256"
    using unat_less_2p [of ?a] by (simp_all add: unsigned_ucast_eq unsigned_take_bit_eq take_bit_nat_eq_self)
  moreover have n: "unat (of_nat (btm_sum length rb) :: u64) = btm_sum length rb"
    using assms(3) by (simp add: unat_of_nat_eq)
  moreover have "0 < btm_sum length rb" using \<open>ws \<noteq> []\<close> by (simp add: rb)
  moreover have "unat ?a * btm_sum length rb < 256 * 2 ^ 56"
    using u(2) assms(3) by (intro mult_strict_mono) auto
  ultimately have "(ucast ?a :: u64) * of_nat (btm_sum length rb) \<noteq> 0"
    using unat_mult_no_wrap [of "ucast ?a :: u64" "of_nat (btm_sum length rb)"] by auto
  moreover have "(ucast ?a :: u64) * of_nat (dec_len (unat amount)) \<noteq> 0"
  proof -
    have d: "1 \<le> dec_len (unat amount)" "dec_len (unat amount) \<le> 20"
      using dec_len_bounds [of "unat amount" 20] unat_less_2p [of amount] by auto
    then have "unat (of_nat (dec_len (unat amount)) :: u64) = dec_len (unat amount)"
      by (simp add: unat_of_nat_eq)
    moreover have "unat ?a * dec_len (unat amount) \<le> 256 * 20"
      using u(2) d(2) by (intro mult_le_mono) auto
    ultimately show ?thesis
      using unat_mult_no_wrap [of "ucast ?a :: u64" "of_nat (dec_len (unat amount))"] u(1) d(1) \<open>6 \<le> unat ?a\<close>
      by auto
  qed
  ultimately show ?thesis
    unfolding bucket_multiplier_def node_count_sum by (simp add: Let_def checked_div_def)
qed

section \<open>Bounds of minting\<close>

lemma mint_cases:
  assumes "unat payments + unat max_supply < 2 ^ 64"
  shows "unat (get_reward_and_mint_amount payments managed max_supply) =
    (if unat managed < unat max_supply
     then unat payments + min (unat payments) (unat max_supply - unat managed)
     else unat payments - (unat managed - unat max_supply))"
proof (cases "max_supply > managed")
  case True
  then have lt: "unat managed < unat max_supply" by (simp add: word_less_nat_alt)
  let ?x = "min payments (max_supply - managed)"
  have x: "unat ?x = min (unat payments) (unat max_supply - unat managed)"
    using lt by (simp add: min_def word_le_nat_alt unat_sub_if')
  have "unat (payments + ?x) = unat payments + unat ?x"
    using assms x by (intro unat_add_no_wrap) simp
  with True x lt show ?thesis by (simp add: get_reward_and_mint_amount_def Let_def)
next
  case False
  then have "unat max_supply \<le> unat managed" by (simp add: word_less_nat_alt)
  then have e: "unat (managed - max_supply) = unat managed - unat max_supply" by (simp add: unat_sub_if')
  with False show ?thesis
    by (auto simp: get_reward_and_mint_amount_def Let_def word_less_nat_alt unat_sub_if')
qed

lemma mint_bound:
  "unat payments + unat max_supply < 2 ^ 64 \<Longrightarrow>
    unat (get_reward_and_mint_amount payments managed max_supply) \<le> 2 * unat payments"
  using mint_cases [of payments max_supply managed] by (simp split: if_splits)

section \<open>Properties\<close>

text \<open>
  C21. Minting is bounded: as long as payments and supply fit into 64 bits together, the reward is
  at most twice the payments; while the section manages less than its share of the supply, what
  is minted on top of the payments never takes it over that share; once it manages more, the
  excess is taken out of the payments and nothing is minted.
\<close>

theorem mint_bounded:
  assumes "unat payments + unat max_supply < 2 ^ 64"
  shows "unat (get_reward_and_mint_amount payments managed max_supply) \<le> 2 * unat payments \<and>
    (unat managed < unat max_supply \<longrightarrow>
      unat payments \<le> unat (get_reward_and_mint_amount payments managed max_supply) \<and>
      unat managed + (unat (get_reward_and_mint_amount payments managed max_supply) - unat payments)
        \<le> unat max_supply) \<and>
    (unat max_supply \<le> unat managed \<longrightarrow>
      unat (get_reward_and_mint_amount payments managed max_supply) =
        unat payments - (unat managed - unat max_supply))"
  using mint_cases [OF assms, of managed] by (simp split: if_splits)

theorem mint_bounded_witness:
  "unat (1000 :: u64) + unat (2000 :: u64) < 2 ^ 64 \<and>
   unat (get_reward_and_mint_amount 1000 1500 2000) \<le> 2 * unat (1000 :: u64) \<and>
   get_reward_and_mint_amount 1000 1500 2000 = 1500"
  using mint_bounded [of 1000 2000 1500] by (simp add: get_reward_and_mint_amount_def Let_def)

lemma distribute_rewards_total:
  assumes wf: "btm_wf nodes" and len: "length nodes < 2 ^ 56" and ne: "get_buckets nodes \<noteq> []"
  shows "\<exists>m. bucket_multiplier amount (get_buckets nodes) = Some m \<and>
    (distribute_rewards amount nodes \<noteq> None \<longleftrightarrow> amount = 0 \<or> owed m (get_buckets nodes)) \<and>
    (\<forall>rw. distribute_rewards amount nodes = Some rw \<longrightarrow> btm_wf rw \<and> paid rw = unat amount \<and>
      (\<forall>n a k t. btm_get rw n = Some (a, k, t) \<longrightarrow> btm_get nodes n = Some (a, k) \<and> a \<ge> MIN_REWARD_AGE))"
proof -
  let ?rb = "get_buckets nodes"
  have rb: "buckets_wf ?rb" "names_apart ?rb"
    using wf by (simp_all add: get_buckets_wf names_apart_get_buckets)
  have total: "btm_sum length ?rb \<le> length nodes"
    using bucket_total_fold [of "[]" nodes] by (simp add: get_buckets_def)
  have small: "\<forall>b \<in> set ?rb. length (snd b) < 2 ^ 64"
  proof
    fix b
    assume "b \<in> set ?rb"
    then have "btm_get ?rb (fst b) = Some (snd b)"
      using rb(1) by (simp add: buckets_wf_def btm_get_eq_Some_iff)
    then have "length (snd b) \<le> btm_sum length ?rb" by (rule btm_sum_get)
    with total len show "length (snd b) < 2 ^ 64" by simp
  qed
  obtain m where m: "bucket_multiplier amount ?rb = Some m"
    using bucket_multiplier_total [OF rb(1) ne] total len by (meson le_less_trans)
  have out: "\<exists>rw. pay_out ?rb c [] = Some rw \<and> paid rw = unat amount \<and> btm_wf rw \<and>
      (\<forall>n a k t. (n, a, k, t) \<in> set rw \<longrightarrow> in_bucket ?rb n a k)" if "rounds m ?rb [] amount = Some c" for c
  proof -
    have "btm_wf c \<and> counted c = unat amount \<and> fst ` set c \<subseteq> fst ` set ?rb"
      using rounds_conserves [OF that] unat_less_2p [of amount] by simp
    with pay_out_total [OF rb small, of c "[]"] show ?thesis by (simp add: btm_wf_distinct)
  qed
  have eq: "distribute_rewards amount nodes = (case rounds m ?rb [] amount of
      None \<Rightarrow> None | Some counters \<Rightarrow> pay_out ?rb counters [])"
    using ne m by (simp add: distribute_rewards_def distribute_def)
  have "distribute_rewards amount nodes \<noteq> None \<longleftrightarrow> rounds m ?rb [] amount \<noteq> None"
    using out by (auto simp: eq split: option.splits)
  also have "\<dots> \<longleftrightarrow> amount = 0 \<or> owed m ?rb"
    using rounds_returns [of m ?rb "[]" amount] rounds_stuck [of m ?rb "[]" amount]
    by (auto simp: rounds.simps [of m ?rb "[]" 0])
  finally have returns: "distribute_rewards amount nodes \<noteq> None \<longleftrightarrow> amount = 0 \<or> owed m ?rb" .
  have "btm_wf rw \<and> paid rw = unat amount \<and>
      (\<forall>n a k t. btm_get rw n = Some (a, k, t) \<longrightarrow> btm_get nodes n = Some (a, k) \<and> a \<ge> MIN_REWARD_AGE)"
    if rw: "distribute_rewards amount nodes = Some rw" for rw
  proof -
    obtain c where "rounds m ?rb [] amount = Some c" "pay_out ?rb c [] = Some rw"
      using rw by (auto simp: eq split: option.splits)
    with out have "paid rw = unat amount" "btm_wf rw" "\<forall>n a k t. (n, a, k, t) \<in> set rw \<longrightarrow> in_bucket ?rb n a k"
      by fastforce+
    with in_get_buckets [OF wf] show ?thesis by (metis btm_get_eq_Some_iff)
  qed
  with m returns show ?thesis by blast
qed

text \<open>
  C8. The distribution of rewards ends and conserves the amount: with at least one node old enough
  for a reward, it returns precisely when there is nothing to distribute or some age class is owed
  something per round (in 64-bit arithmetic), and then the rewards add up to exactly the amount
  and go only to nodes of the section of at least the minimal age, to their own wallets.
\<close>

theorem distribute_rewards_conserves:
  assumes "btm_wf nodes" and "length nodes < 2 ^ 56"
    and "btm_get nodes n0 = Some (a0, k0)" and "a0 \<ge> MIN_REWARD_AGE"
  shows "\<exists>m. bucket_multiplier amount (get_buckets nodes) = Some m \<and>
    (distribute_rewards amount nodes \<noteq> None \<longleftrightarrow> amount = 0 \<or> owed m (get_buckets nodes)) \<and>
    (\<forall>rw. distribute_rewards amount nodes = Some rw \<longrightarrow> btm_wf rw \<and> paid rw = unat amount \<and>
      (\<forall>n a k t. btm_get rw n = Some (a, k, t) \<longrightarrow> btm_get nodes n = Some (a, k) \<and> a \<ge> MIN_REWARD_AGE))"
proof (rule distribute_rewards_total [OF assms(1,2)])
  have "in_bucket (get_buckets nodes) n0 a0 k0" using assms by (simp add: in_get_buckets)
  then show "get_buckets nodes \<noteq> []" by auto
qed

definition two_nodes :: nodes where
  "two_nodes = [(1, 6, Ed25519 1), (2, 7, Ed25519 2)]"

theorem distribute_rewards_conserves_witness:
  "\<exists>rw. distribute_rewards 100 two_nodes = Some rw \<and> paid rw = 100"
proof -
  have wf: "btm_wf two_nodes" "length two_nodes < 2 ^ 56" by (simp_all add: two_nodes_def)
  have n: "btm_get two_nodes 1 = Some (6, Ed25519 1)" "(6 :: u8) \<ge> MIN_REWARD_AGE"
    by (simp_all add: two_nodes_def MIN_REWARD_AGE_def)
  have b: "get_buckets two_nodes = [(6, [(1, Ed25519 1)]), (7, [(2, Ed25519 2)])]"
    by (simp add: get_buckets_def two_nodes_def add_to_bucket_def MIN_REWARD_AGE_def)
  have "bucket_multiplier 100 (get_buckets two_nodes) = Some 1"
    by (simp add: b bucket_multiplier_def checked_div_def dec_len.simps Let_def)
  moreover have "owed 1 (get_buckets two_nodes)" by (simp add: b bucket_reward_def proportional_work_def)
  ultimately have "distribute_rewards 100 two_nodes \<noteq> None \<and>
      (\<forall>rw. distribute_rewards 100 two_nodes = Some rw \<longrightarrow> paid rw = 100)"
    using distribute_rewards_conserves [OF wf n, of 100] by simp
  then show ?thesis by blast
qed

text \<open>
  With very old nodes the distribution never ends: if every node old enough for a reward has
  reached age 64, the work of each age class, a power of two in 64 bits, has wrapped around to
  zero, no round pays anything, and the loop runs forever on any amount but zero.
\<close>

theorem distribution_diverges:
  assumes "btm_wf nodes" and "length nodes < 2 ^ 56"
    and "btm_get nodes n0 = Some (a0, k0)" and "a0 \<ge> MIN_REWARD_AGE"
    and "\<forall>n a k. btm_get nodes n = Some (a, k) \<longrightarrow> a \<ge> MIN_REWARD_AGE \<longrightarrow> a \<ge> 64" and "amount \<noteq> 0"
  shows "distribute_rewards amount nodes = None"
proof -
  let ?rb = "get_buckets nodes"
  have in0: "in_bucket ?rb n0 a0 k0" using assms by (simp add: in_get_buckets)
  then have ne: "?rb \<noteq> []" by auto
  have rb: "buckets_wf ?rb" using assms(1) by (rule get_buckets_wf)
  have "\<not> owed m ?rb" for m
  proof
    assume "owed m ?rb"
    then obtain a ws where b: "(a, ws) \<in> set ?rb" "bucket_reward m a ws \<noteq> 0" by (auto simp: owed_def)
    then have get: "btm_get ?rb a = Some ws" using rb by (simp add: buckets_wf_def btm_get_eq_Some_iff)
    have "ws \<noteq> []" using buckets_wf_get [OF rb get] by (simp add: bucket_ok_def)
    then obtain n k where "btm_get ws n = Some k" by (cases ws) force+
    with get have "in_bucket ?rb n a k" by (auto simp: in_bucket_def)
    with assms(1,5) have "a \<ge> 64" by (auto simp: in_get_buckets)
    then have "proportional_work a = 0" by (simp add: proportional_work_def exp_eq_zero_iff word_le_nat_alt)
    with b(2) show False by (simp add: bucket_reward_def)
  qed
  with distribute_rewards_total [OF assms(1,2) ne, of amount] assms(6) show ?thesis by auto
qed

theorem distribution_diverges_witness:
  "distribute_rewards 1 [(0, 64, Ed25519 1)] = None"
  by (rule distribution_diverges [of _ 0 64 "Ed25519 1"]) (simp_all add: MIN_REWARD_AGE_def)

end
