(* ===== verification/Reward_Process.thy ===== *)
theory Reward_Process
  imports Reward_Stage Reward_Calc
begin

text \<open>
  The process by which the elders of a section agree on a reward payout
  (\<^verbatim>\<open>src/src/section_funds/reward_process.rs\<close>, \<^verbatim>\<open>elder_signing.rs\<close>): proposing credits, collecting
  signature shares on the proposals, accumulating shares on the agreed credits, completion. What
  the node asks of the network (its index, the section's key set, signatures) is a parameter
  of each step, since it may change between steps; a fresh message id likewise. \<^const>\<open>None\<close> is a
  call that does not return.
\<close>

section \<open>State\<close>

record OurSection =
  our_prefix :: Prefix
  our_key :: PublicKey

definition wallet_key :: "OurSection \<Rightarrow> PublicKey" where
  "wallet_key s = our_key s"

definition address :: "OurSection \<Rightarrow> XorName" where
  "address s = prefix_name (our_prefix s)"

record RewardProcess =
  rp_section :: OurSection
  stage :: RewardStage

record elder_network =
  net_our_index :: "nat result"
  net_public_key_set :: "PublicKeySet result"
  net_sign_credit :: "Credit \<Rightarrow> SignatureShare result"
  net_sign_signed_credit :: "SignedCredit \<Rightarrow> SignatureShare result"
  pk_to_string :: "PublicKey \<Rightarrow> string"
  fresh_id :: MessageId

definition reward_process_new :: "OurSection \<Rightarrow> RewardProcess" where
  "reward_process_new section = \<lparr>rp_section = section, stage = AwaitingThreshold\<rparr>"

section \<open>Signing as an elder\<close>

definition signing_our_index :: "elder_network \<Rightarrow> nat result" where
  "signing_our_index N = map_err (\<lambda>_. NoSectionPublicKeySet) (net_our_index N)"

definition signing_public_key_set :: "elder_network \<Rightarrow> PublicKeySet result" where
  "signing_public_key_set N = map_err (\<lambda>_. NoSectionPublicKeySet) (net_public_key_set N)"

definition elder_sign :: "SignatureShare result \<Rightarrow> Signature result" where
  "elder_sign outcome = (case outcome of
     Inl _ \<Rightarrow> Inl (NetworkData DtInvalidOperation)
   | Inr sh \<Rightarrow> Inr (SigBlsShare sh))"

text \<open>
  The verification of signatures: an elder signs in the name of the key set it had when the
  process was created. The checks of the cryptographic libraries are parameters.
\<close>

datatype (plugins only: code size) OwnerType = OwnerSingle PublicKey | OwnerMulti PublicKeySet

record verify_api =
  key_verifies :: "nat \<Rightarrow> nat \<Rightarrow> bytes \<Rightarrow> bool"
  public_key_verifies :: "PublicKey \<Rightarrow> Signature \<Rightarrow> bytes \<Rightarrow> bool"
  share_verifies :: "PublicKeySet \<Rightarrow> nat \<Rightarrow> nat \<Rightarrow> bytes \<Rightarrow> bool"

definition elder_signing_new :: "elder_network \<Rightarrow> OwnerType result" where
  "elder_signing_new N = and_then (net_public_key_set N) (\<lambda>key_set. Inr (OwnerMulti key_set))"

definition elder_verify :: "bls_api \<Rightarrow> verify_api \<Rightarrow> OwnerType \<Rightarrow> Signature \<Rightarrow> bytes option \<Rightarrow> bool" where
  "elder_verify B V owner sig serialised = (case serialised of
     None \<Rightarrow> False
   | Some data \<Rightarrow> (case sig of
       SigBls s \<Rightarrow> (case owner of OwnerMulti key_set \<Rightarrow> key_verifies V (public_key B key_set) s data | _ \<Rightarrow> False)
     | SigEd25519 s \<Rightarrow> (case owner of OwnerSingle pk \<Rightarrow> public_key_verifies V pk sig data | _ \<Rightarrow> False)
     | SigBlsShare s \<Rightarrow> (case owner of
         OwnerMulti key_set \<Rightarrow> share_verifies V key_set (share_index s) (share s) data
       | _ \<Rightarrow> False)))"

section \<open>Messages\<close>

definition send_prop_msg :: "elder_network \<Rightarrow> RewardProposal \<Rightarrow> XorName \<Rightarrow> NodeDuty" where
  "send_prop_msg N proposal our_elders = Send \<lparr>
     msg = NodeCmdM (NodeSystem (ProposeRewardPayout proposal)) (fresh_id N) None,
     dst = DstSection our_elders, section_source = False, aggregation = AggregationNone\<rparr>"

definition send_acc_msg :: "elder_network \<Rightarrow> RewardAccumulation \<Rightarrow> XorName \<Rightarrow> NodeDuty" where
  "send_acc_msg N accumulation our_elders = Send \<lparr>
     msg = NodeCmdM (NodeSystem (AccumulateRewardPayout accumulation)) (fresh_id N) None,
     dst = DstSection our_elders, section_source = False, aggregation = AggregationNone\<rparr>"

section \<open>Steps\<close>

definition sign_proposal :: "bls_api \<Rightarrow> elder_network \<Rightarrow> CreditId \<times> CreditProposal \<Rightarrow> RewardProposalDetails \<Rightarrow>
    unit result \<times> RewardProposalDetails" where
  "sign_proposal B N e d = (case elder_sign (net_sign_credit N (cp_proposal (snd e))) of
     Inl err \<Rightarrow> (Inl err, d)
   | Inr (SigBlsShare sig) \<Rightarrow> rpd_add_sig B (cp_id (snd e)) sig d
   | Inr _ \<Rightarrow> (Inl (InvalidOperation ''aarrgh''), d))"

definition sign_proposed_rewards :: "bls_api \<Rightarrow> elder_network \<Rightarrow> CreditProposal list \<Rightarrow>
    RewardProposalDetails result" where
  "sign_proposed_rewards B N rewards = (case signing_public_key_set N of
     Inl e \<Rightarrow> Inl e
   | Inr ks \<Rightarrow>
       let proposal = \<lparr>rpd_pk_set = ks, rpd_rewards = fold (\<lambda>c. btm_insert (cp_id c) c) rewards []\<rparr>
       in case try_fold (sign_proposal B N) (rpd_rewards proposal) proposal of
         (Inl e, _) \<Rightarrow> Inl e
       | (Inr _, d) \<Rightarrow> Inr d)"

definition sign_accumulation :: "bls_api \<Rightarrow> elder_network \<Rightarrow> CreditId \<times> CreditAccumulation \<Rightarrow>
    RewardAccumulationDetails \<Rightarrow> unit result \<times> RewardAccumulationDetails" where
  "sign_accumulation B N e d = (case elder_sign (net_sign_signed_credit N (ca_agreed_proposal (snd e))) of
     Inl err \<Rightarrow> (Inl err, d)
   | Inr (SigBlsShare sig) \<Rightarrow> rad_add_sig B (ca_id (snd e)) sig d
   | Inr _ \<Rightarrow> (Inl (InvalidOperation ''aarrgh''), d))"

definition sign_accumulating_rewards :: "bls_api \<Rightarrow> elder_network \<Rightarrow> CreditAccumulation list \<Rightarrow>
    RewardAccumulationDetails result" where
  "sign_accumulating_rewards B N rewards = (case signing_public_key_set N of
     Inl e \<Rightarrow> Inl e
   | Inr ks \<Rightarrow>
       let accumulation = \<lparr>rad_pk_set = ks, rad_rewards = fold (\<lambda>c. btm_insert (ca_id c) c) rewards []\<rparr>
       in case try_fold (sign_accumulation B N) (rad_rewards accumulation) accumulation of
         (Inl e, _) \<Rightarrow> Inl e
       | (Inr _, d) \<Rightarrow> Inr d)"

definition get_reward_credits :: "externals \<Rightarrow> elder_network \<Rightarrow> Token \<Rightarrow> PublicKey \<Rightarrow> nodes \<Rightarrow>
    CreditProposal list option" where
  "get_reward_credits E N amount section_key nodes =
     map_option (map (\<lambda>(node, age, wallet, reward). \<lparr>
         cp_proposal = \<lparr>credit_id = combine E [node, xor_name_of_key E section_key],
           credit_amount = reward, credit_recipient = wallet,
           credit_msg = ''Reward at age '' @ dec_string (unat age) @ '', from '' @ pk_to_string N section_key\<rparr>,
         cp_signatures = [], cp_pending_agreement = None\<rparr>))
       (distribute_rewards amount nodes)"

definition reward_and_mint :: "externals \<Rightarrow> bls_api \<Rightarrow> elder_network \<Rightarrow> Token \<Rightarrow> Token \<Rightarrow> nodes \<Rightarrow>
    RewardProcess \<Rightarrow> (NodeDuty result \<times> RewardProcess) option" where
  "reward_and_mint E B N payments section_managed our_nodes rp =
     (case checked_div MAX_SUPPLY (2 ^ prefix_bit_count (our_prefix (rp_section rp))) of
       None \<Rightarrow> None
     | Some max_supply \<Rightarrow>
         let amount = get_reward_and_mint_amount payments section_managed max_supply
         in map_option (\<lambda>reward_credits.
           (case sign_proposed_rewards B N reward_credits of
             Inl e \<Rightarrow> (Inl e, rp)
           | Inr proposal_details \<Rightarrow> (case signing_our_index N of
               Inl e \<Rightarrow> (Inl e, rp)
             | Inr index \<Rightarrow>
                 (Inr (send_prop_msg N (get_proposal proposal_details (wallet_key (rp_section rp)) index)
                    (address (rp_section rp))),
                  rp\<lparr>stage := ProposingCredits proposal_details\<rparr>))))
           (get_reward_credits E N amount (our_key (rp_section rp)) our_nodes))"

definition add_proposal_sigs :: "bls_api \<Rightarrow> SignedCreditShare list \<Rightarrow> RewardProposalDetails \<Rightarrow>
    unit result \<times> RewardProposalDetails" where
  "add_proposal_sigs B ps d = try_fold (\<lambda>p. rpd_add_sig B (fst p) (snd p))
     (map (\<lambda>p. (credit_id (scs_credit p), scs_actor_signature p)) ps) d"

definition add_accumulation_sigs :: "bls_api \<Rightarrow> AccumulatingReward list \<Rightarrow> RewardAccumulationDetails \<Rightarrow>
    unit result \<times> RewardAccumulationDetails" where
  "add_accumulation_sigs B ps d = try_fold (\<lambda>p. rad_add_sig B (fst p) (snd p))
     (map (\<lambda>p. (sc_id (ar_signed_credit p), ar_sig p)) ps) d"

definition fresh_proposal :: "Credit \<Rightarrow> CreditProposal" where
  "fresh_proposal c = \<lparr>cp_proposal = c, cp_signatures = [], cp_pending_agreement = None\<rparr>"

definition fresh_accumulation :: "SignedCredit \<Rightarrow> CreditAccumulation" where
  "fresh_accumulation c = \<lparr>ca_agreed_proposal = c, ca_signatures = [], ca_pending_agreement = None\<rparr>"

definition receive_churn_proposal :: "bls_api \<Rightarrow> elder_network \<Rightarrow> RewardProposal \<Rightarrow> RewardProcess \<Rightarrow>
    NodeDuty result \<times> RewardProcess" where
  "receive_churn_proposal B N proposal rp =
     (if rp_section_key proposal \<noteq> wallet_key (rp_section rp) then (Inl (TransferError InvalidOwner), rp)
      else let start =
          (case sign_proposed_rewards B N (map (\<lambda>s. fresh_proposal (scs_credit s)) (rp_rewards proposal)) of
             Inl e \<Rightarrow> (Inl e, rp)
           | Inr our_proposal \<Rightarrow> (case add_proposal_sigs B (rp_rewards proposal) our_proposal of
               (Inl e, _) \<Rightarrow> (Inl e, rp)
             | (Inr _, our_proposal') \<Rightarrow> (case signing_our_index N of
                 Inl e \<Rightarrow> (Inl e, rp)
               | Inr index \<Rightarrow>
                   (Inr (send_prop_msg N (get_proposal our_proposal' (wallet_key (rp_section rp)) index)
                      (address (rp_section rp))),
                    rp\<lparr>stage := ProposingCredits our_proposal'\<rparr>))))
        in case stage rp of
          StageNone \<Rightarrow> start
        | AwaitingThreshold \<Rightarrow> start
        | ProposingCredits proposal_details \<Rightarrow>
            (case add_proposal_sigs B (rp_rewards proposal) proposal_details of
              (Inl e, _) \<Rightarrow> (Inl e, rp)
            | (Inr _, proposal_details') \<Rightarrow> (case rpd_pending_agreements proposal_details' of
                Some rewards \<Rightarrow>
                  (case sign_accumulating_rewards B N (map (\<lambda>r. fresh_accumulation (snd r)) rewards) of
                    Inl e \<Rightarrow> (Inl e, rp)
                  | Inr our_acc \<Rightarrow> (case signing_our_index N of
                      Inl e \<Rightarrow> (Inl e, rp)
                    | Inr index \<Rightarrow>
                        (Inr (send_acc_msg N (get_accumulation our_acc (wallet_key (rp_section rp)) index)
                           (address (rp_section rp))),
                         rp\<lparr>stage := AccumulatingCredits our_acc\<rparr>)))
              | None \<Rightarrow> (Inr NoOp, rp\<lparr>stage := ProposingCredits proposal_details'\<rparr>)))
        | AccumulatingCredits _ \<Rightarrow> (Inr NoOp, rp)
        | Completed _ \<Rightarrow> (Inr NoOp, rp))"

definition receive_wallet_accumulation :: "bls_api \<Rightarrow> elder_network \<Rightarrow> RewardAccumulation \<Rightarrow> RewardProcess \<Rightarrow>
    NodeDuty result \<times> RewardProcess" where
  "receive_wallet_accumulation B N new_acc rp =
     (if ra_section_key new_acc \<noteq> wallet_key (rp_section rp) then (Inl (TransferError InvalidOwner), rp)
      else let start =
          (case sign_accumulating_rewards B N
               (map (\<lambda>r. fresh_accumulation (ar_signed_credit r)) (ra_rewards new_acc)) of
             Inl e \<Rightarrow> (Inl e, rp)
           | Inr our_acc \<Rightarrow> (case add_accumulation_sigs B (ra_rewards new_acc) our_acc of
               (Inl e, _) \<Rightarrow> (Inl e, rp)
             | (Inr _, our_acc') \<Rightarrow> (case signing_our_index N of
                 Inl e \<Rightarrow> (Inl e, rp)
               | Inr index \<Rightarrow>
                   (Inr (send_acc_msg N (get_accumulation our_acc' (wallet_key (rp_section rp)) index)
                      (address (rp_section rp))),
                    rp\<lparr>stage := AccumulatingCredits our_acc'\<rparr>))))
        in case stage rp of
          AwaitingThreshold \<Rightarrow> start
        | ProposingCredits _ \<Rightarrow> start
        | AccumulatingCredits our_acc \<Rightarrow>
            (case add_accumulation_sigs B (ra_rewards new_acc) our_acc of
              (Inl e, _) \<Rightarrow> (Inl e, rp)
            | (Inr _, our_acc') \<Rightarrow> (case rad_pending_agreements our_acc' of
                Some credit_proofs \<Rightarrow> (Inr NoOp, rp\<lparr>stage := Completed credit_proofs\<rparr>)
              | None \<Rightarrow> (Inr NoOp, rp\<lparr>stage := AccumulatingCredits our_acc'\<rparr>)))
        | Completed _ \<Rightarrow> (Inr NoOp, rp)
        | StageNone \<Rightarrow> (Inl InvalidRewardStage, rp))"

section \<open>Signatures of an elder\<close>

text \<open>
  An elder accepts its own signature while the key set is the one it started with, and never the
  signature of a single key.
\<close>

lemma own_signature_accepted:
  assumes "elder_signing_new N = Inr owner" and "net_public_key_set N = Inr key_set" and "elder_sign outcome = Inr sig"
    and "\<And>s. outcome = Inr s \<Longrightarrow> share_verifies V key_set (share_index s) (share s) data"
  shows "elder_verify B V owner sig (Some data)"
  using assms by (auto simp: elder_signing_new_def elder_sign_def elder_verify_def split: sum.split_asm)

lemma single_signature_rejected: "elder_signing_new N = Inr owner \<Longrightarrow> \<not> elder_verify B V owner (SigEd25519 s) data"
  by (auto simp: elder_signing_new_def elder_verify_def and_then_def split: sum.split_asm option.split)

section \<open>The invariant\<close>

definition rpd_inv :: "bls_api \<Rightarrow> RewardProposalDetails \<Rightarrow> bool" where
  "rpd_inv B d \<longleftrightarrow> rpd_wf d \<and>
     shares_exact (threshold B (rpd_pk_set d)) (combine_signatures B (rpd_pk_set d)) (rpd_sigs d) (rpd_agreed d)"

definition rad_inv :: "bls_api \<Rightarrow> RewardAccumulationDetails \<Rightarrow> bool" where
  "rad_inv B d \<longleftrightarrow> rad_wf d \<and>
     shares_exact (threshold B (rad_pk_set d)) (combine_signatures B (rad_pk_set d)) (rad_sigs d) (rad_agreed d)"

text \<open>
  A credit agreement proof that a quorum stands behind: its signature is the combination of
  shares of more elders of the key set it names than the threshold of that set.
\<close>

definition quorum_signature :: "bls_api \<Rightarrow> PublicKeySet \<Rightarrow> Signature \<Rightarrow> bool" where
  "quorum_signature B ks sig \<longleftrightarrow> (\<exists>sigs s. btm_wf sigs \<and> threshold B ks < length sigs \<and>
     combine_signatures B ks sigs = Some s \<and> sig = SigBls s)"

fun stage_inv :: "bls_api \<Rightarrow> RewardStage \<Rightarrow> bool" where
  "stage_inv B (ProposingCredits d) \<longleftrightarrow> rpd_inv B d"
| "stage_inv B (AccumulatingCredits d) \<longleftrightarrow> rad_inv B d"
| "stage_inv B (Completed m) \<longleftrightarrow> btm_wf m \<and> (\<forall>(i, p) \<in> set m. cap_id p = i \<and>
     quorum_signature B (cap_debiting_replicas_keys p) (cap_debiting_replicas_sig p))"
| "stage_inv B _ \<longleftrightarrow> True"

lemma rpd_add_sig_inv: "rpd_add_sig B i s d = (Inr (), d') \<Longrightarrow> rpd_inv B d \<Longrightarrow> rpd_inv B d'"
  using proposing.exact_add [of B i s d d'] by (simp add: rpd_inv_def rpd_add_sig_wf)

lemma rad_add_sig_inv: "rad_add_sig B i s d = (Inr (), d') \<Longrightarrow> rad_inv B d \<Longrightarrow> rad_inv B d'"
  using accumulating.exact_add [of B i s d d'] by (simp add: rad_inv_def rad_add_sig_wf)

lemma add_proposal_sigs_inv:
  "add_proposal_sigs B ps d = (Inr (), d') \<Longrightarrow> rpd_inv B d \<Longrightarrow> rpd_inv B d'"
  unfolding add_proposal_sigs_def
  by (erule try_fold_invariant) (auto intro: rpd_add_sig_inv)

lemma add_accumulation_sigs_inv:
  "add_accumulation_sigs B ps d = (Inr (), d') \<Longrightarrow> rad_inv B d \<Longrightarrow> rad_inv B d'"
  unfolding add_accumulation_sigs_def
  by (erule try_fold_invariant) (auto intro: rad_add_sig_inv)

text \<open>Entries without shares form an exact collection.\<close>

lemma fold_insert_wf:
  assumes "btm_wf m"
  shows "btm_wf (fold (\<lambda>c. btm_insert (f c) c) cs m) \<and>
    set (fold (\<lambda>c. btm_insert (f c) c) cs m) \<subseteq> (\<lambda>c. (f c, c)) ` set cs \<union> set m \<and>
    fst ` set (fold (\<lambda>c. btm_insert (f c) c) cs m) = f ` set cs \<union> fst ` set m"
  using assms
proof (induction cs arbitrary: m)
  case (Cons c cs)
  show ?case
    using Cons.IH [of "btm_insert (f c) c m"] Cons.prems
    by (auto simp: btm_insert_set keys_btm_insert)
qed simp

lemma fresh_rpd_inv:
  assumes "\<forall>c \<in> set cs. cp_signatures c = [] \<and> cp_pending_agreement c = None"
  shows "rpd_inv B \<lparr>rpd_pk_set = ks, rpd_rewards = fold (\<lambda>c. btm_insert (cp_id c) c) cs []\<rparr>"
proof -
  let ?m = "fold (\<lambda>c. btm_insert (cp_id c) c) cs []"
  have sub: "set ?m \<subseteq> (\<lambda>c. (cp_id c, c)) ` set cs" and wf: "btm_wf ?m"
    using fold_insert_wf [of "[]" cp_id cs] by auto
  have fresh: "e \<in> set ?m \<Longrightarrow> cp_id (snd e) = fst e \<and> cp_signatures (snd e) = [] \<and> cp_pending_agreement (snd e) = None" for e
    using sub assms by auto
  then have "\<forall>e \<in> set ?m. cp_wf e" by (simp add: cp_wf_def)
  moreover have "btm_get ?m i = Some c \<Longrightarrow> cp_signatures c = [] \<and> cp_pending_agreement c = None" for i c
    using fresh [of "(i, c)"] by (auto dest: map_of_SomeD)
  ultimately show ?thesis
    using wf by (auto simp: rpd_inv_def rpd_wf_def shares_exact_def entry_exact_def rpd_sigs_def rpd_agreed_def)
qed

lemma fresh_rad_inv:
  assumes "\<forall>c \<in> set cs. ca_signatures c = [] \<and> ca_pending_agreement c = None"
  shows "rad_inv B \<lparr>rad_pk_set = ks, rad_rewards = fold (\<lambda>c. btm_insert (ca_id c) c) cs []\<rparr>"
proof -
  let ?m = "fold (\<lambda>c. btm_insert (ca_id c) c) cs []"
  have sub: "set ?m \<subseteq> (\<lambda>c. (ca_id c, c)) ` set cs" and wf: "btm_wf ?m"
    using fold_insert_wf [of "[]" ca_id cs] by auto
  have fresh: "e \<in> set ?m \<Longrightarrow> ca_id (snd e) = fst e \<and> ca_signatures (snd e) = [] \<and> ca_pending_agreement (snd e) = None" for e
    using sub assms by auto
  then have "\<forall>e \<in> set ?m. ca_wf ks e" by (simp add: ca_wf_def)
  moreover have "btm_get ?m i = Some c \<Longrightarrow> ca_signatures c = [] \<and> ca_pending_agreement c = None" for i c
    using fresh [of "(i, c)"] by (auto dest: map_of_SomeD)
  ultimately show ?thesis
    using wf by (auto simp: rad_inv_def rad_wf_def shares_exact_def entry_exact_def rad_sigs_def rad_agreed_def)
qed

lemma sign_proposal_ok:
  "sign_proposal B N e d = (Inr (), d') \<Longrightarrow> \<exists>sig. rpd_add_sig B (cp_id (snd e)) sig d = (Inr (), d')"
  by (auto simp: sign_proposal_def elder_sign_def split: sum.splits)

lemma sign_accumulation_ok:
  "sign_accumulation B N e d = (Inr (), d') \<Longrightarrow> \<exists>sig. rad_add_sig B (ca_id (snd e)) sig d = (Inr (), d')"
  by (auto simp: sign_accumulation_def elder_sign_def split: sum.splits)

lemma sign_proposed_rewards_inv:
  assumes "sign_proposed_rewards B N cs = Inr d"
    and "\<forall>c \<in> set cs. cp_signatures c = [] \<and> cp_pending_agreement c = None"
  shows "rpd_inv B d"
proof -
  obtain ks where "try_fold (sign_proposal B N) (fold (\<lambda>c. btm_insert (cp_id c) c) cs [])
      \<lparr>rpd_pk_set = ks, rpd_rewards = fold (\<lambda>c. btm_insert (cp_id c) c) cs []\<rparr> = (Inr (), d)"
    using assms(1) by (auto simp: sign_proposed_rewards_def Let_def split: sum.splits prod.splits)
  then show ?thesis
    by (rule try_fold_invariant [where P = "rpd_inv B"])
      (auto simp: fresh_rpd_inv assms(2) dest!: sign_proposal_ok intro: rpd_add_sig_inv)
qed

lemma sign_accumulating_rewards_inv:
  assumes "sign_accumulating_rewards B N cs = Inr d"
    and "\<forall>c \<in> set cs. ca_signatures c = [] \<and> ca_pending_agreement c = None"
  shows "rad_inv B d"
proof -
  obtain ks where "try_fold (sign_accumulation B N) (fold (\<lambda>c. btm_insert (ca_id c) c) cs [])
      \<lparr>rad_pk_set = ks, rad_rewards = fold (\<lambda>c. btm_insert (ca_id c) c) cs []\<rparr> = (Inr (), d)"
    using assms(1) by (auto simp: sign_accumulating_rewards_def Let_def split: sum.splits prod.splits)
  then show ?thesis
    by (rule try_fold_invariant [where P = "rad_inv B"])
      (auto simp: fresh_rad_inv assms(2) dest!: sign_accumulation_ok intro: rad_add_sig_inv)
qed

text \<open>A complete collection: every proof in it has a quorum.\<close>

lemma rad_agreement_quorum:
  assumes "rad_inv B d" and "btm_get (rad_rewards d) i = Some c" and "ca_pending_agreement c = Some p"
  shows "cap_id p = i \<and> quorum_signature B (cap_debiting_replicas_keys p) (cap_debiting_replicas_sig p)"
proof -
  have wf: "ca_wf (rad_pk_set d) (i, c)"
    using assms(1) map_of_SomeD [OF assms(2)] by (auto simp: rad_inv_def rad_wf_def)
  have ex: "entry_exact (threshold B (rad_pk_set d)) (combine_signatures B (rad_pk_set d))
      (ca_signatures c) (rad_agreed d i)"
    using assms(1,2) by (simp add: rad_inv_def shares_exact_def rad_sigs_def)
  have ag: "rad_agreed d i = bls_signature (cap_debiting_replicas_sig p)"
    using assms(2,3) by (simp add: rad_agreed_def)
  obtain s where s: "cap_debiting_replicas_sig p = SigBls s"
    using wf assms(3) by (cases "cap_debiting_replicas_sig p") (auto simp: ca_wf_def)
  with ex ag have "threshold B (rad_pk_set d) < length (ca_signatures c)"
      "combine_signatures B (rad_pk_set d) (ca_signatures c) = Some s" "btm_wf (ca_signatures c)"
    by (auto simp: entry_exact_def split: if_splits)
  with wf assms(3) s show ?thesis by (auto simp: quorum_signature_def ca_wf_def ca_id_def cap_id_def sc_id_def)
qed

lemma completed_inv:
  assumes "rad_inv B d" and "rad_pending_agreements d = Some m"
  shows "stage_inv B (Completed m)"
proof -
  let ?ps = "List.map_filter ca_pending_agreement (map snd (rad_rewards d))"
  have wf: "rad_wf d" using assms(1) by (simp add: rad_inv_def)
  note pend = rad_pending_agreements_iff [OF wf]
  have m: "m = fold (\<lambda>c. btm_insert (cap_id c) c) ?ps []" using assms(2) pend(1) by blast
  have "quorum_signature B (cap_debiting_replicas_keys p) (cap_debiting_replicas_sig p)" if p: "p \<in> set ?ps" for p
  proof -
    obtain i c where "(i, c) \<in> set (rad_rewards d)" "ca_pending_agreement c = Some p"
      using p by (auto simp: map_filter_def)
    moreover have "btm_wf (rad_rewards d)" using wf by (simp add: rad_wf_def)
    ultimately show ?thesis
      using rad_agreement_quorum [OF assms(1)] by (metis btm_get_eq_Some_iff)
  qed
  with fold_insert_collect(2,3) [OF pend(2)] show ?thesis by (auto simp: m)
qed

section \<open>Steps keep the invariant\<close>

lemma reward_and_mint_cases:
  assumes "reward_and_mint E B N payments managed nodes rp = Some (r, rp')"
  obtains (failed) e where "r = Inl e" "rp' = rp"
  | (proposed) ms cs d k where
      "checked_div MAX_SUPPLY (2 ^ prefix_bit_count (our_prefix (rp_section rp))) = Some ms"
      "get_reward_credits E N (get_reward_and_mint_amount payments managed ms) (our_key (rp_section rp)) nodes = Some cs"
      "sign_proposed_rewards B N cs = Inr d" "signing_our_index N = Inr k"
      "r = Inr (send_prop_msg N (get_proposal d (wallet_key (rp_section rp)) k) (address (rp_section rp)))"
      "rp' = rp\<lparr>stage := ProposingCredits d\<rparr>"
proof -
  from assms obtain ms cs where
      ms: "checked_div MAX_SUPPLY (2 ^ prefix_bit_count (our_prefix (rp_section rp))) = Some ms"
    and cs: "get_reward_credits E N (get_reward_and_mint_amount payments managed ms) (our_key (rp_section rp)) nodes = Some cs"
    and eq: "(case sign_proposed_rewards B N cs of
        Inl e \<Rightarrow> (Inl e, rp)
      | Inr d \<Rightarrow> (case signing_our_index N of
          Inl e \<Rightarrow> (Inl e, rp)
        | Inr index \<Rightarrow> (Inr (send_prop_msg N (get_proposal d (wallet_key (rp_section rp)) index)
            (address (rp_section rp))), rp\<lparr>stage := ProposingCredits d\<rparr>))) = (r, rp')"
    by (auto simp: reward_and_mint_def Let_def split: option.splits)
  show ?thesis
  proof (cases "sign_proposed_rewards B N cs")
    case (Inl e)
    with eq show ?thesis by (intro failed) auto
  next
    case (Inr d)
    show ?thesis
    proof (cases "signing_our_index N")
      case (Inl e)
      with eq \<open>sign_proposed_rewards B N cs = Inr d\<close> show ?thesis by (intro failed) auto
    next
      case (Inr k)
      with eq \<open>sign_proposed_rewards B N cs = Inr d\<close> show ?thesis by (intro proposed [OF ms cs]) auto
    qed
  qed
qed

lemma reward_and_mint_inv:
  assumes "reward_and_mint E B N payments managed nodes rp = Some (r, rp')" and "stage_inv B (stage rp)"
  shows "stage_inv B (stage rp')"
  using assms(1)
proof (cases rule: reward_and_mint_cases)
  case failed
  with assms(2) show ?thesis by simp
next
  case (proposed ms cs d k)
  then have "rpd_inv B d"
    by (intro sign_proposed_rewards_inv [OF proposed(3)]) (auto simp: get_reward_credits_def)
  with proposed show ?thesis by simp
qed

lemma receive_churn_proposal_inv:
  assumes "receive_churn_proposal B N proposal rp = (r, rp')" and "stage_inv B (stage rp)"
  shows "stage_inv B (stage rp')"
proof -
  have start: "rpd_inv B d'" if "sign_proposed_rewards B N (map (\<lambda>s. fresh_proposal (scs_credit s)) ps) = Inr d"
      "add_proposal_sigs B qs d = (Inr u, d')" for ps qs d d' u
    using that sign_proposed_rewards_inv [OF that(1)] add_proposal_sigs_inv [of B qs d d']
    by (simp add: fresh_proposal_def)
  have next_stage: "rad_inv B d" if "sign_accumulating_rewards B N (map (\<lambda>r. fresh_accumulation (snd r)) ps) = Inr d"
    for ps :: "(CreditId \<times> SignedCredit) list" and d
    by (rule sign_accumulating_rewards_inv [OF that]) (auto simp: fresh_accumulation_def)
  show ?thesis
  proof (cases "rp' = rp")
    case True
    with assms(2) show ?thesis by simp
  next
    case False
    with assms show ?thesis
      by (auto simp: receive_churn_proposal_def Let_def start next_stage
          intro: add_proposal_sigs_inv split: if_splits RewardStage.splits sum.splits prod.splits option.splits)
  qed
qed

lemma receive_wallet_accumulation_inv:
  assumes "receive_wallet_accumulation B N new_acc rp = (r, rp')" and "stage_inv B (stage rp)"
  shows "stage_inv B (stage rp')"
proof -
  have start: "rad_inv B d'"
    if "sign_accumulating_rewards B N (map (\<lambda>r. fresh_accumulation (ar_signed_credit r)) ps) = Inr d"
      "add_accumulation_sigs B qs d = (Inr u, d')" for ps qs d d' u
    using that sign_accumulating_rewards_inv [OF that(1)] add_accumulation_sigs_inv [of B qs d d']
    by (simp add: fresh_accumulation_def)
  show ?thesis
  proof (cases "rp' = rp")
    case True
    with assms(2) show ?thesis by simp
  next
    case False
    with assms show ?thesis
      by (auto simp: receive_wallet_accumulation_def Let_def start simp del: stage_inv.simps(3)
          intro: completed_inv [OF add_accumulation_sigs_inv] add_accumulation_sigs_inv
          split: if_splits RewardStage.splits sum.splits prod.splits option.splits)
  qed
qed

section \<open>Runs\<close>

text \<open>The states of the process under any sequence of steps, with any network and any messages.\<close>

inductive reward_reachable :: "bls_api \<Rightarrow> OurSection \<Rightarrow> RewardProcess \<Rightarrow> bool" for B sec where
  init: "reward_reachable B sec (reward_process_new sec)"
| mint: "reward_reachable B sec rp \<Longrightarrow>
    reward_and_mint E B N payments managed nodes rp = Some (r, rp') \<Longrightarrow> reward_reachable B sec rp'"
| proposal: "reward_reachable B sec rp \<Longrightarrow>
    receive_churn_proposal B N p rp = (r, rp') \<Longrightarrow> reward_reachable B sec rp'"
| accumulation: "reward_reachable B sec rp \<Longrightarrow>
    receive_wallet_accumulation B N a rp = (r, rp') \<Longrightarrow> reward_reachable B sec rp'"

lemma reward_reachable_inv: "reward_reachable B sec rp \<Longrightarrow> stage_inv B (stage rp)"
proof (induction rule: reward_reachable.induct)
  case init
  then show ?case by (simp add: reward_process_new_def)
qed (auto intro: reward_and_mint_inv receive_churn_proposal_inv receive_wallet_accumulation_inv)

section \<open>Completion\<close>

lemma dom_rad_sigs: "dom (rad_sigs d) = fst ` set (rad_rewards d)"
  by (auto simp: rad_sigs_def dom_map_of_conv_image_fst [symmetric])

lemma completed_keys:
  assumes "rad_wf d" and "rad_pending_agreements d = Some m"
  shows "fst ` set m = fst ` set (rad_rewards d)"
proof -
  let ?ps = "List.map_filter ca_pending_agreement (map snd (rad_rewards d))"
  note pend = rad_pending_agreements_iff [OF assms(1)]
  have all: "\<forall>e \<in> set (rad_rewards d). ca_pending_agreement (snd e) \<noteq> None"
    and m: "m = fold (\<lambda>c. btm_insert (cap_id c) c) ?ps []" using assms(2) pend(1) by blast+
  have wf: "ca_wf (rad_pk_set d) e" if "e \<in> set (rad_rewards d)" for e
    using assms(1) that by (simp add: rad_wf_def)
  have id: "cap_id p = fst e" if "e \<in> set (rad_rewards d)" "ca_pending_agreement (snd e) = Some p" for e p
    using wf [OF that(1)] that(2) by (auto simp: ca_wf_def ca_id_def cap_id_def sc_id_def)
  have "cap_id ` set ?ps = fst ` set (rad_rewards d)"
    using all id by (force simp: map_filter_def)
  then show ?thesis using fold_insert_collect(2) [OF pend(2)] by (simp add: m image_image)
qed

text \<open>A run of accumulation messages, each handled with the network as it is then.\<close>

fun run_accumulations :: "bls_api \<Rightarrow> (elder_network \<times> RewardAccumulation) list \<Rightarrow> RewardProcess \<Rightarrow> RewardProcess" where
  "run_accumulations B [] rp = rp"
| "run_accumulations B ((N, a) # msgs) rp =
     run_accumulations B msgs (snd (receive_wallet_accumulation B N a rp))"

lemma run_accumulations_append:
  "run_accumulations B (xs @ ys) rp = run_accumulations B ys (run_accumulations B xs rp)"
  by (induction B xs rp rule: run_accumulations.induct) auto

text \<open>The shares an accumulation message brings, and the indices they have for a credit.\<close>

definition acc_shares :: "RewardAccumulation \<Rightarrow> (CreditId \<times> SignatureShare) list" where
  "acc_shares a = map (\<lambda>p. (sc_id (ar_signed_credit p), ar_sig p)) (ra_rewards a)"

definition share_indices :: "RewardAccumulation list \<Rightarrow> CreditId \<Rightarrow> nat set" where
  "share_indices as i = (\<lambda>p. share_index (snd p)) ` {p \<in> set (concat (map acc_shares as)). fst p = i}"

lemma share_indices_simps [simp]:
  "share_indices [] i = {}"
  "share_indices (as @ bs) i = share_indices as i \<union> share_indices bs i"
  by (auto simp: share_indices_def)

definition acceptable :: "RewardProcess \<Rightarrow> RewardAccumulationDetails \<Rightarrow> RewardAccumulation \<Rightarrow> bool" where
  "acceptable rp d a \<longleftrightarrow> ra_section_key a = our_key (rp_section rp) \<and>
     (\<forall>p \<in> set (acc_shares a). fst p \<in> fst ` set (rad_rewards d))"

lemma accumulating_step:
  assumes "stage rp = AccumulatingCredits d" and "rad_inv B d" and "acceptable rp d a"
    and "\<And>m. threshold B (rad_pk_set d) < length m \<Longrightarrow> combine_signatures B (rad_pk_set d) m \<noteq> None"
  obtains d' where "rad_inv B d'" "rad_pk_set d' = rad_pk_set d"
    "fst ` set (rad_rewards d') = fst ` set (rad_rewards d)"
    "\<And>i m. rad_sigs d i = Some m \<Longrightarrow> \<exists>m'. rad_sigs d' i = Some m' \<and>
      fst ` set m' = fst ` set m \<union> share_indices [a] i"
    "snd (receive_wallet_accumulation B N a rp) = rp\<lparr>stage := (case rad_pending_agreements d' of
        Some m \<Rightarrow> Completed m | None \<Rightarrow> AccumulatingCredits d')\<rparr>"
proof -
  have "\<forall>p \<in> set (acc_shares a). rad_sigs d (fst p) \<noteq> None"
    using assms(3) unfolding acceptable_def dom_rad_sigs [symmetric] by blast
  from accumulating.adds_succeed [OF this assms(4)] obtain d' where
    d': "try_fold (\<lambda>p. rad_add_sig B (fst p) (snd p)) (acc_shares a) d = (Inr (), d')" by blast
  then have adds: "add_accumulation_sigs B (ra_rewards a) d = (Inr (), d')"
    by (simp add: add_accumulation_sigs_def acc_shares_def)
  show ?thesis
  proof (rule that [of d'])
    show inv: "rad_inv B d'" using add_accumulation_sigs_inv [OF adds assms(2)] .
    show "rad_pk_set d' = rad_pk_set d"
      by (rule try_fold_invariant [OF d', of "\<lambda>x. rad_wf x \<and> rad_pk_set x = rad_pk_set d", THEN conjunct2])
        (use assms(2) in \<open>auto simp: rad_inv_def dest: rad_add_sig_wf\<close>)
    show "fst ` set (rad_rewards d') = fst ` set (rad_rewards d)"
      using accumulating.adds_frame [OF d'] by (simp add: dom_rad_sigs)
    show "\<exists>m'. rad_sigs d' i = Some m' \<and> fst ` set m' = fst ` set m \<union> share_indices [a] i"
      if "rad_sigs d i = Some m" for i m
      using accumulating.adds_indices [OF d' that] by (simp add: share_indices_def)
    show "snd (receive_wallet_accumulation B N a rp) = rp\<lparr>stage := (case rad_pending_agreements d' of
        Some m \<Rightarrow> Completed m | None \<Rightarrow> AccumulatingCredits d')\<rparr>"
      using assms(1,3) adds
      by (simp add: receive_wallet_accumulation_def acceptable_def wallet_key_def split: option.split)
  qed
qed

lemma completed_step: "stage rp = Completed m \<Longrightarrow> stage (snd (receive_wallet_accumulation B N a rp)) = Completed m"
  by (simp add: receive_wallet_accumulation_def)

text \<open>After some messages: completed, or still waiting with all their shares collected.\<close>

lemma run_accumulations_state:
  assumes "stage rp = AccumulatingCredits d" and "rad_inv B d" and "\<forall>x \<in> set msgs. acceptable rp d (snd x)"
    and comb: "\<And>m. threshold B (rad_pk_set d) < length m \<Longrightarrow> combine_signatures B (rad_pk_set d) m \<noteq> None"
    and "msgs \<noteq> []"
  shows "(\<exists>m. stage (run_accumulations B msgs rp) = Completed m \<and> fst ` set m = fst ` set (rad_rewards d)) \<or>
    (\<exists>d'. run_accumulations B msgs rp = rp\<lparr>stage := AccumulatingCredits d'\<rparr> \<and> rad_inv B d' \<and>
      rad_pk_set d' = rad_pk_set d \<and> fst ` set (rad_rewards d') = fst ` set (rad_rewards d) \<and>
      rad_pending_agreements d' = None \<and>
      (\<forall>i m. rad_sigs d' i = Some m \<longrightarrow> share_indices (map snd msgs) i \<subseteq> fst ` set m))"
  (is "?completed msgs \<or> ?waiting msgs")
  using assms(3,5)
proof (induction msgs rule: rev_induct)
  case (snoc x msgs)
  obtain N a where x: "x = (N, a)" by (cases x)
  let ?rp = "run_accumulations B msgs rp"
  have acc: "acceptable rp d a" using snoc.prems(1) by (simp add: x)
  have step: "run_accumulations B (msgs @ [x]) rp = snd (receive_wallet_accumulation B N a ?rp)"
    by (simp add: run_accumulations_append x)
  show ?case
  proof (cases "?completed msgs \<and> msgs \<noteq> []")
    case True
    then show ?thesis using completed_step [of ?rp _ B N a] by (auto simp: step)
  next
    case False
    have "\<exists>d0. ?rp = rp\<lparr>stage := AccumulatingCredits d0\<rparr> \<and> rad_inv B d0 \<and> rad_pk_set d0 = rad_pk_set d \<and>
        fst ` set (rad_rewards d0) = fst ` set (rad_rewards d) \<and>
        (\<forall>i m. rad_sigs d0 i = Some m \<longrightarrow> share_indices (map snd msgs) i \<subseteq> fst ` set m)"
    proof (cases "msgs = []")
      case True
      with assms(1,2) show ?thesis by (intro exI [of _ d]) simp
    next
      case nonempty: False
      with False have "\<not> ?completed msgs" by blast
      with snoc.IH nonempty snoc.prems(1) have "?waiting msgs" by auto
      then show ?thesis by blast
    qed
    then obtain d0 where d0: "?rp = rp\<lparr>stage := AccumulatingCredits d0\<rparr>" "rad_inv B d0" "rad_pk_set d0 = rad_pk_set d"
        "fst ` set (rad_rewards d0) = fst ` set (rad_rewards d)"
        "\<And>i m. rad_sigs d0 i = Some m \<Longrightarrow> share_indices (map snd msgs) i \<subseteq> fst ` set m"
      by blast
    have "stage ?rp = AccumulatingCredits d0" "acceptable ?rp d0 a"
      using d0(1,4) acc by (simp_all add: acceptable_def)
    from accumulating_step [OF this(1) d0(2) this(2), of N] comb d0(3) obtain d' where
      d': "rad_inv B d'" "rad_pk_set d' = rad_pk_set d0" "fst ` set (rad_rewards d') = fst ` set (rad_rewards d0)"
        "\<And>i m. rad_sigs d0 i = Some m \<Longrightarrow> \<exists>m'. rad_sigs d' i = Some m' \<and> fst ` set m' = fst ` set m \<union> share_indices [a] i"
        "snd (receive_wallet_accumulation B N a ?rp) = ?rp\<lparr>stage := (case rad_pending_agreements d' of
          Some m \<Rightarrow> Completed m | None \<Rightarrow> AccumulatingCredits d')\<rparr>"
      by auto
    have idx: "share_indices (map snd (msgs @ [x])) i \<subseteq> fst ` set m" if m: "rad_sigs d' i = Some m" for i m
    proof -
      have "i \<in> dom (rad_sigs d0)" using m d'(3) dom_rad_sigs [of d'] dom_rad_sigs [of d0] by auto
      then obtain m0 where "rad_sigs d0 i = Some m0" by auto
      with d'(4) d0(5) m show ?thesis by (fastforce simp: x)
    qed
    show ?thesis
    proof (cases "rad_pending_agreements d'")
      case None
      with step d' d0 idx show ?thesis by (intro disjI2 exI [of _ d']) auto
    next
      case (Some m)
      with step d' d0 completed_keys [of d' m] show ?thesis
        by (intro disjI1 exI [of _ m]) (auto simp: rad_inv_def)
    qed
  qed
qed simp

lemma exact_agreement:
  assumes "rad_inv B d" and "(i, c) \<in> set (rad_rewards d)" and "threshold B (rad_pk_set d) < length (ca_signatures c)"
  shows "ca_pending_agreement c \<noteq> None"
proof -
  have get: "btm_get (rad_rewards d) i = Some c"
    using assms(1,2) by (simp add: rad_inv_def rad_wf_def btm_get_eq_Some_iff)
  then have "entry_exact (threshold B (rad_pk_set d)) (combine_signatures B (rad_pk_set d)) (ca_signatures c) (rad_agreed d i)"
    using assms(1) by (simp add: rad_inv_def shares_exact_def rad_sigs_def)
  with assms(3) have "rad_agreed d i \<noteq> None" by (metis entry_exact_def)
  with get show ?thesis by (cases "ca_pending_agreement c") (simp_all add: rad_agreed_def)
qed

section \<open>Properties\<close>

text \<open>
  No payout without a quorum: in every state the reward process can reach, under whatever
  messages arrive in whatever order and however the network answers, each credit of a completed
  payout is filed under its own id and carries a signature combined from the shares of more
  elders, of the key set it names, than the threshold of that set.
\<close>

theorem completed_payouts_have_quorum:
  assumes "reward_reachable B sec rp" and "stage rp = Completed m" and "btm_get m i = Some p"
  shows "cap_id p = i \<and> quorum_signature B (cap_debiting_replicas_keys p) (cap_debiting_replicas_sig p)"
  using reward_reachable_inv [OF assms(1)] assms(2) map_of_SomeD [OF assms(3)] by fastforce

fun stage_rank :: "RewardStage \<Rightarrow> nat" where
  "stage_rank StageNone = 0"
| "stage_rank AwaitingThreshold = 0"
| "stage_rank (ProposingCredits _) = 1"
| "stage_rank (AccumulatingCredits _) = 2"
| "stage_rank (Completed _) = 3"

text \<open>
  C22. Messages only move a payout forward: a proposal or an accumulation never takes the process
  back to an earlier stage and never changes a completed payout; if handling a message fails,
  the process is exactly as before; a message for another section's wallet is refused.
\<close>

theorem reward_messages_monotone:
  assumes "receive_churn_proposal B N p rp = (r, rp') \<and> k = rp_section_key p \<or>
    receive_wallet_accumulation B N a rp = (r, rp') \<and> k = ra_section_key a"
  shows "stage_rank (stage rp) \<le> stage_rank (stage rp') \<and> rp_section rp' = rp_section rp \<and>
    (\<forall>m. stage rp = Completed m \<longrightarrow> rp' = rp) \<and> (\<forall>e. r = Inl e \<longrightarrow> rp' = rp) \<and>
    (k \<noteq> our_key (rp_section rp) \<longrightarrow> r = Inl (TransferError InvalidOwner))"
  using assms
proof (elim disjE conjE)
  assume "receive_churn_proposal B N p rp = (r, rp')" "k = rp_section_key p"
  then show ?thesis
    by (cases "stage rp")
      (auto simp: receive_churn_proposal_def Let_def wallet_key_def split: if_splits sum.splits prod.splits option.splits)
next
  assume "receive_wallet_accumulation B N a rp = (r, rp')" "k = ra_section_key a"
  then show ?thesis
    by (cases "stage rp")
      (auto simp: receive_wallet_accumulation_def Let_def wallet_key_def split: if_splits sum.splits prod.splits option.splits)
qed

text \<open>
  Duplicated messages are harmless: handling the same accumulation message a second time, right
  after it has been accepted while shares were being accumulated, changes nothing.
\<close>

theorem accumulation_idempotent:
  assumes "stage rp = AccumulatingCredits acc" and "no_conflict (acc_shares a)"
    and "receive_wallet_accumulation B N a rp = (Inr duty, rp1)"
  shows "receive_wallet_accumulation B N' a rp1 = (Inr NoOp, rp1)"
proof -
  have key: "ra_section_key a = wallet_key (rp_section rp)"
    using assms(3) by (auto simp: receive_wallet_accumulation_def split: if_splits)
  obtain acc' where adds: "add_accumulation_sigs B (ra_rewards a) acc = (Inr (), acc')"
    and rp1: "rp1 = (case rad_pending_agreements acc' of
        Some m \<Rightarrow> rp\<lparr>stage := Completed m\<rparr> | None \<Rightarrow> rp\<lparr>stage := AccumulatingCredits acc'\<rparr>)"
    using assms(1,3) key
    by (auto simp: receive_wallet_accumulation_def Let_def split: sum.splits prod.splits option.splits)
  have "add_accumulation_sigs B (ra_rewards a) acc' = (Inr (), acc')"
    using accumulating.adds_idempotent [OF _ assms(2)] adds by (simp add: add_accumulation_sigs_def acc_shares_def)
  with key rp1 show ?thesis
    by (cases "rad_pending_agreements acc'") (simp_all add: receive_wallet_accumulation_def Let_def)
qed

text \<open>
  C23. A payout completes once a quorum has signed: if every accumulation message is for our section
  and for credits we are accumulating, and for each of these credits the messages bring shares of
  more elders than the threshold, then after handling them, in whatever order, the payout is
  completed, with one proof for each credit, provided that enough shares can be combined.
\<close>

theorem payout_completes:
  assumes "stage rp = AccumulatingCredits d" and "rad_inv B d"
    and "\<forall>x \<in> set msgs. acceptable rp d (snd x)" and "msgs \<noteq> []"
    and "\<forall>m. threshold B (rad_pk_set d) < length m \<longrightarrow> combine_signatures B (rad_pk_set d) m \<noteq> None"
    and "\<forall>i \<in> fst ` set (rad_rewards d). threshold B (rad_pk_set d) < card (share_indices (map snd msgs) i)"
  shows "\<exists>m. stage (run_accumulations B msgs rp) = Completed m \<and> fst ` set m = fst ` set (rad_rewards d)"
proof (rule ccontr)
  assume "\<not> ?thesis"
  with run_accumulations_state [OF assms(1-3) _ assms(4)] assms(5) obtain d' where
    d': "rad_inv B d'" "rad_pk_set d' = rad_pk_set d" "fst ` set (rad_rewards d') = fst ` set (rad_rewards d)"
      "rad_pending_agreements d' = None"
      "\<And>i m. rad_sigs d' i = Some m \<Longrightarrow> share_indices (map snd msgs) i \<subseteq> fst ` set m"
    by blast
  have wf: "rad_wf d'" using d'(1) by (simp add: rad_inv_def)
  have "ca_pending_agreement c \<noteq> None" if c: "(i, c) \<in> set (rad_rewards d')" for i c
  proof (rule exact_agreement [OF d'(1) c])
    have get: "rad_sigs d' i = Some (ca_signatures c)"
      using wf c btm_get_eq_Some_iff [of "rad_rewards d'" i c] by (simp add: rad_sigs_def rad_wf_def)
    have "btm_wf (ca_signatures c)"
      using d'(1) get by (auto simp: rad_inv_def shares_exact_def entry_exact_def)
    then have "length (ca_signatures c) = card (fst ` set (ca_signatures c))"
      using btm_wf_distinct distinct_card by fastforce
    moreover have "card (share_indices (map snd msgs) i) \<le> card (fst ` set (ca_signatures c))"
      using d'(5) [OF get] by (intro card_mono) auto
    moreover have "threshold B (rad_pk_set d) < card (share_indices (map snd msgs) i)"
      using assms(6) c d'(3) by (metis fst_conv image_eqI)
    ultimately show "threshold B (rad_pk_set d') < length (ca_signatures c)" using d'(2) by simp
  qed
  with rad_pending_agreements_iff(1) [OF wf] d'(4) show False by fastforce
qed

section \<open>Witnesses\<close>

text \<open>A section of three elders with threshold one, accumulating one credit; two shares are enough.\<close>

definition toy_bls :: bls_api where
  "toy_bls = \<lparr>threshold = (\<lambda>_. 1), public_key = (\<lambda>_. 0),
     combine_signatures = (\<lambda>_ m. if length m > 1 then Some (length m) else None)\<rparr>"

definition toy_section :: OurSection where
  "toy_section = \<lparr>our_prefix = Prefix 0 0, our_key = Bls 7\<rparr>"

definition toy_net :: "nat \<Rightarrow> elder_network" where
  "toy_net k = \<lparr>net_our_index = Inr k, net_public_key_set = Inr (PublicKeySet 1),
     net_sign_credit = (\<lambda>_. Inr \<lparr>share = 10 + k, share_index = k\<rparr>),
     net_sign_signed_credit = (\<lambda>_. Inr \<lparr>share = 20 + k, share_index = k\<rparr>),
     pk_to_string = (\<lambda>_. []), fresh_id = 0\<rparr>"

definition toy_credit :: SignedCredit where
  "toy_credit = \<lparr>sc_credit = \<lparr>credit_id = 5, credit_amount = 100, credit_recipient = Ed25519 1, credit_msg = []\<rparr>,
     sc_actor_signature = SigBls 2\<rparr>"

definition toy_acc :: "nat \<Rightarrow> RewardAccumulation" where
  "toy_acc k = \<lparr>ra_section_key = Bls 7,
     ra_rewards = [\<lparr>ar_signed_credit = toy_credit, ar_sig = \<lparr>share = 20 + k, share_index = k\<rparr>\<rparr>]\<rparr>"

definition toy_details :: RewardAccumulationDetails where
  "toy_details = \<lparr>rad_pk_set = PublicKeySet 1, rad_rewards = [(5, \<lparr>ca_agreed_proposal = toy_credit,
     ca_signatures = [(0, 20)], ca_pending_agreement = None\<rparr>)]\<rparr>"

definition toy_process :: RewardProcess where
  "toy_process = \<lparr>rp_section = toy_section, stage = AccumulatingCredits toy_details\<rparr>"

definition toy_proof :: CreditAgreementProof where
  "toy_proof = \<lparr>cap_signed_credit = toy_credit, cap_debiting_replicas_sig = SigBls 2,
     cap_debiting_replicas_keys = PublicKeySet 1\<rparr>"

lemmas toy_defs = toy_bls_def toy_section_def toy_net_def toy_credit_def toy_acc_def toy_details_def
  toy_process_def toy_proof_def

lemma toy_details_inv: "rad_inv toy_bls toy_details"
  by (simp add: rad_inv_def rad_wf_def ca_wf_def ca_id_def sc_id_def shares_exact_def entry_exact_def rad_sigs_def
      rad_agreed_def toy_defs)

lemma toy_step: "receive_wallet_accumulation toy_bls N (toy_acc 1) toy_process =
    (Inr NoOp, toy_process\<lparr>stage := Completed [(5, toy_proof)]\<rparr>)"
  by (simp add: receive_wallet_accumulation_def wallet_key_def add_accumulation_sigs_def rad_add_sig_def check_def
      rad_pending_agreements_def List.map_filter_simps sc_id_def cap_id_def Let_def toy_defs)

text \<open>The first accumulation message, received while waiting.\<close>

lemma toy_first: "receive_wallet_accumulation toy_bls (toy_net 0) (toy_acc 0) (reward_process_new toy_section) =
    (Inr (send_acc_msg (toy_net 0) (toy_acc 0) 0), toy_process)"
  by (simp add: receive_wallet_accumulation_def reward_process_new_def wallet_key_def add_accumulation_sigs_def
      rad_add_sig_def check_def sign_accumulating_rewards_def sign_accumulation_def signing_public_key_set_def
      signing_our_index_def elder_sign_def fresh_accumulation_def get_accumulation_def List.map_filter_simps
      address_def ca_id_def sc_id_def Let_def toy_defs)

theorem completed_payouts_have_quorum_witness:
  "cap_id toy_proof = 5 \<and>
   quorum_signature toy_bls (cap_debiting_replicas_keys toy_proof) (cap_debiting_replicas_sig toy_proof)"
proof (rule completed_payouts_have_quorum)
  have "reward_reachable toy_bls toy_section toy_process"
    using reward_reachable.accumulation [OF reward_reachable.init toy_first] .
  from reward_reachable.accumulation [OF this toy_step]
  show "reward_reachable toy_bls toy_section (toy_process\<lparr>stage := Completed [(5, toy_proof)]\<rparr>)" .
  show "stage (toy_process\<lparr>stage := Completed [(5, toy_proof)]\<rparr>) = Completed [(5, toy_proof)]" by simp
  show "btm_get [(5, toy_proof)] 5 = Some toy_proof" by simp
qed

theorem reward_messages_monotone_witness:
  "stage_rank (stage toy_process) \<le> stage_rank (stage (toy_process\<lparr>stage := Completed [(5, toy_proof)]\<rparr>))"
  using reward_messages_monotone [OF disjI2 [OF conjI [OF toy_step refl]]] by simp

theorem accumulation_idempotent_witness:
  "receive_wallet_accumulation toy_bls (toy_net 2) (toy_acc 1) (toy_process\<lparr>stage := Completed [(5, toy_proof)]\<rparr>) =
    (Inr NoOp, toy_process\<lparr>stage := Completed [(5, toy_proof)]\<rparr>)"
proof (rule accumulation_idempotent [OF _ _ toy_step])
  show "stage toy_process = AccumulatingCredits toy_details" by (simp add: toy_process_def)
  show "no_conflict (acc_shares (toy_acc 1))" by (simp add: no_conflict_def acc_shares_def toy_acc_def)
qed

theorem payout_completes_witness:
  "\<exists>m. stage (run_accumulations toy_bls [(toy_net 0, toy_acc 2), (toy_net 0, toy_acc 1)] toy_process) = Completed m \<and>
    fst ` set m = {5}"
proof -
  let ?msgs = "[(toy_net 0, toy_acc 2), (toy_net 0, toy_acc 1)]"
  have "\<exists>m. stage (run_accumulations toy_bls ?msgs toy_process) = Completed m \<and>
      fst ` set m = fst ` set (rad_rewards toy_details)"
  proof (rule payout_completes [OF _ toy_details_inv])
    show "stage toy_process = AccumulatingCredits toy_details" by (simp add: toy_process_def)
    show "\<forall>x \<in> set ?msgs. acceptable toy_process toy_details (snd x)"
      by (simp add: acceptable_def acc_shares_def sc_id_def toy_defs)
    show "\<forall>m. threshold toy_bls (rad_pk_set toy_details) < length m \<longrightarrow>
        combine_signatures toy_bls (rad_pk_set toy_details) m \<noteq> None"
      by (simp add: toy_defs)
    have "share_indices (map snd ?msgs) 5 = {1, 2}"
      by (simp add: share_indices_def acc_shares_def sc_id_def toy_acc_def toy_credit_def) force
    then show "\<forall>i \<in> fst ` set (rad_rewards toy_details).
        threshold toy_bls (rad_pk_set toy_details) < card (share_indices (map snd ?msgs) i)"
      by (simp add: toy_details_def toy_bls_def)
  qed simp
  then show ?thesis by (simp add: toy_details_def)
qed

end
