(* ===== verification/Section_Funds.thy ===== *)
theory Section_Funds
  imports Reward_Process
begin

text \<open>
  The funds of a section as its elders keep them (\<^verbatim>\<open>src/src/section_funds/mod.rs\<close>,
  \<^verbatim>\<open>reward_wallets.rs\<close>): the reward wallets of the nodes, the payments received since the last
  payout, and, while the section is churning, the payout process.
\<close>

section \<open>Reward wallets\<close>

record RewardWallets =
  node_rewards :: nodes

definition reward_wallets_new :: "nodes \<Rightarrow> RewardWallets" where
  "reward_wallets_new rewards = \<lparr>node_rewards = fold (\<lambda>e. btm_insert (fst e) (snd e)) rewards []\<rparr>"

definition wallets_get :: "RewardWallets \<Rightarrow> XorName \<Rightarrow> (NodeAge \<times> PublicKey) option" where
  "wallets_get ws node_name = btm_get (node_rewards ws) node_name"

definition all_nodes :: "RewardWallets \<Rightarrow> XorName list" where
  "all_nodes ws = map fst (node_rewards ws)"

definition wallets_node_wallets :: "RewardWallets \<Rightarrow> nodes" where
  "wallets_node_wallets ws = fold (\<lambda>e. btm_insert (fst e) (snd e)) (node_rewards ws) []"

definition remove_wallets :: "XorName btree_set \<Rightarrow> RewardWallets \<Rightarrow> RewardWallets" where
  "remove_wallets split_nodes ws = ws\<lparr>node_rewards := fold btm_remove split_nodes (node_rewards ws)\<rparr>"

definition wallets_set_node_wallet :: "XorName \<Rightarrow> u8 \<Rightarrow> PublicKey \<Rightarrow> RewardWallets \<Rightarrow> RewardWallets" where
  "wallets_set_node_wallet node_name age wallet ws =
     ws\<lparr>node_rewards := btm_insert node_name (age, wallet) (node_rewards ws)\<rparr>"

definition remove_wallet :: "XorName \<Rightarrow> RewardWallets \<Rightarrow> RewardWallets" where
  "remove_wallet node_name ws = ws\<lparr>node_rewards := btm_remove node_name (node_rewards ws)\<rparr>"

section \<open>Section funds\<close>

type_synonym Payments = "(CreditId, CreditAgreementProof) btree_map"

datatype (plugins only: code size) SectionFunds =
    KeepingNodeWallets RewardWallets Payments
  | Churning RewardProcess RewardWallets Payments

fun add_payment :: "CreditAgreementProof \<Rightarrow> SectionFunds \<Rightarrow> SectionFunds" where
  "add_payment credit (KeepingNodeWallets ws payments) =
     KeepingNodeWallets ws (btm_insert (cap_id credit) credit payments)"
| "add_payment credit (Churning process ws payments) =
     Churning process ws (btm_insert (cap_id credit) credit payments)"

fun funds_wallets :: "SectionFunds \<Rightarrow> RewardWallets" where
  "funds_wallets (KeepingNodeWallets ws payments) = ws"
| "funds_wallets (Churning process ws payments) = ws"

fun funds_payments :: "SectionFunds \<Rightarrow> Payments" where
  "funds_payments (KeepingNodeWallets ws payments) = payments"
| "funds_payments (Churning process ws payments) = payments"

definition get_node_wallet :: "SectionFunds \<Rightarrow> XorName \<Rightarrow> PublicKey option" where
  "get_node_wallet funds node_name = map_option snd (wallets_get (funds_wallets funds) node_name)"

definition node_wallets :: "SectionFunds \<Rightarrow> nodes" where
  "node_wallets funds = wallets_node_wallets (funds_wallets funds)"

fun set_node_wallet :: "XorName \<Rightarrow> PublicKey \<Rightarrow> u8 \<Rightarrow> SectionFunds \<Rightarrow> SectionFunds" where
  "set_node_wallet node_id wallet age (KeepingNodeWallets ws payments) =
     KeepingNodeWallets (wallets_set_node_wallet node_id age wallet ws) payments"
| "set_node_wallet node_id wallet age (Churning process ws payments) =
     Churning process (wallets_set_node_wallet node_id age wallet ws) payments"

fun remove_node_wallet :: "XorName \<Rightarrow> SectionFunds \<Rightarrow> SectionFunds" where
  "remove_node_wallet node_name (KeepingNodeWallets ws payments) =
     KeepingNodeWallets (remove_wallet node_name ws) payments"
| "remove_node_wallet node_name (Churning process ws payments) =
     Churning process (remove_wallet node_name ws) payments"

text \<open>\<^verbatim>\<open>impl Credits\<close>: the sum wraps around in a release build.\<close>

definition credits_sum :: "Payments \<Rightarrow> Token" where
  "credits_sum payments = (\<Sum>c\<leftarrow>payments. cap_amount (snd c))"

section \<open>Sums without wrap-around\<close>

lemma credits_sum_nat: "credits_sum m = of_nat (btm_sum (\<lambda>c. unat (cap_amount c)) m)"
  by (induction m) (auto simp: credits_sum_def)

lemma unat_credits_sum:
  "btm_sum (\<lambda>c. unat (cap_amount c)) m < 2 ^ 64 \<Longrightarrow> unat (credits_sum m) = btm_sum (\<lambda>c. unat (cap_amount c)) m"
  by (simp add: credits_sum_nat unat_of_nat_eq)

section \<open>What a proposal adds up to\<close>

abbreviation proposed :: "RewardProposalDetails \<Rightarrow> nat" where
  "proposed d \<equiv> btm_sum (\<lambda>c. unat (cp_amount c)) (rpd_rewards d)"

lemma btm_sum_same:
  assumes "btm_wf m" and "btm_get m k = Some c" and "f c' = f c"
  shows "btm_sum f (btm_insert k c' m) = btm_sum f m"
  using btm_sum_insert [OF assms(1), of f k c'] assms(2,3) by simp

lemma rpd_add_sig_proposed:
  assumes "rpd_add_sig B i s d = (Inr (), d')" and "rpd_wf d"
  shows "proposed d' = proposed d"
  using assms(1)
proof (cases rule: rpd_add_sig_cases)
  case (2 c m)
  with assms(2) show ?thesis by (simp add: rpd_wf_def cp_amount_def btm_sum_same)
next
  case (3 c m x)
  with assms(2) show ?thesis by (simp add: rpd_wf_def cp_amount_def btm_sum_same)
qed simp

lemma fold_insert_sum:
  assumes "distinct (map f cs)" and "btm_wf m" and "f ` set cs \<inter> fst ` set m = {}"
  shows "btm_sum g (fold (\<lambda>c. btm_insert (f c) c) cs m) = (\<Sum>c\<leftarrow>cs. g c) + btm_sum g m"
  using assms
proof (induction cs arbitrary: m)
  case (Cons c cs)
  have "f c \<notin> fst ` set m" using Cons.prems(3) by auto
  then have "btm_get m (f c) = None" by (simp add: map_of_eq_None_iff)
  then have "btm_sum g (btm_insert (f c) c m) = g c + btm_sum g m"
    using btm_sum_insert [OF Cons.prems(2), of g "f c" c] by simp
  with Cons.IH [of "btm_insert (f c) c m"] Cons.prems show ?case by (auto simp: keys_btm_insert)
qed simp

lemma fold_insert_sum_le:
  "btm_wf m \<Longrightarrow> btm_sum g (fold (\<lambda>c. btm_insert (f c) c) cs m) \<le> (\<Sum>c\<leftarrow>cs. g c) + btm_sum g m"
proof (induction cs arbitrary: m)
  case (Cons c cs)
  have "btm_sum g (btm_insert (f c) c m) \<le> g c + btm_sum g m"
    using btm_sum_insert [OF Cons.prems, of g "f c" c] by linarith
  moreover have "btm_wf (btm_insert (f c) c m)" using Cons.prems by simp
  note Cons.IH [OF this]
  ultimately show ?case by simp
qed simp

text \<open>Credits with the same id replace one another.\<close>

lemma sign_proposed_rewards_sum:
  assumes "sign_proposed_rewards B N cs = Inr d"
    and "\<forall>c \<in> set cs. cp_signatures c = [] \<and> cp_pending_agreement c = None"
  shows "proposed d \<le> (\<Sum>c\<leftarrow>cs. unat (cp_amount c))"
    and "distinct (map cp_id cs) \<Longrightarrow> proposed d = (\<Sum>c\<leftarrow>cs. unat (cp_amount c))"
proof -
  let ?m = "fold (\<lambda>c. btm_insert (cp_id c) c) cs []"
  obtain ks where fold: "try_fold (sign_proposal B N) ?m \<lparr>rpd_pk_set = ks, rpd_rewards = ?m\<rparr> = (Inr (), d)"
    using assms(1) by (auto simp: sign_proposed_rewards_def Let_def split: sum.splits prod.splits)
  have "rpd_wf d \<and> proposed d = btm_sum (\<lambda>c. unat (cp_amount c)) ?m"
  proof (rule try_fold_invariant [OF fold])
    show "rpd_wf \<lparr>rpd_pk_set = ks, rpd_rewards = ?m\<rparr> \<and>
        proposed \<lparr>rpd_pk_set = ks, rpd_rewards = ?m\<rparr> = btm_sum (\<lambda>c. unat (cp_amount c)) ?m"
      using fresh_rpd_inv [OF assms(2)] by (simp add: rpd_inv_def)
    fix e x x'
    assume x: "rpd_wf x \<and> proposed x = btm_sum (\<lambda>c. unat (cp_amount c)) ?m"
      and "sign_proposal B N e x = (Inr (), x')"
    then obtain sig where "rpd_add_sig B (cp_id (snd e)) sig x = (Inr (), x')" using sign_proposal_ok by blast
    from rpd_add_sig_wf [OF this] rpd_add_sig_proposed [OF this] x
    show "rpd_wf x' \<and> proposed x' = btm_sum (\<lambda>c. unat (cp_amount c)) ?m" by simp
  qed
  then show "proposed d \<le> (\<Sum>c\<leftarrow>cs. unat (cp_amount c))"
    and "distinct (map cp_id cs) \<Longrightarrow> proposed d = (\<Sum>c\<leftarrow>cs. unat (cp_amount c))"
    using fold_insert_sum_le [of "[]" "\<lambda>c. unat (cp_amount c)" cp_id cs] fold_insert_sum [of cp_id cs "[]"] by simp_all
qed

lemma get_reward_credits_amounts:
  assumes "get_reward_credits E N a k nodes = Some cs" and "btm_wf nodes" and "length nodes < 2 ^ 56"
  shows "(\<Sum>c\<leftarrow>cs. unat (cp_amount c)) = (if get_buckets nodes = [] then 0 else unat a)"
    and "\<forall>c \<in> set cs. cp_signatures c = [] \<and> cp_pending_agreement c = None"
    and "inj_on (\<lambda>n. combine E [n, xor_name_of_key E k]) (fst ` set nodes) \<Longrightarrow> distinct (map cp_id cs)"
proof -
  obtain rw where rw: "distribute_rewards a nodes = Some rw"
    and cs: "cs = map (\<lambda>(node, age, wallet, reward). \<lparr>
         cp_proposal = \<lparr>credit_id = combine E [node, xor_name_of_key E k],
           credit_amount = reward, credit_recipient = wallet,
           credit_msg = ''Reward at age '' @ dec_string (unat age) @ '', from '' @ pk_to_string N k\<rparr>,
         cp_signatures = [], cp_pending_agreement = None\<rparr>) rw"
    using assms(1) by (auto simp: get_reward_credits_def)
  have "paid rw = (if get_buckets nodes = [] then 0 else unat a) \<and> btm_wf rw \<and> fst ` set rw \<subseteq> fst ` set nodes"
  proof (cases "get_buckets nodes = []")
    case True
    with rw show ?thesis by (simp add: distribute_rewards_def distribute_def)
  next
    case False
    from distribute_rewards_total [OF assms(2,3) this, of a] rw have wf: "btm_wf rw" and "paid rw = unat a"
      and known: "btm_get rw n = Some (x, y, z) \<Longrightarrow> btm_get nodes n = Some (x, y)" for n x y z by blast+
    moreover have "n \<in> fst ` set nodes" if "(n, x, y, z) \<in> set rw" for n x y z
    proof -
      have "btm_get rw n = Some (x, y, z)" using that btm_wf_distinct [OF wf] by simp
      from known [OF this] show ?thesis by (metis map_of_SomeD fst_conv image_eqI)
    qed
    ultimately show ?thesis using False by force
  qed
  then have total: "paid rw = (if get_buckets nodes = [] then 0 else unat a)" and wf: "btm_wf rw"
    and names: "fst ` set rw \<subseteq> fst ` set nodes" by simp_all
  show "(\<Sum>c\<leftarrow>cs. unat (cp_amount c)) = (if get_buckets nodes = [] then 0 else unat a)"
    using total by (simp add: cs btm_sum_def cp_amount_def comp_def case_prod_beta)
  show "\<forall>c \<in> set cs. cp_signatures c = [] \<and> cp_pending_agreement c = None" by (auto simp: cs)
  have "map cp_id cs = map (\<lambda>n. combine E [n, xor_name_of_key E k]) (map fst rw)"
    by (simp add: cs cp_id_def case_prod_beta)
  then show "distinct (map cp_id cs)" if "inj_on (\<lambda>n. combine E [n, xor_name_of_key E k]) (fst ` set nodes)"
    using btm_wf_distinct [OF wf] inj_on_subset [OF that names] by (simp only: distinct_map set_map)
qed

section \<open>Properties\<close>

text \<open>
  C24. A reward proposal pays out the reward and never more: when an elder proposes a payout for the
  payments a section has received (not more than there are tokens, to fewer than \<open>2 ^ 56\<close> nodes),
  the amounts of the proposed credits add up to at most the amount the section rewards and mints for
  these payments, which is at most twice the payments. They add up to exactly that amount, if some
  node is old enough for a reward and the ids of the credits, which are hashes of the name of the
  node and the key of the section, are different for the nodes of the section (credits with the same
  id replace one another). If no node is old enough, nothing is paid out.
\<close>

theorem proposal_pays_the_reward:
  assumes "reward_and_mint E B N payments managed nodes rp = Some (Inr duty, rp')"
    and "btm_wf nodes" and "length nodes < 2 ^ 56" and "payments \<le> MAX_SUPPLY"
    and "amount = get_reward_and_mint_amount payments managed
      (MAX_SUPPLY div 2 ^ prefix_bit_count (our_prefix (rp_section rp)))"
  shows "\<exists>d. stage rp' = ProposingCredits d \<and>
    proposed d \<le> unat amount \<and> unat amount \<le> 2 * unat payments \<and>
    (get_buckets nodes \<noteq> [] \<and> inj_on (\<lambda>n. combine E [n, xor_name_of_key E (our_key (rp_section rp))]) (fst ` set nodes) \<longrightarrow>
      proposed d = unat amount) \<and>
    (get_buckets nodes = [] \<longrightarrow> proposed d = 0)"
  using assms(1)
proof (cases rule: reward_and_mint_cases)
  case (proposed ms cs d k)
  have ms: "ms = MAX_SUPPLY div 2 ^ prefix_bit_count (our_prefix (rp_section rp))"
    using proposed(1) by (simp add: checked_div_def split: if_splits)
  with assms(5) have amount: "amount = get_reward_and_mint_amount payments managed ms" by simp
  note credits = get_reward_credits_amounts [OF proposed(2) assms(2,3)]
  note sum = sign_proposed_rewards_sum [OF proposed(3) credits(2)]
  have "unat payments + unat ms < 2 ^ 64"
  proof -
    have "unat ms \<le> unat MAX_SUPPLY" by (simp add: ms unat_div_distrib)
    moreover have "unat payments \<le> unat MAX_SUPPLY" using assms(4) by (simp add: word_le_nat_alt)
    moreover have "unat MAX_SUPPLY = 4294967295000000000" by (simp add: MAX_SUPPLY_def)
    ultimately show ?thesis by simp
  qed
  from mint_bound [OF this, of managed] have "unat amount \<le> 2 * unat payments" by (simp add: amount)
  moreover have "proposed d \<le> (if get_buckets nodes = [] then 0 else unat amount)"
    using sum(1) unfolding credits(1) amount .
  moreover have "proposed d = unat amount" if "get_buckets nodes \<noteq> []"
    "inj_on (\<lambda>n. combine E [n, xor_name_of_key E (our_key (rp_section rp))]) (fst ` set nodes)"
    using sum(2) [OF credits(3) [OF that(2)]] credits(1) that(1) by (simp add: amount)
  ultimately show ?thesis using proposed(6) by (auto split: if_splits)
qed simp

definition toy_ext :: externals where
  "toy_ext = example_ext\<lparr>combine := (\<lambda>ns. hd ns)\<rparr>"

theorem proposal_pays_the_reward_witness:
  "\<exists>duty rp' d. reward_and_mint toy_ext toy_bls (toy_net 0) 50 0 two_nodes (reward_process_new toy_section) =
      Some (Inr duty, rp') \<and> stage rp' = ProposingCredits d \<and> proposed d = 100"
proof -
  let ?rp = "reward_process_new toy_section"
  have b: "get_buckets two_nodes = [(6, [(1, Ed25519 1)]), (7, [(2, Ed25519 2)])]"
    by (simp add: get_buckets_def two_nodes_def add_to_bucket_def MIN_REWARD_AGE_def)
  have "bucket_multiplier 100 (get_buckets two_nodes) = Some 1"
    by (simp add: b bucket_multiplier_def checked_div_def dec_len.simps Let_def)
  then have dist: "distribute_rewards 100 two_nodes = Some [(1, 6, Ed25519 1, 64), (2, 7, Ed25519 2, 36)]"
    by (simp add: distribute_rewards_def distribute_def b rounds.simps bucket_reward_def proportional_work_def min_def)
  have "\<exists>duty rp'. reward_and_mint toy_ext toy_bls (toy_net 0) 50 0 two_nodes ?rp = Some (Inr duty, rp')"
    by (simp add: reward_and_mint_def checked_div_def reward_process_new_def toy_section_def MAX_SUPPLY_def
        get_reward_and_mint_amount_def get_reward_credits_def dist sign_proposed_rewards_def signing_public_key_set_def
        signing_our_index_def sign_proposal_def elder_sign_def rpd_add_sig_def check_def toy_net_def toy_bls_def
        toy_ext_def cp_id_def Let_def min_def)
  then obtain duty rp' where run: "reward_and_mint toy_ext toy_bls (toy_net 0) 50 0 two_nodes ?rp = Some (Inr duty, rp')"
    by blast
  have inj: "inj_on (\<lambda>n. combine toy_ext [n, xor_name_of_key toy_ext (our_key (rp_section ?rp))]) (fst ` set two_nodes)"
    by (simp add: toy_ext_def)
  have "btm_wf two_nodes" "length two_nodes < 2 ^ 56" "50 \<le> MAX_SUPPLY"
    by (simp_all add: two_nodes_def MAX_SUPPLY_def)
  from proposal_pays_the_reward [OF run this refl] inj b obtain d where
      "stage rp' = ProposingCredits d" "proposed d = unat (get_reward_and_mint_amount 50 0 (MAX_SUPPLY div 1))"
    by (auto simp: reward_process_new_def toy_section_def)
  moreover have "get_reward_and_mint_amount 50 0 (MAX_SUPPLY div 1) = 100"
    by (simp add: get_reward_and_mint_amount_def MAX_SUPPLY_def min_def)
  ultimately show ?thesis using run by auto
qed

text \<open>
  A payment counts once: registering a payment raises the sum of the payments by its amount if its
  id is new, and replaces the earlier payment of the same id otherwise, as long as the sum fits
  into 64 bits; in particular, receiving the same payment twice changes nothing the second time.
\<close>

theorem payment_counted_once:
  assumes "btm_wf (funds_payments funds)"
    and "btm_sum (\<lambda>c. unat (cap_amount c)) (funds_payments funds) + unat (cap_amount credit) < 2 ^ 64"
  shows "unat (credits_sum (funds_payments (add_payment credit funds))) +
      (case btm_get (funds_payments funds) (cap_id credit) of None \<Rightarrow> 0 | Some old \<Rightarrow> unat (cap_amount old)) =
      unat (credits_sum (funds_payments funds)) + unat (cap_amount credit) \<and>
    add_payment credit (add_payment credit funds) = add_payment credit funds"
proof -
  let ?m = "funds_payments funds" and ?s = "btm_sum (\<lambda>c. unat (cap_amount c))"
  have p: "funds_payments (add_payment credit funds) = btm_insert (cap_id credit) credit ?m"
    by (cases funds) simp_all
  note sum = btm_sum_insert [OF assms(1), of "\<lambda>c. unat (cap_amount c)" "cap_id credit" credit]
  then have "?s (btm_insert (cap_id credit) credit ?m) < 2 ^ 64" using assms(2) by linarith
  with sum assms(2) have "unat (credits_sum (btm_insert (cap_id credit) credit ?m)) +
      (case btm_get ?m (cap_id credit) of None \<Rightarrow> 0 | Some old \<Rightarrow> unat (cap_amount old)) =
      unat (credits_sum ?m) + unat (cap_amount credit)"
    by (simp add: unat_credits_sum)
  moreover have "btm_insert k v (btm_insert k v m) = btm_insert k v m" for k and v :: CreditAgreementProof and m
    by (induction m) auto
  ultimately show ?thesis by (cases funds) (simp_all add: p)
qed

theorem payment_counted_once_witness:
  "unat (credits_sum (funds_payments (add_payment toy_proof (KeepingNodeWallets \<lparr>node_rewards = []\<rparr> [])))) = 100"
  using payment_counted_once [of "KeepingNodeWallets \<lparr>node_rewards = []\<rparr> []" toy_proof]
  by (simp add: toy_proof_def toy_credit_def cap_amount_def credits_sum_def)

end
