(* ===== verification/Network.thy ===== *)
theory Network
  imports Node_Ops
begin

text \<open>
  The node's view of the network (\<^verbatim>\<open>src/src/network.rs\<close>) and the read-only access to the adults
  of the section (\<^verbatim>\<open>src/src/metadata/adult_reader.rs\<close>). The routing layer itself
  (\<^verbatim>\<open>sn_routing\<close>) is a parameter: a snapshot of what it answers. Its errors are numbers.
\<close>

section \<open>The routing layer\<close>

record Peer =
  peer_name :: XorName
  peer_addr :: nat
  peer_age :: u8

record Routing =
  rt_name :: XorName
  rt_age :: u8
  rt_public_key_set :: "nat + PublicKeySet"
  rt_our_index :: "nat + nat"
  rt_our_prefix :: Prefix
  rt_is_elder :: bool
  rt_our_elders :: "Peer list"
  rt_our_adults :: "Peer list"
  rt_elders_by_distance :: "XorName \<Rightarrow> Peer list"
  rt_adults_by_distance :: "XorName \<Rightarrow> Peer list"
  rt_section_key :: "Prefix \<Rightarrow> nat option"
  rt_matching_section :: "XorName \<Rightarrow> nat option"
  rt_matches_our_prefix :: "XorName \<Rightarrow> bool"
  rt_sign_as_node :: "bytes \<Rightarrow> nat"
  rt_sign_as_elder :: "bytes \<Rightarrow> nat \<Rightarrow> nat + nat"
  rt_bls :: bls_api
  rt_public_key_share :: "PublicKeySet \<Rightarrow> nat \<Rightarrow> nat"
  rt_section_chain :: "nat list"

section \<open>Signing\<close>

text \<open>\<^verbatim>\<open>utils::serialise\<close>, on the result of \<^verbatim>\<open>bincode\<close>.\<close>

definition utils_serialise :: "('d \<Rightarrow> bytes option) \<Rightarrow> 'd \<Rightarrow> bytes result" where
  "utils_serialise ser data = ok_or Bincode (ser data)"

definition sign_as_node :: "Routing \<Rightarrow> ('d \<Rightarrow> bytes option) \<Rightarrow> 'd \<Rightarrow> Signature result" where
  "sign_as_node N ser data = and_then (utils_serialise ser data) (\<lambda>b. Inr (SigEd25519 (rt_sign_as_node N b)))"

text \<open>Every failure to get the section's key set is reported as a missing section key.\<close>

definition bls_section_key :: "Routing \<Rightarrow> nat result" where
  "bls_section_key N = and_then (map_err (\<lambda>_. NoSectionPublicKey) (rt_public_key_set N))
     (\<lambda>ks. Inr (public_key (rt_bls N) ks))"

definition sign_as_elder_raw :: "Routing \<Rightarrow> ('d \<Rightarrow> bytes option) \<Rightarrow> 'd \<Rightarrow> nat result" where
  "sign_as_elder_raw N ser data = and_then (bls_section_key N) (\<lambda>bls_pk.
     and_then (utils_serialise ser data) (\<lambda>b. map_err Routing (rt_sign_as_elder N b bls_pk)))"

definition sign_as_elder :: "Routing \<Rightarrow> ('d \<Rightarrow> bytes option) \<Rightarrow> 'd \<Rightarrow> SignatureShare result" where
  "sign_as_elder N ser data = and_then (bls_section_key N) (\<lambda>bls_pk.
     and_then (utils_serialise ser data) (\<lambda>b.
     and_then (map_err Routing (rt_sign_as_elder N b bls_pk)) (\<lambda>s.
     and_then (map_err (\<lambda>_. NoSectionPublicKey) (rt_our_index N)) (\<lambda>i.
       Inr \<lparr>share = s, share_index = i\<rparr>))))"

section \<open>Keys of sections\<close>

definition section_public_key :: "Routing \<Rightarrow> PublicKey result" where
  "section_public_key N = and_then (bls_section_key N) (\<lambda>k. Inr (Bls k))"

definition our_prefix :: "Routing \<Rightarrow> Prefix" where
  "our_prefix N = rt_our_prefix N"

definition sibling_public_key :: "externals \<Rightarrow> Routing \<Rightarrow> PublicKey option" where
  "sibling_public_key E N = map_option Bls (rt_section_key N (prefix_sibling E (our_prefix N)))"

definition matching_section :: "Routing \<Rightarrow> XorName \<Rightarrow> nat option" where
  "matching_section N name = rt_matching_section N name"

definition our_public_key_set :: "Routing \<Rightarrow> PublicKeySet result" where
  "our_public_key_set N = map_err Routing (rt_public_key_set N)"

definition get_section_pk_by_name :: "Routing \<Rightarrow> XorName \<Rightarrow> PublicKey result" where
  "get_section_pk_by_name N name = (case rt_matching_section N name of
     Some pk \<Rightarrow> Inr (Bls pk)
   | None \<Rightarrow> Inl (NoSectionPublicKeyKnown name))"

definition our_index :: "Routing \<Rightarrow> nat result" where
  "our_index N = map_err Routing (rt_our_index N)"

definition our_public_key_share :: "Routing \<Rightarrow> PublicKey result" where
  "our_public_key_share N = and_then (our_index N) (\<lambda>index.
     and_then (our_public_key_set N) (\<lambda>ks. Inr (BlsShare (rt_public_key_share N ks index))))"

text \<open>Whether nodes may join; the answer of the routing layer to either choice is given.\<close>

definition set_joins_allowed :: "(bool \<Rightarrow> nat + unit) \<Rightarrow> bool \<Rightarrow> unit result" where
  "set_joins_allowed answer joins_allowed = map_err Routing (answer joins_allowed)"

section \<open>Members of the section\<close>

definition our_elder_names :: "Routing \<Rightarrow> XorName btree_set" where
  "our_elder_names N = bts_collect (map peer_name (rt_our_elders N))"

definition our_elder_addresses :: "Routing \<Rightarrow> (XorName \<times> nat) list" where
  "our_elder_addresses N = map (\<lambda>p. (peer_name p, peer_addr p)) (rt_our_elders N)"

definition our_elder_addresses_sorted_by_distance_to :: "Routing \<Rightarrow> XorName \<Rightarrow> (XorName \<times> nat) list" where
  "our_elder_addresses_sorted_by_distance_to N name =
     map (\<lambda>p. (peer_name p, peer_addr p)) (rt_elders_by_distance N name)"

definition our_elder_names_sorted_by_distance_to :: "Routing \<Rightarrow> XorName \<Rightarrow> nat \<Rightarrow> XorName list" where
  "our_elder_names_sorted_by_distance_to N name cnt =
     map peer_name (take cnt (rt_elders_by_distance N name))"

definition age_of_node :: "Routing \<Rightarrow> XorName \<Rightarrow> XorName list" where
  "age_of_node N node = map peer_name (take 255 (rt_adults_by_distance N 0))"

definition our_members :: "Routing \<Rightarrow> (XorName, u8) btree_map" where
  "our_members N =
     (let elders = map (\<lambda>p. (peer_name p, peer_age p)) (rt_our_elders N);
          adults = map (\<lambda>p. (peer_name p, peer_age p)) (rt_our_adults N)
      in fold (\<lambda>e. btm_insert (fst e) (snd e)) (concat [elders, adults]) [])"

definition our_adults :: "Routing \<Rightarrow> XorName list" where
  "our_adults N = map peer_name (rt_our_adults N)"

definition our_adults_sorted_by_distance_to :: "Routing \<Rightarrow> XorName \<Rightarrow> nat \<Rightarrow> XorName list" where
  "our_adults_sorted_by_distance_to N name cnt =
     map peer_name (take cnt (rt_adults_by_distance N name))"

text \<open>\<^verbatim>\<open>AdultReader\<close>.\<close>

record AdultReader =
  ar_network :: Routing

definition reader_our_adults :: "AdultReader \<Rightarrow> XorName list" where
  "reader_our_adults r = our_adults (ar_network r)"

definition reader_our_adults_sorted_by_distance_to :: "AdultReader \<Rightarrow> XorName \<Rightarrow> nat \<Rightarrow> XorName list" where
  "reader_our_adults_sorted_by_distance_to r name cnt = our_adults_sorted_by_distance_to (ar_network r) name cnt"

section \<open>Lemmas\<close>

lemma length_reader_adults: "length (reader_our_adults_sorted_by_distance_to r name cnt) \<le> cnt"
  by (simp add: reader_our_adults_sorted_by_distance_to_def our_adults_sorted_by_distance_to_def)

lemma keys_our_members:
  "fst ` set (our_members N) = peer_name ` (set (rt_our_elders N) \<union> set (rt_our_adults N))"
proof -
  have "fst ` set (fold (\<lambda>e. btm_insert (fst e) (snd e)) xs m) = fst ` set xs \<union> fst ` set m"
    for xs :: "(XorName \<times> u8) list" and m
    by (induction xs arbitrary: m) (auto simp: keys_btm_insert)
  then show ?thesis by (simp add: our_members_def image_Un image_image Un_commute)
qed

lemma our_members_wf: "btm_wf (our_members N)"
  unfolding our_members_def Let_def by (rule btm.wf_fold_insert) simp

lemma our_members_age:
  assumes "distinct (map peer_name (rt_our_elders N @ rt_our_adults N))"
    and "p \<in> set (rt_our_elders N @ rt_our_adults N)"
  shows "btm_get (our_members N) (peer_name p) = Some (peer_age p)"
proof -
  let ?es = "map (\<lambda>p. (peer_name p, peer_age p)) (rt_our_elders N @ rt_our_adults N)"
  have "distinct (map fst ?es)" using assms(1) by (simp add: comp_def)
  moreover have "(peer_name p, peer_age p) \<in> set ?es" using assms(2) by auto
  ultimately show ?thesis
    using btm.get_fold_insert [of "[]" fst ?es "(peer_name p, peer_age p)" snd]
    by (simp add: our_members_def Let_def comp_def)
qed

text \<open>
  A share that was handed out carries our own index, and our section's key is known; the two
  ways to sign as an elder return the same share.
\<close>

lemma sign_as_elder_OkD:
  assumes "sign_as_elder N ser data = Inr s"
  shows "rt_our_index N = Inr (share_index s)" and "sign_as_elder_raw N ser data = Inr (share s)"
    and "is_ok (section_public_key N)"
  using assms
  by (auto simp: sign_as_elder_def sign_as_elder_raw_def section_public_key_def and_then_Inr_iff)

end
