(* ===== verification/Blob_Register.thy ===== *)
theory Blob_Register
  imports Network
begin

text \<open>
  The elders' register of which adults hold which blobs (\<^verbatim>\<open>src/src/metadata/blob_register.rs\<close>), kept
  in two databases: the metadata of each chunk (its holders and owner) and the chunks of each
  holder. The databases (\<^verbatim>\<open>PickleDb\<close>), the serialisation of their keys and the routing
  layer are parameters; what is relied on is stated as \<open>pickle_ok\<close> and \<open>register_ok\<close>.
\<close>

section \<open>Databases\<close>

text \<open>A write reports whether it has succeeded.\<close>

record ('db, 'v) pickle =
  db_get :: "'db \<Rightarrow> string \<Rightarrow> 'v option"
  db_set :: "string \<Rightarrow> 'v \<Rightarrow> 'db \<Rightarrow> bool \<times> 'db"
  db_rem :: "string \<Rightarrow> 'db \<Rightarrow> bool \<times> 'db"

definition pickle_ok :: "('db, 'v) pickle \<Rightarrow> bool" where
  "pickle_ok P \<longleftrightarrow> (\<forall>db k v j.
     db_get P (snd (db_set P k v db)) j =
       (if fst (db_set P k v db) \<and> j = k then Some v else db_get P db j) \<and>
     db_get P (snd (db_rem P k db)) j =
       (if fst (db_rem P k db) \<and> j = k then None else db_get P db j))"

text \<open>A database whose writes all succeed.\<close>

definition pickle_reliable :: "('db, 'v) pickle \<Rightarrow> bool" where
  "pickle_reliable P \<longleftrightarrow> (\<forall>db k v. fst (db_set P k v db) \<and> fst (db_rem P k db))"

text \<open>\<^verbatim>\<open>ToDbKey::to_db_key\<close>: the hexadecimal form of the serialised identifier.\<close>

definition to_db_key :: "('i \<Rightarrow> bytes option) \<Rightarrow> (bytes \<Rightarrow> string) \<Rightarrow> 'i \<Rightarrow> string result" where
  "to_db_key ser hex i = (case ser i of
     None \<Rightarrow> Inl Bincode
   | Some serialised \<Rightarrow> Inr (hex serialised))"

section \<open>State and parameters\<close>

definition CHUNK_COPY_COUNT :: nat where
  "CHUNK_COPY_COUNT = 4"

record ChunkMetadata =
  cm_holders :: "XorName btree_set"
  cm_owner :: "PublicKey option"

record HolderMetadata =
  hm_chunks :: "BlobAddress btree_set"

definition cm_default :: ChunkMetadata where
  "cm_default = \<lparr>cm_holders = [], cm_owner = None\<rparr>"

definition hm_default :: HolderMetadata where
  "hm_default = \<lparr>hm_chunks = []\<rparr>"

record ('m, 'h) holder_dbs =
  metadata_db :: 'm
  holders_db :: 'h

record ('m, 'h) register_api =
  meta_api :: "('m, ChunkMetadata) pickle"
  holders_api :: "('h, HolderMetadata) pickle"
  address_bytes :: "BlobAddress \<Rightarrow> bytes option"
  name_bytes :: "XorName \<Rightarrow> bytes option"
  key_hex :: "bytes \<Rightarrow> string"
  reader :: AdultReader

definition address_key :: "('m, 'h) register_api \<Rightarrow> BlobAddress \<Rightarrow> string result" where
  "address_key R a = to_db_key (address_bytes R) (key_hex R) a"

definition name_key :: "('m, 'h) register_api \<Rightarrow> XorName \<Rightarrow> string result" where
  "name_key R n = to_db_key (name_bytes R) (key_hex R) n"

section \<open>Reading the databases\<close>

definition get_holder :: "('m, 'h) register_api \<Rightarrow> XorName \<Rightarrow> ('m, 'h) holder_dbs \<Rightarrow> HolderMetadata result" where
  "get_holder R holder s = and_then (name_key R holder) (\<lambda>key.
     case db_get (holders_api R) (holders_db s) key of
       Some metadata \<Rightarrow> if hm_chunks metadata = [] then Inl NoSuchChunk else Inr metadata
     | None \<Rightarrow> Inl NoSuchChunk)"

definition get_metadata_for :: "('m, 'h) register_api \<Rightarrow> BlobAddress \<Rightarrow> ('m, 'h) holder_dbs \<Rightarrow>
    ChunkMetadata result" where
  "get_metadata_for R address s = and_then (address_key R address) (\<lambda>key.
     case db_get (meta_api R) (metadata_db s) key of
       Some metadata \<Rightarrow> if cm_holders metadata = [] then Inl NoSuchChunk else Inr metadata
     | None \<Rightarrow> Inl NoSuchChunk)"

definition get_holders_for_chunk :: "('m, 'h) register_api \<Rightarrow> XorName \<Rightarrow> XorName list" where
  "get_holders_for_chunk R target = reader_our_adults_sorted_by_distance_to (reader R) target CHUNK_COPY_COUNT"

definition get_new_holders_for_chunk :: "('m, 'h) register_api \<Rightarrow> BlobAddress \<Rightarrow> ('m, 'h) holder_dbs \<Rightarrow>
    XorName btree_set" where
  "get_new_holders_for_chunk R target s =
     (let closest_holders = bts_collect (get_holders_for_chunk R (blob_address_name target))
      in case get_metadata_for R target s of
        Inr metadata \<Rightarrow> filter (\<lambda>h. h \<notin> set (cm_holders metadata)) closest_holders
      | Inl _ \<Rightarrow> closest_holders)"

definition unwrap_or :: "'a \<Rightarrow> 'a result \<Rightarrow> 'a" where
  "unwrap_or d r = (case r of Inl _ \<Rightarrow> d | Inr a \<Rightarrow> a)"

section \<open>Writing the databases\<close>

definition meta_set :: "('m, 'h) register_api \<Rightarrow> string \<Rightarrow> ChunkMetadata \<Rightarrow> ('m, 'h) holder_dbs \<Rightarrow>
    bool \<times> ('m, 'h) holder_dbs" where
  "meta_set R key v s = (let r = db_set (meta_api R) key v (metadata_db s) in (fst r, s\<lparr>metadata_db := snd r\<rparr>))"

definition meta_rem :: "('m, 'h) register_api \<Rightarrow> string \<Rightarrow> ('m, 'h) holder_dbs \<Rightarrow> bool \<times> ('m, 'h) holder_dbs" where
  "meta_rem R key s = (let r = db_rem (meta_api R) key (metadata_db s) in (fst r, s\<lparr>metadata_db := snd r\<rparr>))"

definition holders_set :: "('m, 'h) register_api \<Rightarrow> string \<Rightarrow> HolderMetadata \<Rightarrow> ('m, 'h) holder_dbs \<Rightarrow>
    bool \<times> ('m, 'h) holder_dbs" where
  "holders_set R key v s = (let r = db_set (holders_api R) key v (holders_db s) in (fst r, s\<lparr>holders_db := snd r\<rparr>))"

definition holders_rem :: "('m, 'h) register_api \<Rightarrow> string \<Rightarrow> ('m, 'h) holder_dbs \<Rightarrow> bool \<times> ('m, 'h) holder_dbs" where
  "holders_rem R key s = (let r = db_rem (holders_api R) key (holders_db s) in (fst r, s\<lparr>holders_db := snd r\<rparr>))"

definition set_chunk_holder :: "('m, 'h) register_api \<Rightarrow> BlobAddress \<Rightarrow> XorName \<Rightarrow> EndUser \<Rightarrow>
    ('m, 'h) holder_dbs \<Rightarrow> unit result \<times> ('m, 'h) holder_dbs" where
  "set_chunk_holder R address holder origin s = (case address_key R address of
     Inl e \<Rightarrow> (Inl e, s)
   | Inr db_key \<Rightarrow>
       let metadata = unwrap_or cm_default (get_metadata_for R address s);
           metadata1 = (if blob_address_is_private address
                        then metadata\<lparr>cm_owner := Some (end_user_id origin)\<rparr> else metadata);
           metadata2 = metadata1\<lparr>cm_holders := bts_insert holder (cm_holders metadata1)\<rparr>
       in case meta_set R db_key metadata2 s of
         (False, s1) \<Rightarrow> (Inl PickleDb, s1)
       | (True, s1) \<Rightarrow>
           let holders_metadata = unwrap_or hm_default (get_holder R holder s1);
               holders_metadata1 = holders_metadata\<lparr>hm_chunks := bts_insert address (hm_chunks holders_metadata)\<rparr>
           in case name_key R holder of
             Inl e \<Rightarrow> (Inl e, s1)
           | Inr key \<Rightarrow> (case holders_set R key holders_metadata1 s1 of
               (False, s2) \<Rightarrow> (Inl PickleDb, s2)
             | (True, s2) \<Rightarrow> (Inr (), s2)))"

definition remove_chunk_holder :: "('m, 'h) register_api \<Rightarrow> BlobAddress \<Rightarrow> XorName \<Rightarrow> ('m, 'h) holder_dbs \<Rightarrow>
    unit result \<times> ('m, 'h) holder_dbs" where
  "remove_chunk_holder R address holder_name s = (case address_key R address of
     Inl e \<Rightarrow> (Inl e, s)
   | Inr db_key \<Rightarrow> (case get_metadata_for R address s of
       Inl _ \<Rightarrow> (Inr (), s)
     | Inr metadata \<Rightarrow>
         let first = (case get_holder R holder_name s of
             Inl _ \<Rightarrow> (Inr (), s)
           | Inr holder \<Rightarrow>
               let holder1 = holder\<lparr>hm_chunks := bts_remove address (hm_chunks holder)\<rparr>
               in case name_key R holder_name of
                 Inl e \<Rightarrow> (Inl e, s)
               | Inr key \<Rightarrow>
                   if hm_chunks holder1 = [] then (Inr (), snd (holders_rem R key s))
                   else (Inr (), snd (holders_set R key holder1 s)))
         in case first of
           (Inl e, s1) \<Rightarrow> (Inl e, s1)
         | (Inr _, s1) \<Rightarrow>
             let metadata1 = metadata\<lparr>cm_holders := bts_remove holder_name (cm_holders metadata)\<rparr>
             in if cm_holders metadata1 = [] then (Inr (), snd (meta_rem R db_key s1))
                else (Inr (), snd (meta_set R db_key metadata1 s1))))"

text \<open>The chunk a departed node has held, with the holders that remain.\<close>

definition remove_holder_from :: "('m, 'h) register_api \<Rightarrow> XorName \<Rightarrow> BlobAddress \<Rightarrow>
    (BlobAddress, XorName btree_set) btree_map \<times> ('m, 'h) holder_dbs \<Rightarrow>
    unit result \<times> (BlobAddress, XorName btree_set) btree_map \<times> ('m, 'h) holder_dbs" where
  "remove_holder_from R node chunk_address st = (case address_key R chunk_address of
     Inl e \<Rightarrow> (Inl e, st)
   | Inr db_key \<Rightarrow> (case get_metadata_for R chunk_address (snd st) of
       Inl _ \<Rightarrow> (Inr (), st)
     | Inr metadata \<Rightarrow>
         let metadata1 = metadata\<lparr>cm_holders := bts_remove node (cm_holders metadata)\<rparr>;
             blob_addresses = btm_insert chunk_address (cm_holders metadata1) (fst st)
         in if cm_holders metadata1 = [] then (Inr (), blob_addresses, snd (meta_rem R db_key (snd st)))
            else (Inr (), blob_addresses, snd (meta_set R db_key metadata1 (snd st)))))"

definition remove_holder :: "('m, 'h) register_api \<Rightarrow> XorName \<Rightarrow> ('m, 'h) holder_dbs \<Rightarrow>
    (BlobAddress, XorName btree_set) btree_map result \<times> ('m, 'h) holder_dbs" where
  "remove_holder R node s =
     (case (case get_holder R node s of
         Inl _ \<Rightarrow> (Inr (), [], s)
       | Inr holder \<Rightarrow> try_fold (remove_holder_from R node) (hm_chunks holder) ([], s)) of
       (Inl e, st) \<Rightarrow> (Inl e, snd st)
     | (Inr _, blob_addresses, s1) \<Rightarrow> (case name_key R node of
         Inl e \<Rightarrow> (Inl e, s1)
       | Inr key \<Rightarrow> (Inr blob_addresses, snd (holders_rem R key s1))))"

definition update_holders :: "('m, 'h) register_api \<Rightarrow> BlobAddress \<Rightarrow> XorName \<Rightarrow> ('m, 'h) holder_dbs \<Rightarrow>
    NodeDuty result \<times> ('m, 'h) holder_dbs" where
  "update_holders R address holder s =
     (let chunk_metadata = unwrap_or cm_default (get_metadata_for R address s);
          chunk_metadata1 = chunk_metadata\<lparr>cm_holders := bts_insert holder (cm_holders chunk_metadata)\<rparr>
      in case address_key R address of
        Inl e \<Rightarrow> (Inl e, s)
      | Inr db_key \<Rightarrow>
          let s1 = snd (meta_set R db_key chunk_metadata1 s);
              holders_metadata = unwrap_or hm_default (get_holder R holder s1);
              holders_metadata1 = holders_metadata\<lparr>hm_chunks := bts_insert address (hm_chunks holders_metadata)\<rparr>
          in case name_key R holder of
            Inl e \<Rightarrow> (Inl e, s1)
          | Inr key \<Rightarrow> (Inr NoOp, snd (holders_set R key holders_metadata1 s1)))"

section \<open>Handlers\<close>

definition send_blob_cmd_error :: "externals \<Rightarrow> Error \<Rightarrow> MessageId \<Rightarrow> EndUser \<Rightarrow> NodeDuty result" where
  "send_blob_cmd_error E error msg_id origin = and_then (convert_to_error_message (texts E) error)
     (\<lambda>m. Inr (cmd_error_to E (CmdErrorData m) msg_id (DstEndUser origin)))"

text \<open>Filling up the holders of a chunk with the closest adults.\<close>

definition add_closest :: "XorName \<Rightarrow> XorName btree_set \<Rightarrow> XorName btree_set" where
  "add_closest holder existing_holders =
     (if holder \<notin> set existing_holders \<and> length existing_holders < CHUNK_COPY_COUNT
      then bts_insert holder existing_holders else existing_holders)"

definition set_chunk_holders :: "('m, 'h) register_api \<Rightarrow> BlobAddress \<Rightarrow> EndUser \<Rightarrow> XorName list \<Rightarrow>
    ('m, 'h) holder_dbs \<Rightarrow> ('m, 'h) holder_dbs" where
  "set_chunk_holders R address origin hs s =
     fold (\<lambda>holder s. snd (set_chunk_holder R address holder origin s)) hs s"

definition blob_reg_store :: "externals \<Rightarrow> ('m, 'h) register_api \<Rightarrow> Blob \<Rightarrow> MessageId \<Rightarrow> EndUser \<Rightarrow>
    ('m, 'h) holder_dbs \<Rightarrow> NodeDuty result \<times> ('m, 'h) holder_dbs" where
  "blob_reg_store E R data msg_id origin s =
     (let closest_holders = bts_collect (get_holders_for_chunk R (blob_name data));
          targets = (case get_metadata_for R (blob_address data) s of
            Inr metadata \<Rightarrow>
              if length (cm_holders metadata) = CHUNK_COPY_COUNT then
                Inl (if \<not> blob_is_private data then NoOp
                     else cmd_error_to E (CmdErrorData EmDataExists) msg_id (DstEndUser origin))
              else Inr (fold add_closest closest_holders (cm_holders metadata))
          | Inl _ \<Rightarrow> Inr closest_holders)
      in case targets of
        Inl duty \<Rightarrow> (Inr duty, s)
      | Inr target_holders \<Rightarrow>
          (Inr (SendToNodes target_holders (NodeCmdM (NodeChunksCmd (NewBlob data) origin) msg_id None)),
           set_chunk_holders R (blob_address data) origin target_holders s))"

definition blob_reg_delete :: "externals \<Rightarrow> ('m, 'h) register_api \<Rightarrow> BlobAddress \<Rightarrow> MessageId \<Rightarrow> EndUser \<Rightarrow>
    ('m, 'h) holder_dbs \<Rightarrow> NodeDuty result \<times> ('m, 'h) holder_dbs" where
  "blob_reg_delete E R address msg_id origin s = (case get_metadata_for R address s of
     Inl error \<Rightarrow> (send_blob_cmd_error E error msg_id origin, s)
   | Inr metadata \<Rightarrow>
       if (case cm_owner metadata of None \<Rightarrow> False | Some data_owner \<Rightarrow> data_owner \<noteq> end_user_id origin)
       then (send_blob_cmd_error E (NetworkData (DtAccessDenied (end_user_id origin))) msg_id origin, s)
       else
         (Inr (SendToNodes (cm_holders metadata)
            (NodeCmdM (NodeChunksCmd (DeletePrivate address) origin) msg_id None)),
          fold (\<lambda>holder_name s. snd (remove_chunk_holder R address holder_name s)) (cm_holders metadata) s))"

fun blob_reg_write :: "externals \<Rightarrow> ('m, 'h) register_api \<Rightarrow> BlobWrite \<Rightarrow> MessageId \<Rightarrow> EndUser \<Rightarrow>
    ('m, 'h) holder_dbs \<Rightarrow> NodeDuty result \<times> ('m, 'h) holder_dbs" where
  "blob_reg_write E R (NewBlob data) msg_id origin s = blob_reg_store E R data msg_id origin s"
| "blob_reg_write E R (DeletePrivate address) msg_id origin s = blob_reg_delete E R address msg_id origin s"

definition blob_reg_get :: "externals \<Rightarrow> ('m, 'h) register_api \<Rightarrow> BlobAddress \<Rightarrow> MessageId \<Rightarrow> EndUser \<Rightarrow>
    ('m, 'h) holder_dbs \<Rightarrow> NodeDuty result" where
  "blob_reg_get E R address msg_id origin s =
     (let query_error = (\<lambda>error. and_then (convert_to_error_message (texts E) error)
            (\<lambda>m. Inr (query_response_to E (GetBlobResponse (Inl m)) msg_id (DstEndUser origin))))
      in case get_metadata_for R address s of
        Inl error \<Rightarrow> query_error error
      | Inr metadata \<Rightarrow>
          if (case cm_owner metadata of None \<Rightarrow> False | Some data_owner \<Rightarrow> data_owner \<noteq> end_user_id origin)
          then query_error (NetworkData (DtAccessDenied (end_user_id origin)))
          else Inr (SendToNodes (cm_holders metadata)
            (NodeQueryM (NodeChunksQuery (GetBlobAt address) origin) msg_id None)))"

fun blob_reg_read :: "externals \<Rightarrow> ('m, 'h) register_api \<Rightarrow> BlobRead \<Rightarrow> MessageId \<Rightarrow> EndUser \<Rightarrow>
    ('m, 'h) holder_dbs \<Rightarrow> NodeDuty result" where
  "blob_reg_read E R (GetBlobAt address) msg_id origin s = blob_reg_get E R address msg_id origin s"

definition get_replication_msgs :: "externals \<Rightarrow> ('m, 'h) register_api \<Rightarrow> BlobAddress \<Rightarrow> XorName btree_set \<Rightarrow>
    ('m, 'h) holder_dbs \<Rightarrow> NodeDuties" where
  "get_replication_msgs E R address current_holders s =
     map (\<lambda>new_holder. Send \<lparr>
         msg = NodeCmdM (NodeSystem (ReplicateChunkCmd new_holder address current_holders))
           (combine E [blob_address_name address, new_holder]) None,
         dst = DstNode new_holder, section_source = True, aggregation = AggregationNone\<rparr>)
       (get_new_holders_for_chunk R address s)"

definition replicate_chunks :: "externals \<Rightarrow> ('m, 'h) register_api \<Rightarrow> XorName \<Rightarrow> ('m, 'h) holder_dbs \<Rightarrow>
    NodeDuties result \<times> ('m, 'h) holder_dbs" where
  "replicate_chunks E R holder s = (case remove_holder R holder s of
     (Inl _, s1) \<Rightarrow> (Inr [], s1)
   | (Inr chunks_stored, s1) \<Rightarrow>
       (Inr (concat (map (\<lambda>(address, holders). get_replication_msgs E R address holders s1) chunks_stored)), s1))"

section \<open>What the databases hold\<close>

definition holders_of :: "('m, 'h) register_api \<Rightarrow> ('m, 'h) holder_dbs \<Rightarrow> BlobAddress \<Rightarrow> XorName btree_set" where
  "holders_of R s a = (case get_metadata_for R a s of Inl _ \<Rightarrow> [] | Inr m \<Rightarrow> cm_holders m)"

definition chunks_of :: "('m, 'h) register_api \<Rightarrow> ('m, 'h) holder_dbs \<Rightarrow> XorName \<Rightarrow> BlobAddress btree_set" where
  "chunks_of R s h = (case get_holder R h s of Inl _ \<Rightarrow> [] | Inr m \<Rightarrow> hm_chunks m)"

definition owner_of :: "('m, 'h) register_api \<Rightarrow> ('m, 'h) holder_dbs \<Rightarrow> BlobAddress \<Rightarrow> PublicKey option" where
  "owner_of R s a = (case get_metadata_for R a s of Inl _ \<Rightarrow> None | Inr m \<Rightarrow> cm_owner m)"

text \<open>
  What the register relies on: the databases are maps, different identifiers have different
  keys; and, for what holds without failures, identifiers can be serialised and writes succeed.
\<close>

definition register_ok :: "('m, 'h) register_api \<Rightarrow> bool" where
  "register_ok R \<longleftrightarrow> pickle_ok (meta_api R) \<and> pickle_ok (holders_api R) \<and>
     (\<forall>a b k. address_key R a = Inr k \<longrightarrow> address_key R b = Inr k \<longrightarrow> a = b) \<and>
     (\<forall>a b k. name_key R a = Inr k \<longrightarrow> name_key R b = Inr k \<longrightarrow> a = b)"

definition register_reliable :: "('m, 'h) register_api \<Rightarrow> bool" where
  "register_reliable R \<longleftrightarrow> register_ok R \<and> pickle_reliable (meta_api R) \<and> pickle_reliable (holders_api R) \<and>
     (\<forall>a. address_bytes R a \<noteq> None) \<and> (\<forall>n. name_bytes R n \<noteq> None)"

lemma keys_ok:
  assumes "register_reliable R"
  shows "\<exists>k. address_key R a = Inr k" and "\<exists>k. name_key R n = Inr k"
  using assms by (auto simp: register_reliable_def address_key_def name_key_def to_db_key_def split: option.splits)

text \<open>The effect of a successful write on what is read.\<close>

lemma read_meta_set:
  assumes "register_reliable R" and "address_key R a = Inr k"
  shows "meta_set R k v s = (True, snd (meta_set R k v s))"
    and "get_metadata_for R b (snd (meta_set R k v s)) =
      (if b = a then (if cm_holders v = [] then Inl NoSuchChunk else Inr v) else get_metadata_for R b s)"
    and "get_holder R h (snd (meta_set R k v s)) = get_holder R h s"
proof -
  have ok: "fst (db_set (meta_api R) k v (metadata_db s))"
    using assms(1) by (simp add: register_reliable_def pickle_reliable_def)
  then show "meta_set R k v s = (True, snd (meta_set R k v s))"
    by (simp add: meta_set_def Let_def)
  have db: "db_get (meta_api R) (snd (db_set (meta_api R) k v (metadata_db s))) j =
      (if j = k then Some v else db_get (meta_api R) (metadata_db s) j)" for j
    using assms(1) ok by (simp add: register_reliable_def register_ok_def pickle_ok_def)
  obtain kb where kb: "address_key R b = Inr kb" using keys_ok(1) [OF assms(1)] by blast
  have "kb = k \<longleftrightarrow> b = a"
    using assms kb by (auto simp: register_reliable_def register_ok_def)
  with kb show "get_metadata_for R b (snd (meta_set R k v s)) =
      (if b = a then (if cm_holders v = [] then Inl NoSuchChunk else Inr v) else get_metadata_for R b s)"
    by (auto simp: get_metadata_for_def meta_set_def Let_def db)
  show "get_holder R h (snd (meta_set R k v s)) = get_holder R h s"
    by (simp add: get_holder_def meta_set_def Let_def)
qed

lemma read_meta_rem:
  assumes "register_reliable R" and "address_key R a = Inr k"
  shows "get_metadata_for R b (snd (meta_rem R k s)) =
      (if b = a then Inl NoSuchChunk else get_metadata_for R b s)"
    and "get_holder R h (snd (meta_rem R k s)) = get_holder R h s"
proof -
  have db: "db_get (meta_api R) (snd (db_rem (meta_api R) k (metadata_db s))) j =
      (if j = k then None else db_get (meta_api R) (metadata_db s) j)" for j
    using assms(1) by (simp add: register_reliable_def register_ok_def pickle_ok_def pickle_reliable_def)
  obtain kb where kb: "address_key R b = Inr kb" using keys_ok(1) [OF assms(1)] by blast
  have "kb = k \<longleftrightarrow> b = a"
    using assms kb by (auto simp: register_reliable_def register_ok_def)
  with kb show "get_metadata_for R b (snd (meta_rem R k s)) =
      (if b = a then Inl NoSuchChunk else get_metadata_for R b s)"
    by (auto simp: get_metadata_for_def meta_rem_def Let_def db)
  show "get_holder R h (snd (meta_rem R k s)) = get_holder R h s"
    by (simp add: get_holder_def meta_rem_def Let_def)
qed

lemma read_holders_set:
  assumes "register_reliable R" and "name_key R n = Inr k"
  shows "holders_set R k v s = (True, snd (holders_set R k v s))"
    and "get_holder R h (snd (holders_set R k v s)) =
      (if h = n then (if hm_chunks v = [] then Inl NoSuchChunk else Inr v) else get_holder R h s)"
    and "get_metadata_for R a (snd (holders_set R k v s)) = get_metadata_for R a s"
proof -
  have ok: "fst (db_set (holders_api R) k v (holders_db s))"
    using assms(1) by (simp add: register_reliable_def pickle_reliable_def)
  then show "holders_set R k v s = (True, snd (holders_set R k v s))"
    by (simp add: holders_set_def Let_def)
  have db: "db_get (holders_api R) (snd (db_set (holders_api R) k v (holders_db s))) j =
      (if j = k then Some v else db_get (holders_api R) (holders_db s) j)" for j
    using assms(1) ok by (simp add: register_reliable_def register_ok_def pickle_ok_def)
  obtain kh where kh: "name_key R h = Inr kh" using keys_ok(2) [OF assms(1)] by blast
  have "kh = k \<longleftrightarrow> h = n"
    using assms kh by (auto simp: register_reliable_def register_ok_def)
  with kh show "get_holder R h (snd (holders_set R k v s)) =
      (if h = n then (if hm_chunks v = [] then Inl NoSuchChunk else Inr v) else get_holder R h s)"
    by (auto simp: get_holder_def holders_set_def Let_def db)
  show "get_metadata_for R a (snd (holders_set R k v s)) = get_metadata_for R a s"
    by (simp add: get_metadata_for_def holders_set_def Let_def)
qed

lemma read_holders_rem:
  assumes "register_reliable R" and "name_key R n = Inr k"
  shows "get_holder R h (snd (holders_rem R k s)) = (if h = n then Inl NoSuchChunk else get_holder R h s)"
    and "get_metadata_for R a (snd (holders_rem R k s)) = get_metadata_for R a s"
proof -
  have db: "db_get (holders_api R) (snd (db_rem (holders_api R) k (holders_db s))) j =
      (if j = k then None else db_get (holders_api R) (holders_db s) j)" for j
    using assms(1) by (simp add: register_reliable_def register_ok_def pickle_ok_def pickle_reliable_def)
  obtain kh where kh: "name_key R h = Inr kh" using keys_ok(2) [OF assms(1)] by blast
  have "kh = k \<longleftrightarrow> h = n"
    using assms kh by (auto simp: register_reliable_def register_ok_def)
  with kh show "get_holder R h (snd (holders_rem R k s)) = (if h = n then Inl NoSuchChunk else get_holder R h s)"
    by (auto simp: get_holder_def holders_rem_def Let_def db)
  show "get_metadata_for R a (snd (holders_rem R k s)) = get_metadata_for R a s"
    by (simp add: get_metadata_for_def holders_rem_def Let_def)
qed

section \<open>Effects of the updates\<close>

lemma get_metadata_for_holders: "get_metadata_for R a s = Inr m \<Longrightarrow> cm_holders m \<noteq> []"
  by (auto simp: get_metadata_for_def and_then_def split: sum.splits option.splits if_splits)

lemma get_holder_chunks: "get_holder R h s = Inr m \<Longrightarrow> hm_chunks m \<noteq> []"
  by (auto simp: get_holder_def and_then_def split: sum.splits option.splits if_splits)

lemma bts_remove_notin [simp]: "x \<notin> set ys \<Longrightarrow> bts_remove x ys = ys"
  by (auto simp: bts_remove_def filter_id_conv)

lemma bts_insert_neq_Nil [simp]: "bts_insert x ys \<noteq> []"
  by (cases ys) auto

lemma set_chunk_holder_effect:
  assumes R: "register_reliable R" and step: "set_chunk_holder R a h origin s = (r, s')"
  shows "r = Inr ()"
    and "holders_of R s' = (holders_of R s)(a := bts_insert h (holders_of R s a))"
    and "chunks_of R s' = (chunks_of R s)(h := bts_insert a (chunks_of R s h))"
    and "owner_of R s' = (owner_of R s)(a := if blob_address_is_private a then Some (end_user_id origin) else owner_of R s a)"
proof -
  obtain k where k: "address_key R a = Inr k" using keys_ok(1) [OF R] by blast
  obtain n where n: "name_key R h = Inr n" using keys_ok(2) [OF R] by blast
  define m where "m = unwrap_or cm_default (get_metadata_for R a s)"
  define m1 where "m1 = (if blob_address_is_private a then m\<lparr>cm_owner := Some (end_user_id origin)\<rparr> else m)"
  define m2 where "m2 = m1\<lparr>cm_holders := bts_insert h (cm_holders m1)\<rparr>"
  define s1 where "s1 = snd (meta_set R k m2 s)"
  define c where "c = unwrap_or hm_default (get_holder R h s1)"
  define c1 where "c1 = c\<lparr>hm_chunks := bts_insert a (hm_chunks c)\<rparr>"
  note ms = read_meta_set [OF R k, where v = m2 and s = s, folded s1_def]
  note hs = read_holders_set [OF R n, where v = c1 and s = s1]
  have "set_chunk_holder R a h origin s = (Inr (), snd (holders_set R n c1 s1))"
    unfolding set_chunk_holder_def k Let_def sum.case m_def [symmetric]
    unfolding m1_def [symmetric]
    unfolding m2_def [symmetric]
    by (subst ms(1), simp only: prod.case bool.case n sum.case flip: c_def)
      (subst c1_def [symmetric], subst hs(1), simp)
  with step have r: "r = Inr ()" and s': "s' = snd (holders_set R n c1 s1)" by simp_all
  have md: "get_metadata_for R b s' = (if b = a then Inr m2 else get_metadata_for R b s)" for b
    by (simp add: s' hs(3) ms(2)) (simp add: m2_def)
  have ho: "get_holder R g s' = (if g = h then Inr c1 else get_holder R g s)" for g
    by (simp add: s' hs(2) ms(3)) (simp add: c1_def)
  have hm: "cm_holders m2 = bts_insert h (holders_of R s a)"
    "cm_owner m2 = (if blob_address_is_private a then Some (end_user_id origin) else owner_of R s a)"
    by (simp_all add: m2_def m1_def m_def unwrap_or_def holders_of_def owner_of_def cm_default_def split: sum.split)
  have hc: "hm_chunks c1 = bts_insert a (chunks_of R s h)"
    by (simp add: c1_def c_def unwrap_or_def chunks_of_def hm_default_def ms(3) split: sum.split)
  show "r = Inr ()" by (rule r)
  show "holders_of R s' = (holders_of R s)(a := bts_insert h (holders_of R s a))"
    by (simp add: fun_eq_iff holders_of_def [of R s'] md hm(1)) (simp add: holders_of_def)
  show "chunks_of R s' = (chunks_of R s)(h := bts_insert a (chunks_of R s h))"
    by (simp add: fun_eq_iff chunks_of_def [of R s'] ho hc) (simp add: chunks_of_def)
  show "owner_of R s' = (owner_of R s)(a := if blob_address_is_private a then Some (end_user_id origin) else owner_of R s a)"
    by (simp add: fun_eq_iff owner_of_def [of R s'] md hm(2)) (simp add: owner_of_def)
qed

text \<open>
  Writing back metadata from which a holder, or a chunk, was removed: an empty set is not
  written, its entry is removed.
\<close>

definition meta_put :: "('m, 'h) register_api \<Rightarrow> string \<Rightarrow> ChunkMetadata \<Rightarrow> ('m, 'h) holder_dbs \<Rightarrow> ('m, 'h) holder_dbs" where
  "meta_put R k m s = (if cm_holders m = [] then snd (meta_rem R k s) else snd (meta_set R k m s))"

definition holders_put :: "('m, 'h) register_api \<Rightarrow> string \<Rightarrow> HolderMetadata \<Rightarrow> ('m, 'h) holder_dbs \<Rightarrow> ('m, 'h) holder_dbs" where
  "holders_put R k m s = (if hm_chunks m = [] then snd (holders_rem R k s) else snd (holders_set R k m s))"

lemma read_meta_put:
  assumes "register_reliable R" and "address_key R a = Inr k"
  shows "get_metadata_for R b (meta_put R k m s) =
      (if b = a then (if cm_holders m = [] then Inl NoSuchChunk else Inr m) else get_metadata_for R b s)"
    and "get_holder R h (meta_put R k m s) = get_holder R h s"
  by (simp_all add: meta_put_def read_meta_rem [OF assms] read_meta_set(2,3) [OF assms])

lemma read_holders_put:
  assumes "register_reliable R" and "name_key R n = Inr k"
  shows "get_holder R h (holders_put R k m s) =
      (if h = n then (if hm_chunks m = [] then Inl NoSuchChunk else Inr m) else get_holder R h s)"
    and "get_metadata_for R a (holders_put R k m s) = get_metadata_for R a s"
  by (simp_all add: holders_put_def read_holders_rem [OF assms] read_holders_set(2,3) [OF assms])

lemma views_meta_put:
  assumes "register_reliable R" and "address_key R a = Inr k"
  shows "holders_of R (meta_put R k m s) = (holders_of R s)(a := cm_holders m)"
    and "chunks_of R (meta_put R k m s) = chunks_of R s"
    and "owner_of R (meta_put R k m s) = (owner_of R s)(a := if cm_holders m = [] then None else cm_owner m)"
  by (rule ext, simp add: holders_of_def chunks_of_def owner_of_def read_meta_put [OF assms])+

lemma views_holders_put:
  assumes "register_reliable R" and "name_key R n = Inr k"
  shows "holders_of R (holders_put R k m s) = holders_of R s"
    and "chunks_of R (holders_put R k m s) = (chunks_of R s)(n := hm_chunks m)"
    and "owner_of R (holders_put R k m s) = owner_of R s"
  by (rule ext, simp add: holders_of_def chunks_of_def owner_of_def read_holders_put [OF assms])+

lemma remove_chunk_holder_effect:
  assumes R: "register_reliable R" and step: "remove_chunk_holder R a h s = (r, s')" and held: "holders_of R s a \<noteq> []"
  shows "r = Inr ()"
    and "holders_of R s' = (holders_of R s)(a := bts_remove h (holders_of R s a))"
    and "chunks_of R s' = (chunks_of R s)(h := bts_remove a (chunks_of R s h))"
    and "owner_of R s' = (owner_of R s)(a := if bts_remove h (holders_of R s a) = [] then None else owner_of R s a)"
proof -
  obtain k where k: "address_key R a = Inr k" using keys_ok(1) [OF R] by blast
  obtain n where n: "name_key R h = Inr n" using keys_ok(2) [OF R] by blast
  obtain m where m: "get_metadata_for R a s = Inr m"
    using held by (cases "get_metadata_for R a s") (auto simp: holders_of_def)
  define m1 where "m1 = m\<lparr>cm_holders := bts_remove h (cm_holders m)\<rparr>"
  define s1 where "s1 = (case get_holder R h s of Inl _ \<Rightarrow> s
    | Inr c \<Rightarrow> holders_put R n (c\<lparr>hm_chunks := bts_remove a (hm_chunks c)\<rparr>) s)"
  have "remove_chunk_holder R a h s = (Inr (), meta_put R k m1 s1)"
    unfolding remove_chunk_holder_def k m n Let_def sum.case m1_def [symmetric]
    by (cases "get_holder R h s") (simp_all add: s1_def meta_put_def holders_put_def)
  with step have r: "r = Inr ()" and s': "s' = meta_put R k m1 s1" by simp_all
  have m1: "cm_holders m1 = bts_remove h (holders_of R s a)" "cm_owner m1 = owner_of R s a"
    by (simp_all add: m1_def holders_of_def owner_of_def m)
  have s1: "holders_of R s1 = holders_of R s" "owner_of R s1 = owner_of R s"
    "chunks_of R s1 = (chunks_of R s)(h := bts_remove a (chunks_of R s h))"
    by (cases "get_holder R h s"; simp add: s1_def views_holders_put [OF R n]
        chunks_of_def [of R s h] bts_remove_def fun_upd_idem)+
  show "r = Inr ()" by (rule r)
  show "holders_of R s' = (holders_of R s)(a := bts_remove h (holders_of R s a))"
    and "chunks_of R s' = (chunks_of R s)(h := bts_remove a (chunks_of R s h))"
    and "owner_of R s' = (owner_of R s)(a := if bts_remove h (holders_of R s a) = [] then None else owner_of R s a)"
    by (simp_all add: s' views_meta_put [OF R k] m1 s1)
qed

lemma update_holders_effect:
  assumes R: "register_reliable R" and step: "update_holders R a h s = (r, s')"
  shows "r = Inr NoOp"
    and "holders_of R s' = (holders_of R s)(a := bts_insert h (holders_of R s a))"
    and "chunks_of R s' = (chunks_of R s)(h := bts_insert a (chunks_of R s h))"
    and "owner_of R s' = owner_of R s"
proof -
  obtain k where k: "address_key R a = Inr k" using keys_ok(1) [OF R] by blast
  obtain n where n: "name_key R h = Inr n" using keys_ok(2) [OF R] by blast
  define m where "m = unwrap_or cm_default (get_metadata_for R a s)"
  define m1 where "m1 = m\<lparr>cm_holders := bts_insert h (cm_holders m)\<rparr>"
  define s1 where "s1 = meta_put R k m1 s"
  define c where "c = unwrap_or hm_default (get_holder R h s1)"
  define c1 where "c1 = c\<lparr>hm_chunks := bts_insert a (hm_chunks c)\<rparr>"
  have "update_holders R a h s = (Inr NoOp, holders_put R n c1 s1)"
    by (simp add: update_holders_def k n Let_def holders_put_def meta_put_def s1_def c1_def c_def m1_def m_def)
  with step have r: "r = Inr NoOp" and s': "s' = holders_put R n c1 s1" by simp_all
  have m1: "cm_holders m1 = bts_insert h (holders_of R s a)" "cm_owner m1 = owner_of R s a"
    by (simp_all add: m1_def m_def unwrap_or_def holders_of_def owner_of_def cm_default_def split: sum.split)
  have c1: "hm_chunks c1 = bts_insert a (chunks_of R s h)"
    by (simp add: c1_def c_def s1_def unwrap_or_def chunks_of_def hm_default_def read_meta_put(2) [OF R k] split: sum.split)
  show "r = Inr NoOp" by (rule r)
  show "holders_of R s' = (holders_of R s)(a := bts_insert h (holders_of R s a))"
    and "chunks_of R s' = (chunks_of R s)(h := bts_insert a (chunks_of R s h))"
    and "owner_of R s' = owner_of R s"
    by (simp_all add: s' s1_def views_holders_put [OF R n] views_meta_put [OF R k] m1 c1)
qed

section \<open>The two databases as one index\<close>

text \<open>Each database is the inverse of the other.\<close>

definition matched :: "('a::linorder \<Rightarrow> 'h::linorder btree_set) \<Rightarrow> ('h \<Rightarrow> 'a btree_set) \<Rightarrow> bool" where
  "matched H C \<longleftrightarrow> (\<forall>a h. h \<in> set (H a) \<longleftrightarrow> a \<in> set (C h)) \<and> (\<forall>a. bts_wf (H a)) \<and> (\<forall>h. bts_wf (C h))"

lemma matchedD:
  assumes "matched H C"
  shows "h \<in> set (H a) \<longleftrightarrow> a \<in> set (C h)" and "bts_wf (H a)" and "bts_wf (C h)"
  using assms by (auto simp: matched_def)

lemma matched_insert:
  "matched H C \<Longrightarrow> matched (H(a := bts_insert h (H a))) (C(h := bts_insert a (C h)))"
  by (auto simp: matched_def)

lemma matched_remove:
  "matched H C \<Longrightarrow> matched (H(a := bts_remove h (H a))) (C(h := bts_remove a (C h)))"
  by (auto simp: matched_def)

text \<open>
  The interface of recording a holder: what the two ways of doing it, for a blob that is stored
  and for a copy that was replicated, promise to the rest of the register.
\<close>

locale holder_index =
  fixes usable :: "'s \<Rightarrow> bool"
    and held_by :: "'s \<Rightarrow> 'a::linorder \<Rightarrow> 'h::linorder btree_set"
    and chunks_at :: "'s \<Rightarrow> 'h \<Rightarrow> 'a btree_set"
    and link :: "'a \<Rightarrow> 'h \<Rightarrow> 's \<Rightarrow> 's"
  assumes usable_link: "usable s \<Longrightarrow> usable (link a h s)"
    and held_by_link: "usable s \<Longrightarrow> held_by (link a h s) = (held_by s)(a := bts_insert h (held_by s a))"
    and chunks_at_link: "usable s \<Longrightarrow> chunks_at (link a h s) = (chunks_at s)(h := bts_insert a (chunks_at s h))"
begin

lemma usable_links: "usable s \<Longrightarrow> usable (fold (link a) hs s)"
  by (induction hs arbitrary: s) (simp_all add: usable_link)

lemma held_by_links:
  "usable s \<Longrightarrow> held_by (fold (link a) hs s) = (held_by s)(a := fold bts_insert hs (held_by s a))"
  by (induction hs arbitrary: s) (simp_all add: usable_link held_by_link)

lemma matched_links:
  "usable s \<Longrightarrow> matched (held_by s) (chunks_at s) \<Longrightarrow>
    matched (held_by (fold (link a) hs s)) (chunks_at (fold (link a) hs s))"
  by (induction hs arbitrary: s) (simp_all add: usable_link held_by_link chunks_at_link matched_insert)

end

interpretation storing: holder_index
  "\<lambda>s. register_reliable (fst s)" "\<lambda>s. holders_of (fst s) (snd (snd s))" "\<lambda>s. chunks_of (fst s) (snd (snd s))"
  "\<lambda>a h s. (fst s, fst (snd s), snd (set_chunk_holder (fst s) a h (fst (snd s)) (snd (snd s))))"
  by unfold_locales (simp_all add: set_chunk_holder_effect [OF _ prod.collapse [symmetric]])

interpretation replicating: holder_index
  "\<lambda>s. register_reliable (fst s)" "\<lambda>s. holders_of (fst s) (snd s)" "\<lambda>s. chunks_of (fst s) (snd s)"
  "\<lambda>a h s. (fst s, snd (update_holders (fst s) a h (snd s)))"
  by unfold_locales (simp_all add: update_holders_effect [OF _ prod.collapse [symmetric]])

lemma set_chunk_holders_fold:
  "fold (\<lambda>h s. (fst s, fst (snd s), snd (set_chunk_holder (fst s) a h (fst (snd s)) (snd (snd s))))) hs (R, origin, s) =
    (R, origin, set_chunk_holders R a origin hs s)"
  by (induction hs arbitrary: s) (simp_all add: set_chunk_holders_def)

lemma set_chunk_holders_effect:
  assumes "register_reliable R"
  shows "holders_of R (set_chunk_holders R a origin hs s) = (holders_of R s)(a := fold bts_insert hs (holders_of R s a))"
    and "matched (holders_of R s) (chunks_of R s) \<Longrightarrow>
      matched (holders_of R (set_chunk_holders R a origin hs s)) (chunks_of R (set_chunk_holders R a origin hs s))"
  using storing.held_by_links [of "(R, origin, s)" a hs] storing.matched_links [of "(R, origin, s)" a hs] assms
  by (simp_all add: set_chunk_holders_fold)

lemma set_chunk_holders_owner:
  assumes "register_reliable R"
  shows "owner_of R (set_chunk_holders R a origin hs s) = (owner_of R s)
    (a := if blob_address_is_private a \<and> hs \<noteq> [] then Some (end_user_id origin) else owner_of R s a)"
proof (induction hs arbitrary: s)
  case (Cons h hs)
  show ?case
    using Cons.IH [of "snd (set_chunk_holder R a h origin s)"]
    by (auto simp: fun_eq_iff set_chunk_holders_def set_chunk_holder_effect(4) [OF assms prod.collapse [symmetric]])
qed (simp add: set_chunk_holders_def)

text \<open>Removing all holders of a chunk, as a delete does.\<close>

definition remove_chunk_holders :: "('m, 'h) register_api \<Rightarrow> BlobAddress \<Rightarrow> XorName list \<Rightarrow>
    ('m, 'h) holder_dbs \<Rightarrow> ('m, 'h) holder_dbs" where
  "remove_chunk_holders R a hs s = fold (\<lambda>h s. snd (remove_chunk_holder R a h s)) hs s"

lemma remove_chunk_holders_effect:
  assumes R: "register_reliable R"
  shows "distinct hs \<Longrightarrow> set hs \<subseteq> set (holders_of R s a) \<Longrightarrow>
      holders_of R (remove_chunk_holders R a hs s) = (holders_of R s)(a := filter (\<lambda>h. h \<notin> set hs) (holders_of R s a))"
    and "distinct hs \<Longrightarrow> set hs \<subseteq> set (holders_of R s a) \<Longrightarrow> matched (holders_of R s) (chunks_of R s) \<Longrightarrow>
      matched (holders_of R (remove_chunk_holders R a hs s)) (chunks_of R (remove_chunk_holders R a hs s))"
    and "distinct hs \<Longrightarrow> set hs \<subseteq> set (holders_of R s a) \<Longrightarrow> b \<noteq> a \<Longrightarrow>
      owner_of R (remove_chunk_holders R a hs s) b = owner_of R s b"
proof -
  have all: "distinct hs \<Longrightarrow> set hs \<subseteq> set (holders_of R s a) \<Longrightarrow>
      holders_of R (remove_chunk_holders R a hs s) = (holders_of R s)(a := filter (\<lambda>h. h \<notin> set hs) (holders_of R s a)) \<and>
      (matched (holders_of R s) (chunks_of R s) \<longrightarrow>
        matched (holders_of R (remove_chunk_holders R a hs s)) (chunks_of R (remove_chunk_holders R a hs s))) \<and>
      (b \<noteq> a \<longrightarrow> owner_of R (remove_chunk_holders R a hs s) b = owner_of R s b)"
  proof (induction hs arbitrary: s)
    case (Cons h hs)
    obtain r s1 where s1: "remove_chunk_holder R a h s = (r, s1)" by (metis surj_pair)
    have held: "holders_of R s a \<noteq> []" using Cons.prems(2) by auto
    have eq: "remove_chunk_holders R a (h # hs) s = remove_chunk_holders R a hs s1"
      by (simp add: remove_chunk_holders_def s1)
    note ef = remove_chunk_holder_effect [OF R s1 held]
    have "distinct hs" "set hs \<subseteq> set (holders_of R s1 a)" using Cons.prems by (auto simp: ef)
    note IH = Cons.IH [OF this]
    have "filter (\<lambda>h. h \<notin> set hs) (bts_remove h (holders_of R s a)) = filter (\<lambda>x. x \<notin> set (h # hs)) (holders_of R s a)"
      by (auto simp: bts_remove_def intro: filter_cong)
    then have "holders_of R (remove_chunk_holders R a (h # hs) s) =
        (holders_of R s)(a := filter (\<lambda>x. x \<notin> set (h # hs)) (holders_of R s a))"
      using IH unfolding eq ef fun_upd_same fun_upd_upd by (elim conjE) (simp only: )
    moreover have "matched (holders_of R s1) (chunks_of R s1)" if "matched (holders_of R s) (chunks_of R s)"
      unfolding ef by (rule matched_remove [OF that])
    moreover have "b \<noteq> a \<Longrightarrow> owner_of R s1 b = owner_of R s b" unfolding ef by simp
    ultimately show ?case using IH unfolding eq by metis
  qed (simp add: remove_chunk_holders_def)
  then show "distinct hs \<Longrightarrow> set hs \<subseteq> set (holders_of R s a) \<Longrightarrow>
      holders_of R (remove_chunk_holders R a hs s) = (holders_of R s)(a := filter (\<lambda>h. h \<notin> set hs) (holders_of R s a))"
    and "distinct hs \<Longrightarrow> set hs \<subseteq> set (holders_of R s a) \<Longrightarrow> matched (holders_of R s) (chunks_of R s) \<Longrightarrow>
      matched (holders_of R (remove_chunk_holders R a hs s)) (chunks_of R (remove_chunk_holders R a hs s))"
    and "distinct hs \<Longrightarrow> set hs \<subseteq> set (holders_of R s a) \<Longrightarrow> b \<noteq> a \<Longrightarrow>
      owner_of R (remove_chunk_holders R a hs s) b = owner_of R s b"
    by blast+
qed

text \<open>A departed node, taken off the holders of each of its chunks.\<close>

lemma remove_holder_from_effect:
  assumes R: "register_reliable R" and "remove_holder_from R node a (m, s) = (r, m', s')"
  shows "r = Inr ()"
    and "holders_of R s' = (holders_of R s)(a := bts_remove node (holders_of R s a))"
    and "chunks_of R s' = chunks_of R s"
    and "m' = (if holders_of R s a = [] then m else btm_insert a (bts_remove node (holders_of R s a)) m)"
    and "bts_remove node (holders_of R s b) \<noteq> [] \<Longrightarrow> owner_of R s' b = owner_of R s b"
proof -
  obtain k where k: "address_key R a = Inr k" using keys_ok(1) [OF R] by blast
  have "r = Inr () \<and> holders_of R s' = (holders_of R s)(a := bts_remove node (holders_of R s a)) \<and>
    chunks_of R s' = chunks_of R s \<and>
    m' = (if holders_of R s a = [] then m else btm_insert a (bts_remove node (holders_of R s a)) m) \<and>
    (bts_remove node (holders_of R s b) \<noteq> [] \<longrightarrow> owner_of R s' b = owner_of R s b)"
  proof (cases "get_metadata_for R a s")
    case (Inl e)
    then have "holders_of R s a = []" by (simp add: holders_of_def)
    moreover have "r = Inr () \<and> m' = m \<and> s' = s" using assms(2) k Inl by (simp add: remove_holder_from_def)
    ultimately show ?thesis by (simp add: bts_remove_def fun_upd_idem)
  next
    case (Inr md)
    define md1 where "md1 = md\<lparr>cm_holders := bts_remove node (cm_holders md)\<rparr>"
    have ne: "cm_holders md \<noteq> []" using Inr by (rule get_metadata_for_holders)
    have "remove_holder_from R node a (m, s) = (Inr (), btm_insert a (cm_holders md1) m, meta_put R k md1 s)"
      unfolding remove_holder_from_def k Inr Let_def sum.case fst_conv snd_conv md1_def [symmetric]
      by (simp add: meta_put_def)
    with assms(2) have eq: "r = Inr ()" "m' = btm_insert a (cm_holders md1) m" "s' = meta_put R k md1 s" by simp_all
    have md1: "cm_holders md1 = bts_remove node (holders_of R s a)" "cm_owner md1 = owner_of R s a"
      "holders_of R s a \<noteq> []"
      by (simp_all add: md1_def holders_of_def owner_of_def Inr ne)
    show ?thesis by (auto simp: eq views_meta_put [OF R k] md1)
  qed
  then show "r = Inr ()" "holders_of R s' = (holders_of R s)(a := bts_remove node (holders_of R s a))"
    "chunks_of R s' = chunks_of R s"
    "m' = (if holders_of R s a = [] then m else btm_insert a (bts_remove node (holders_of R s a)) m)"
    "bts_remove node (holders_of R s b) \<noteq> [] \<Longrightarrow> owner_of R s' b = owner_of R s b"
    by simp_all
qed

lemma remove_holder_fold:
  assumes R: "register_reliable R"
  shows "distinct xs \<Longrightarrow> btm_wf m \<Longrightarrow> \<exists>m' s'. try_fold (remove_holder_from R node) xs (m, s) = (Inr (), m', s') \<and>
    chunks_of R s' = chunks_of R s \<and> btm_wf m' \<and>
    (\<forall>a. holders_of R s' a = (if a \<in> set xs then bts_remove node (holders_of R s a) else holders_of R s a)) \<and>
    (\<forall>a. btm_get m' a = (if a \<in> set xs \<and> holders_of R s a \<noteq> []
       then Some (bts_remove node (holders_of R s a)) else btm_get m a)) \<and>
    (\<forall>b. bts_remove node (holders_of R s b) \<noteq> [] \<longrightarrow> owner_of R s' b = owner_of R s b)"
proof (induction xs arbitrary: m s)
  case (Cons x xs)
  obtain r m1 s1 where step: "remove_holder_from R node x (m, s) = (r, m1, s1)" by (metis surj_pair)
  note ef = remove_holder_from_effect [OF R step]
  have wf1: "btm_wf m1" using Cons.prems(2) by (simp add: ef(4))
  have H1: "holders_of R s1 a = (if a = x then bts_remove node (holders_of R s x) else holders_of R s a)" for a
    by (simp add: ef(2))
  have M1: "btm_get m1 a = (if a = x \<and> holders_of R s x \<noteq> [] then Some (bts_remove node (holders_of R s x)) else btm_get m a)" for a
    by (simp add: ef(4))
  have idem: "bts_remove node (bts_remove node l) = bts_remove node l" for l by (simp add: bts_remove_def)
  have "distinct xs" using Cons.prems(1) by simp
  from Cons.IH [OF this wf1, of s1] obtain m' s' where
      run: "try_fold (remove_holder_from R node) xs (m1, s1) = (Inr (), m', s')"
      and C: "chunks_of R s' = chunks_of R s1" and wf: "btm_wf m'"
      and H: "\<And>a. holders_of R s' a = (if a \<in> set xs then bts_remove node (holders_of R s1 a) else holders_of R s1 a)"
      and M: "\<And>a. btm_get m' a = (if a \<in> set xs \<and> holders_of R s1 a \<noteq> []
         then Some (bts_remove node (holders_of R s1 a)) else btm_get m1 a)"
      and O: "\<And>b. bts_remove node (holders_of R s1 b) \<noteq> [] \<Longrightarrow> owner_of R s' b = owner_of R s1 b"
    by blast
  have "try_fold (remove_holder_from R node) (x # xs) (m, s) = (Inr (), m', s')"
    using step ef(1) run by simp
  moreover have "owner_of R s' b = owner_of R s b" if "bts_remove node (holders_of R s b) \<noteq> []" for b
    using that O [of b] ef(5) [of b] by (cases "b = x") (simp_all add: H1 idem)
  moreover have "\<forall>a. holders_of R s' a = (if a \<in> set (x # xs) then bts_remove node (holders_of R s a) else holders_of R s a)"
    using Cons.prems(1) by (simp add: H H1)
  moreover have "\<forall>a. btm_get m' a = (if a \<in> set (x # xs) \<and> holders_of R s a \<noteq> []
       then Some (bts_remove node (holders_of R s a)) else btm_get m a)"
    using Cons.prems(1) by (auto simp: M M1 H1)
  ultimately show ?case using C wf ef(3) by metis
qed simp

lemma remove_holder_effect:
  assumes R: "register_reliable R" and inv: "matched (holders_of R s) (chunks_of R s)"
  shows "\<exists>m s'. remove_holder R node s = (Inr m, s') \<and> btm_wf m \<and>
    holders_of R s' = (\<lambda>a. bts_remove node (holders_of R s a)) \<and>
    chunks_of R s' = (chunks_of R s)(node := []) \<and>
    (\<forall>a. btm_get m a = (if node \<in> set (holders_of R s a) then Some (bts_remove node (holders_of R s a)) else None)) \<and>
    (\<forall>b. bts_remove node (holders_of R s b) \<noteq> [] \<longrightarrow> owner_of R s' b = owner_of R s b)"
proof -
  obtain n where n: "name_key R node = Inr n" using keys_ok(2) [OF R] by blast
  have xs: "distinct (chunks_of R s node)" by (rule bts_wf_distinct [OF matchedD(3) [OF inv]])
  from remove_holder_fold [OF R xs, of "[]" node s] obtain m s1 where
      run: "try_fold (remove_holder_from R node) (chunks_of R s node) ([], s) = (Inr (), m, s1)"
      and C: "chunks_of R s1 = chunks_of R s" and wf: "btm_wf m"
      and H: "\<And>a. holders_of R s1 a = (if a \<in> set (chunks_of R s node) then bts_remove node (holders_of R s a) else holders_of R s a)"
      and M: "\<And>a. btm_get m a = (if a \<in> set (chunks_of R s node) \<and> holders_of R s a \<noteq> []
         then Some (bts_remove node (holders_of R s a)) else None)"
      and O: "\<forall>b. bts_remove node (holders_of R s b) \<noteq> [] \<longrightarrow> owner_of R s1 b = owner_of R s b"
    by auto
  define s2 where "s2 = snd (holders_rem R n s1)"
  have "remove_holder R node s = (Inr m, s2)"
    using run by (cases "get_holder R node s") (simp_all add: remove_holder_def chunks_of_def n s2_def)
  moreover have "holders_of R s2 = holders_of R s1" "chunks_of R s2 = (chunks_of R s1)(node := [])"
    "owner_of R s2 = owner_of R s1"
    by (rule ext, simp add: s2_def holders_of_def chunks_of_def owner_of_def read_holders_rem [OF R n])+
  moreover have "holders_of R s1 a = bts_remove node (holders_of R s a)" for a
    using matchedD(1) [OF inv, of node a]
    by (cases "node \<in> set (holders_of R s a)") (simp_all add: H)
  moreover have "btm_get m a = (if node \<in> set (holders_of R s a) then Some (bts_remove node (holders_of R s a)) else None)" for a
    using matchedD(1) [OF inv, of node a] by (auto simp: M)
  ultimately show ?thesis using wf O C by (metis (no_types, lifting) ext)
qed

end
