(* ===== verification/Blob_Register_Correct.thy ===== *)
theory Blob_Register_Correct
  imports Blob_Register
begin

text \<open>
  What the register of blobs guarantees over its whole life: the two databases stay inverse to
  each other, a chunk has at most four recorded holders, reads go where the copies were sent,
  a departed node is forgotten and exactly the missing copies are asked for; and two behaviours
  the code does not intend.
\<close>

section \<open>The life of a register\<close>

definition empty_dbs :: "('m, 'h) register_api \<Rightarrow> ('m, 'h) holder_dbs \<Rightarrow> bool" where
  "empty_dbs R s \<longleftrightarrow> (\<forall>k. db_get (meta_api R) (metadata_db s) k = None) \<and>
     (\<forall>k. db_get (holders_api R) (holders_db s) k = None)"

text \<open>
  The register serves writes and the loss of members, while the adults of the section change
  between any two operations.
\<close>

inductive register_reachable :: "externals \<Rightarrow> ('m, 'h) register_api \<Rightarrow> ('m, 'h) holder_dbs \<Rightarrow> bool" for E R where
  start: "empty_dbs R s \<Longrightarrow> register_reachable E R s"
| written: "register_reachable E R s \<Longrightarrow> blob_reg_write E (R\<lparr>reader := rd\<rparr>) wr msg_id origin s = (r, s') \<Longrightarrow>
    register_reachable E R s'"
| lost: "register_reachable E R s \<Longrightarrow> replicate_chunks E (R\<lparr>reader := rd\<rparr>) node s = (r', s') \<Longrightarrow>
    register_reachable E R s'"

text \<open>What is recorded does not depend on the adults there are now.\<close>

lemma reader_irrelevant [simp]:
  "get_metadata_for (R\<lparr>reader := rd\<rparr>) = get_metadata_for R" "get_holder (R\<lparr>reader := rd\<rparr>) = get_holder R"
  "holders_of (R\<lparr>reader := rd\<rparr>) = holders_of R" "chunks_of (R\<lparr>reader := rd\<rparr>) = chunks_of R"
  "owner_of (R\<lparr>reader := rd\<rparr>) = owner_of R"
proof -
  show md: "get_metadata_for (R\<lparr>reader := rd\<rparr>) = get_metadata_for R"
    and ho: "get_holder (R\<lparr>reader := rd\<rparr>) = get_holder R"
    by (simp_all add: fun_eq_iff get_metadata_for_def get_holder_def address_key_def name_key_def)
  show "holders_of (R\<lparr>reader := rd\<rparr>) = holders_of R" "chunks_of (R\<lparr>reader := rd\<rparr>) = chunks_of R"
    "owner_of (R\<lparr>reader := rd\<rparr>) = owner_of R"
    by (simp_all add: fun_eq_iff holders_of_def chunks_of_def owner_of_def md ho)
qed

lemma register_reliable_reader [simp]: "register_reliable (R\<lparr>reader := rd\<rparr>) = register_reliable R"
  by (simp add: register_reliable_def register_ok_def address_key_def name_key_def)

definition register_inv :: "('m, 'h) register_api \<Rightarrow> ('m, 'h) holder_dbs \<Rightarrow> bool" where
  "register_inv R s \<longleftrightarrow> matched (holders_of R s) (chunks_of R s) \<and> (\<forall>a. length (holders_of R s a) \<le> CHUNK_COPY_COUNT) \<and>
     (\<forall>a. \<not> blob_address_is_private a \<longrightarrow> owner_of R s a = None)"

lemma owner_of_no_holders: "holders_of R s a = [] \<Longrightarrow> owner_of R s a = None"
  using get_metadata_for_holders by (cases "get_metadata_for R a s") (auto simp: holders_of_def owner_of_def)

lemma register_inv_empty: "empty_dbs R s \<Longrightarrow> register_inv R s"
  by (auto simp: empty_dbs_def register_inv_def matched_def holders_of_def chunks_of_def owner_of_def
      get_metadata_for_def get_holder_def and_then_def split: sum.splits)

section \<open>Storing\<close>

lemma fold_add_closest:
  "length hs \<le> CHUNK_COPY_COUNT \<Longrightarrow> bts_wf hs \<Longrightarrow>
    length (fold add_closest cs hs) \<le> CHUNK_COPY_COUNT \<and> bts_wf (fold add_closest cs hs) \<and> set hs \<subseteq> set (fold add_closest cs hs)"
proof (induction cs arbitrary: hs)
  case (Cons c cs)
  have "length (add_closest c hs) \<le> CHUNK_COPY_COUNT \<and> bts_wf (add_closest c hs) \<and> set hs \<subseteq> set (add_closest c hs)"
    using Cons.prems by (auto simp: add_closest_def length_bts_insert)
  with Cons.IH [of "add_closest c hs"] show ?case by auto
qed simp

lemma bts_wf_ext: "bts_wf xs \<Longrightarrow> bts_wf ys \<Longrightarrow> set xs = set ys \<Longrightarrow> xs = ys"
  by (simp add: bts_wf_def strict_sorted_equal)

lemma fold_bts_insert_superset:
  "bts_wf xs \<Longrightarrow> bts_wf ys \<Longrightarrow> set xs \<subseteq> set ys \<Longrightarrow> fold bts_insert ys xs = ys"
  by (intro bts_wf_ext) (auto simp: bts_wf_fold_insert set_fold_bts_insert)

text \<open>The holders a blob is sent to, when there is something to send.\<close>

definition target_holders :: "('m, 'h) register_api \<Rightarrow> BlobAddress \<Rightarrow> ('m, 'h) holder_dbs \<Rightarrow> XorName btree_set" where
  "target_holders R a s = (let closest = bts_collect (get_holders_for_chunk R (blob_address_name a)) in
     if holders_of R s a = [] then closest else fold add_closest closest (holders_of R s a))"

lemma target_holders_bound:
  assumes "length (holders_of R s a) \<le> CHUNK_COPY_COUNT" and "bts_wf (holders_of R s a)"
  shows "length (target_holders R a s) \<le> CHUNK_COPY_COUNT" and "bts_wf (target_holders R a s)"
    and "set (holders_of R s a) \<subseteq> set (target_holders R a s)"
proof -
  let ?c = "bts_collect (get_holders_for_chunk R (blob_address_name a))"
  have "length ?c \<le> length (get_holders_for_chunk R (blob_address_name a))"
    by (simp add: length_bts card_length)
  then have "length ?c \<le> CHUNK_COPY_COUNT"
    using length_reader_adults [of "reader R" "blob_address_name a" CHUNK_COPY_COUNT]
    unfolding get_holders_for_chunk_def by (rule le_trans)
  with fold_add_closest [OF assms, of ?c]
  show "length (target_holders R a s) \<le> CHUNK_COPY_COUNT" "bts_wf (target_holders R a s)"
    "set (holders_of R s a) \<subseteq> set (target_holders R a s)"
    by (simp_all add: target_holders_def Let_def)
qed

text \<open>A store of a blob either finds four copies, or sends the blob to its target holders and records them.\<close>

lemma blob_reg_store_cases:
  "blob_reg_store E R data msg_id origin s =
    (if length (holders_of R s (blob_address data)) = CHUNK_COPY_COUNT then
       (Inr (if \<not> blob_is_private data then NoOp
             else cmd_error_to E (CmdErrorData EmDataExists) msg_id (DstEndUser origin)), s)
     else (Inr (SendToNodes (target_holders R (blob_address data) s)
             (NodeCmdM (NodeChunksCmd (NewBlob data) origin) msg_id None)),
           set_chunk_holders R (blob_address data) origin (target_holders R (blob_address data) s) s))"
proof (cases "get_metadata_for R (blob_address data) s")
  case (Inl e)
  then show ?thesis
    by (simp add: blob_reg_store_def target_holders_def holders_of_def CHUNK_COPY_COUNT_def Let_def blob_name_def)
next
  case (Inr m)
  with get_metadata_for_holders [OF Inr] show ?thesis
    by (simp add: blob_reg_store_def target_holders_def holders_of_def Let_def blob_name_def)
qed

lemma store_holders:
  assumes R: "register_reliable R" and inv: "register_inv R s"
    and "blob_reg_store E R data msg_id origin s = (Inr (SendToNodes ts m), s')"
  shows "ts = target_holders R (blob_address data) s" and "m = NodeCmdM (NodeChunksCmd (NewBlob data) origin) msg_id None"
    and "holders_of R s' = (holders_of R s)(blob_address data := ts)"
    and "s' = set_chunk_holders R (blob_address data) origin ts s"
proof -
  let ?a = "blob_address data"
  from assms(3) show ts: "ts = target_holders R ?a s" and "m = NodeCmdM (NodeChunksCmd (NewBlob data) origin) msg_id None"
    and s': "s' = set_chunk_holders R ?a origin ts s"
    by (auto simp: blob_reg_store_cases split: if_splits)
  have wf: "bts_wf (holders_of R s ?a)" and len: "length (holders_of R s ?a) \<le> CHUNK_COPY_COUNT"
    using inv matchedD(2) by (auto simp: register_inv_def)
  note tb = target_holders_bound [OF len wf]
  have "fold bts_insert ts (holders_of R s ?a) = ts"
    unfolding ts by (rule fold_bts_insert_superset [OF wf tb(2,3)])
  then show "holders_of R s' = (holders_of R s)(?a := ts)"
    unfolding s' set_chunk_holders_effect(1) [OF R] by simp
qed

lemma store_inv:
  assumes R: "register_reliable R" and inv: "register_inv R s"
    and st: "blob_reg_store E R data msg_id origin s = (r, s')"
  shows "register_inv R s'"
proof (cases "s' = s")
  case False
  then obtain ts m where r: "r = Inr (SendToNodes ts m)"
    using st by (auto simp: blob_reg_store_cases split: if_splits)
  note sh = store_holders [OF R inv st [unfolded r]]
  have wf: "bts_wf (holders_of R s (blob_address data))"
    and len: "length (holders_of R s (blob_address data)) \<le> CHUNK_COPY_COUNT"
    using inv matchedD(2) by (auto simp: register_inv_def)
  have "length ts \<le> CHUNK_COPY_COUNT" unfolding sh(1) by (rule target_holders_bound(1) [OF len wf])
  moreover have "matched (holders_of R s') (chunks_of R s')"
    unfolding sh(4) by (rule set_chunk_holders_effect(2) [OF R]) (use inv in \<open>simp add: register_inv_def\<close>)
  moreover have "owner_of R s' a = None" if "\<not> blob_address_is_private a" for a
    using inv that by (auto simp: register_inv_def sh(4) set_chunk_holders_owner [OF R])
  ultimately show ?thesis using inv by (simp add: register_inv_def sh(3))
qed (use inv in simp)

section \<open>Deleting\<close>

text \<open>Who may read or delete what is registered at an address.\<close>

definition may_access :: "('m, 'h) register_api \<Rightarrow> BlobAddress \<Rightarrow> EndUser \<Rightarrow> ('m, 'h) holder_dbs \<Rightarrow> bool" where
  "may_access R a origin s \<longleftrightarrow> (\<forall>k. owner_of R s a = Some k \<longrightarrow> k = end_user_id origin)"

lemma blob_reg_delete_cases:
  "blob_reg_delete E R a msg_id origin s = (case get_metadata_for R a s of
     Inl e \<Rightarrow> (send_blob_cmd_error E e msg_id origin, s)
   | Inr md \<Rightarrow> if may_access R a origin s
       then (Inr (SendToNodes (holders_of R s a) (NodeCmdM (NodeChunksCmd (DeletePrivate a) origin) msg_id None)),
             remove_chunk_holders R a (holders_of R s a) s)
       else (Inr (cmd_error_to E (CmdErrorData (EmAccessDenied (end_user_id origin))) msg_id (DstEndUser origin)), s))"
  by (auto simp: blob_reg_delete_def may_access_def owner_of_def holders_of_def remove_chunk_holders_def
      send_blob_cmd_error_def convert_to_error_message_def split: sum.splits option.splits)

lemma blob_reg_get_cases:
  "get_metadata_for R a s = Inr md \<Longrightarrow> blob_reg_get E R a msg_id origin s =
    (if may_access R a origin s
     then Inr (SendToNodes (holders_of R s a) (NodeQueryM (NodeChunksQuery (GetBlobAt a) origin) msg_id None))
     else Inr (query_response_to E (GetBlobResponse (Inl (EmAccessDenied (end_user_id origin)))) msg_id (DstEndUser origin)))"
  by (auto simp: blob_reg_get_def may_access_def owner_of_def holders_of_def convert_to_error_message_def Let_def
      split: option.splits)

lemma holders_of_neq_Nil: "holders_of R s a \<noteq> [] \<Longrightarrow> \<exists>md. get_metadata_for R a s = Inr md"
  by (cases "get_metadata_for R a s") (auto simp: holders_of_def)

lemma owner_of_held: "owner_of R s a = Some k \<Longrightarrow> \<exists>md. get_metadata_for R a s = Inr md"
  by (cases "get_metadata_for R a s") (auto simp: owner_of_def)

lemma delete_inv:
  assumes R: "register_reliable R" and inv: "register_inv R s"
    and st: "blob_reg_delete E R a msg_id origin s = (r, s')"
  shows "register_inv R s'"
proof (cases "s' = s")
  case False
  with st have s': "s' = remove_chunk_holders R a (holders_of R s a) s"
    by (auto simp: blob_reg_delete_cases split: sum.splits if_splits)
  have m: "matched (holders_of R s) (chunks_of R s)" using inv by (simp add: register_inv_def)
  have dist: "distinct (holders_of R s a)" by (rule bts_wf_distinct [OF matchedD(2) [OF m]])
  note ef = remove_chunk_holders_effect [OF R dist subset_refl, folded s']
  have "owner_of R s' b = None" if "\<not> blob_address_is_private b" for b
  proof (cases "b = a")
    case True
    then show ?thesis by (intro owner_of_no_holders) (simp add: ef(1))
  next
    case False
    with that inv show ?thesis by (simp add: ef(3) register_inv_def)
  qed
  then show ?thesis using ef(1,2) m inv by (simp add: register_inv_def)
qed (use inv in simp)

section \<open>Losing a member\<close>

lemma replicate_chunks_effect:
  assumes R: "register_reliable R" and inv: "register_inv R s"
  shows "\<exists>m s'. replicate_chunks E R node s =
      (Inr (concat (map (\<lambda>(a, hs). get_replication_msgs E R a hs s') m)), s') \<and> btm_wf m \<and>
    holders_of R s' = (\<lambda>a. bts_remove node (holders_of R s a)) \<and> chunks_of R s' = (chunks_of R s)(node := []) \<and>
    (\<forall>a. btm_get m a = (if node \<in> set (holders_of R s a) then Some (bts_remove node (holders_of R s a)) else None)) \<and>
    (\<forall>b. bts_remove node (holders_of R s b) \<noteq> [] \<longrightarrow> owner_of R s' b = owner_of R s b)"
proof -
  have "matched (holders_of R s) (chunks_of R s)" using inv by (simp add: register_inv_def)
  from remove_holder_effect [OF R this, of node] obtain m s' where
      "remove_holder R node s = (Inr m, s')" and rest: "btm_wf m"
      "holders_of R s' = (\<lambda>a. bts_remove node (holders_of R s a))" "chunks_of R s' = (chunks_of R s)(node := [])"
      "\<forall>a. btm_get m a = (if node \<in> set (holders_of R s a) then Some (bts_remove node (holders_of R s a)) else None)"
      "\<forall>b. bts_remove node (holders_of R s b) \<noteq> [] \<longrightarrow> owner_of R s' b = owner_of R s b"
    by blast
  then have "replicate_chunks E R node s = (Inr (concat (map (\<lambda>(a, hs). get_replication_msgs E R a hs s') m)), s')"
    by (simp add: replicate_chunks_def)
  with rest show ?thesis by blast
qed

lemma lost_inv:
  assumes R: "register_reliable R" and inv: "register_inv R s"
    and st: "replicate_chunks E R node s = (r, s')"
  shows "register_inv R s'"
proof -
  from replicate_chunks_effect [OF R inv, of E node] st
  have H: "holders_of R s' = (\<lambda>a. bts_remove node (holders_of R s a))" and C: "chunks_of R s' = (chunks_of R s)(node := [])"
    and own: "\<And>b. bts_remove node (holders_of R s b) \<noteq> [] \<Longrightarrow> owner_of R s' b = owner_of R s b"
    by auto
  have len: "length (bts_remove node (holders_of R s a)) \<le> length (holders_of R s a)" for a
    by (simp add: bts_remove_def)
  have "matched (holders_of R s') (chunks_of R s')"
    using inv unfolding H C register_inv_def matched_def by auto
  moreover have "owner_of R s' b = None" if "\<not> blob_address_is_private b" for b
    using own [of b] owner_of_no_holders [of R s' b] that inv by (cases "bts_remove node (holders_of R s b) = []") (simp_all add: H register_inv_def)
  ultimately show ?thesis using inv len unfolding register_inv_def H by (meson le_trans)
qed

lemma reachable_inv:
  assumes "register_reachable E R s" and "register_reliable R"
  shows "register_inv R s"
  using assms
proof (induction rule: register_reachable.induct)
  case (start s)
  then show ?case by (simp add: register_inv_empty)
next
  case (written s rd wr msg_id origin r s')
  have inv: "register_inv (R\<lparr>reader := rd\<rparr>) s'" if "register_inv (R\<lparr>reader := rd\<rparr>) s"
    using written.hyps(2) written.prems store_inv [OF _ that] delete_inv [OF _ that]
    by (cases wr) (metis blob_reg_write.simps register_reliable_reader)+
  with written show ?case by (simp add: register_inv_def)
next
  case (lost s rd node r' s')
  have "register_inv (R\<lparr>reader := rd\<rparr>) s'" if "register_inv (R\<lparr>reader := rd\<rparr>) s"
    using lost.hyps(2) lost.prems lost_inv [OF _ that] by (metis register_reliable_reader)
  with lost show ?case by (simp add: register_inv_def)
qed

section \<open>A concrete register\<close>

definition fun_db :: "(string \<Rightarrow> 'v option, 'v) pickle" where
  "fun_db = \<lparr>db_get = (\<lambda>db. db), db_set = (\<lambda>k v db. (True, db(k := Some v))), db_rem = (\<lambda>k db. (True, db(k := None)))\<rparr>"

definition char_key :: "bytes \<Rightarrow> string" where
  "char_key bs = map (\<lambda>b. char_of (unat b)) bs"

text \<open>Routing with the given adults, closest first, and the register on it.\<close>

definition toy_routing :: "XorName list \<Rightarrow> Routing" where
  "toy_routing names = (let peers = map (\<lambda>n. \<lparr>peer_name = n, peer_addr = 0, peer_age = 5\<rparr>) names in
    \<lparr>rt_name = 0, rt_age = 10, rt_public_key_set = Inr (PublicKeySet 1), rt_our_index = Inr 0,
     rt_our_prefix = Prefix 0 0, rt_is_elder = True, rt_our_elders = [], rt_our_adults = peers,
     rt_elders_by_distance = (\<lambda>_. []), rt_adults_by_distance = (\<lambda>_. peers), rt_section_key = (\<lambda>_. None),
     rt_matching_section = (\<lambda>_. Some 1), rt_matches_our_prefix = (\<lambda>_. True), rt_sign_as_node = length,
     rt_sign_as_elder = (\<lambda>b k. Inr (length b)),
     rt_bls = \<lparr>threshold = (\<lambda>_. 1), public_key = (\<lambda>_. 1), combine_signatures = (\<lambda>_ _. Some 1)\<rparr>,
     rt_public_key_share = (\<lambda>_ i. i), rt_section_chain = [1]\<rparr>)"

definition toy_register :: "XorName list \<Rightarrow> (string \<Rightarrow> ChunkMetadata option, string \<Rightarrow> HolderMetadata option) register_api" where
  "toy_register names = \<lparr>meta_api = fun_db, holders_api = fun_db,
     address_bytes = (\<lambda>a. Some (of_bool (blob_address_is_private a) # replicate (unat (blob_address_name a)) 1)),
     name_bytes = (\<lambda>n. Some (replicate (unat n) 1)), key_hex = char_key, reader = \<lparr>ar_network = toy_routing names\<rparr>\<rparr>"

definition toy_dbs :: "(string \<Rightarrow> ChunkMetadata option, string \<Rightarrow> HolderMetadata option) holder_dbs" where
  "toy_dbs = \<lparr>metadata_db = (\<lambda>_. None), holders_db = (\<lambda>_. None)\<rparr>"

lemma char_key_inject: "char_key a = char_key b \<longleftrightarrow> a = b"
proof -
  have "inj (\<lambda>b :: u8. char_of (unat b) :: char)"
  proof
    fix x y :: u8
    assume "(char_of (unat x) :: char) = char_of (unat y)"
    then have "(of_char (char_of (unat x) :: char) :: nat) = of_char (char_of (unat y) :: char)" by simp
    then show "x = y" using unat_less_2p [of x] unat_less_2p [of y] by (simp add: of_char_of word_unat_eq_iff)
  qed
  then show ?thesis by (simp add: char_key_def inj_map_eq_map)
qed

lemma replicate_unat_inject: "replicate (unat (m :: XorName)) x = replicate (unat n) x \<longleftrightarrow> m = n"
  by (simp add: replicate_eq_replicate word_unat_eq_iff)

lemma fun_db_ok: "pickle_ok fun_db" "pickle_reliable fun_db"
  by (simp_all add: pickle_ok_def pickle_reliable_def fun_db_def)

lemma toy_reliable: "register_reliable (toy_register names)"
proof -
  have "a = b" if "address_key (toy_register names) a = Inr k" "address_key (toy_register names) b = Inr k" for a b k
  proof -
    let ?b = "\<lambda>a. of_bool (blob_address_is_private a) # replicate (unat (blob_address_name a)) (1 :: u8)"
    have "char_key (?b a) = k" "char_key (?b b) = k"
      using that by (simp_all add: address_key_def to_db_key_def toy_register_def)
    then have "char_key (?b a) = char_key (?b b)" by simp
    then have "?b a = ?b b" unfolding char_key_inject .
    then show ?thesis by (cases a; cases b) (simp_all add: word_unat_eq_iff)
  qed
  moreover have "a = b" if "name_key (toy_register names) a = Inr k" "name_key (toy_register names) b = Inr k" for a b k
    using that unfolding name_key_def to_db_key_def toy_register_def
    by simp (metis char_key_inject replicate_unat_inject)
  moreover have "meta_api (toy_register names) = fun_db" "holders_api (toy_register names) = fun_db"
    "address_bytes (toy_register names) a \<noteq> None" "name_bytes (toy_register names) n \<noteq> None" for a n
    by (simp_all add: toy_register_def)
  ultimately show ?thesis by (simp add: register_reliable_def register_ok_def fun_db_ok)
qed

lemma toy_start: "register_reachable E (toy_register names) toy_dbs"
  by (rule register_reachable.start) (simp add: empty_dbs_def toy_register_def toy_dbs_def fun_db_def)

lemma toy_empty: "holders_of (toy_register names) toy_dbs a = []"
  using toy_start [of example_ext names]
  by (simp add: holders_of_def get_metadata_for_def and_then_def toy_register_def toy_dbs_def fun_db_def split: sum.split)

lemma toy_closest: "get_holders_for_chunk (toy_register names) n = take 4 names"
  by (simp add: get_holders_for_chunk_def toy_register_def toy_routing_def Let_def reader_our_adults_sorted_by_distance_to_def
      our_adults_sorted_by_distance_to_def CHUNK_COPY_COUNT_def take_map comp_def)

section \<open>Properties\<close>

text \<open>
  C9. The register is a consistent index: after any sequence of store and delete commands and
  losses of members, with the adults changing in between, a node is recorded as holder of a chunk
  exactly if the chunk is recorded under the node, and no chunk has more than four holders, while
  no access to the databases of the register fails.
\<close>

theorem blob_index_consistent:
  assumes "register_reliable R" and "register_reachable E R s"
  shows "(h \<in> set (holders_of R s a) \<longleftrightarrow> a \<in> set (chunks_of R s h)) \<and>
    length (holders_of R s a) \<le> CHUNK_COPY_COUNT"
  using reachable_inv [OF assms(2,1)] matchedD(1) by (auto simp: register_inv_def)

text \<open>Five adults, and a private blob of one user.\<close>

abbreviation (input) toy_five :: "(string \<Rightarrow> ChunkMetadata option, string \<Rightarrow> HolderMetadata option) register_api" where
  "toy_five \<equiv> toy_register [1, 2, 3, 4, 5]"

definition toy_owner :: EndUser where
  "toy_owner = Client (Ed25519 1) 0"

definition toy_blob :: Blob where
  "toy_blob = PrivateBlob (BlobPrivateAddr 9) [7] (Ed25519 1)"

definition toy_stored :: "XorName list \<Rightarrow> (string \<Rightarrow> ChunkMetadata option, string \<Rightarrow> HolderMetadata option) holder_dbs" where
  "toy_stored names = snd (blob_reg_write example_ext (toy_register names) (NewBlob toy_blob) 0 toy_owner toy_dbs)"

lemma toy_register_reader: "(toy_register ms)\<lparr>reader := reader (toy_register names)\<rparr> = toy_register names"
  by (simp add: toy_register_def)

lemma toy_stored_reachable: "register_reachable example_ext (toy_register ms) (toy_stored names)"
  by (rule register_reachable.written [OF toy_start, where rd = "reader (toy_register names)" and wr = "NewBlob toy_blob"
        and msg_id = 0 and origin = toy_owner, unfolded toy_register_reader])
    (simp add: toy_stored_def prod_eq_iff)

lemma toy_target: "target_holders (toy_register names) (BlobPrivateAddr 9) toy_dbs = bts_collect (take 4 names)"
  by (simp add: target_holders_def toy_empty toy_closest)

lemma toy_store:
  "blob_reg_write example_ext (toy_register names) (NewBlob toy_blob) 0 toy_owner toy_dbs =
    (Inr (SendToNodes (bts_collect (take 4 names)) (NodeCmdM (NodeChunksCmd (NewBlob toy_blob) toy_owner) 0 None)), toy_stored names)"
  unfolding toy_stored_def
  by (simp add: blob_reg_store_cases toy_empty toy_target CHUNK_COPY_COUNT_def toy_blob_def)

lemma toy_holders: "holders_of (toy_register ms) (toy_stored names) (BlobPrivateAddr 9) = bts_collect (take 4 names)"
proof -
  have "holders_of (toy_register names) (toy_stored names) (BlobPrivateAddr 9) = bts_collect (take 4 names)"
    using store_holders(3) [OF toy_reliable reachable_inv [OF toy_start toy_reliable] toy_store [unfolded blob_reg_write.simps]]
    by (simp add: toy_blob_def)
  then show ?thesis using reader_irrelevant(3) [of "reader (toy_register names)" "toy_register ms"]
    by (simp add: toy_register_reader)
qed

theorem blob_index_consistent_witness:
  "BlobPrivateAddr 9 \<in> set (chunks_of toy_five (toy_stored [1, 2, 3, 4, 5]) 2) \<and>
   BlobPrivateAddr 9 \<notin> set (chunks_of toy_five (toy_stored [1, 2, 3, 4, 5]) 5)"
  using blob_index_consistent [OF toy_reliable toy_stored_reachable, where h = 2 and a = "BlobPrivateAddr 9"]
    blob_index_consistent [OF toy_reliable toy_stored_reachable, where h = 5 and a = "BlobPrivateAddr 9"]
  by (simp add: toy_holders)

lemma distinct_concat_keys:
  assumes "distinct (map fst m)" and "\<forall>(a, x) \<in> set m. distinct (f a x)"
    and "\<And>a x b y z. z \<in> set (f a x) \<Longrightarrow> z \<in> set (f b y) \<Longrightarrow> a = b"
  shows "distinct (concat (map (\<lambda>(a, x). f a x) m))"
  using assms(1,2)
proof (induction m)
  case (Cons e m)
  have "z \<notin> set (f (fst p) (snd p))" if "z \<in> set (f (fst e) (snd e))" "p \<in> set m" for z p
    using that assms(3) [of z "fst e" "snd e" "fst p" "snd p"] Cons.prems(1) by force
  with Cons show ?case by (auto simp: case_prod_beta)
qed simp

lemma replication_msgs_distinct: "distinct (get_replication_msgs E R a hs s)"
proof -
  have "distinct (get_new_holders_for_chunk R a s)"
    by (simp add: get_new_holders_for_chunk_def Let_def bts_wf_distinct split: sum.split)
  then show ?thesis by (simp add: get_replication_msgs_def distinct_map inj_on_def)
qed

text \<open>
  C25. When a member is lost, exactly the missing copies are asked for: the node disappears from
  the register, the other holders of its chunks stay recorded, and the duties are one request per
  lost chunk and closest adult that does not hold it, naming the holders that remain; no request
  is made twice. (No access to the databases of the register fails.)
\<close>

theorem replication_exact:
  assumes "register_reliable R" and "register_reachable E R s"
  shows "\<exists>duties s'. replicate_chunks E R node s = (Inr duties, s') \<and>
    chunks_of R s' node = [] \<and> holders_of R s' = (\<lambda>a. bts_remove node (holders_of R s a)) \<and> distinct duties \<and>
    (\<forall>duty. duty \<in> set duties \<longleftrightarrow> (\<exists>a n. node \<in> set (holders_of R s a) \<and>
       n \<in> set (get_holders_for_chunk R (blob_address_name a)) \<and> n \<notin> set (bts_remove node (holders_of R s a)) \<and>
       duty = Send \<lparr>msg = NodeCmdM (NodeSystem (ReplicateChunkCmd n a (bts_remove node (holders_of R s a))))
                 (combine E [blob_address_name a, n]) None,
               dst = DstNode n, section_source = True, aggregation = AggregationNone\<rparr>))"
proof -
  from replicate_chunks_effect [OF assms(1) reachable_inv [OF assms(2,1)], of E node] obtain m s' where
      rep: "replicate_chunks E R node s = (Inr (concat (map (\<lambda>(a, hs). get_replication_msgs E R a hs s') m)), s')"
      and wf: "btm_wf m" and H: "holders_of R s' = (\<lambda>a. bts_remove node (holders_of R s a))"
      and C: "chunks_of R s' = (chunks_of R s)(node := [])"
      and M: "\<forall>a. btm_get m a = (if node \<in> set (holders_of R s a) then Some (bts_remove node (holders_of R s a)) else None)"
    by blast
  let ?duties = "concat (map (\<lambda>(a, hs). get_replication_msgs E R a hs s') m)"
  have new: "set (get_new_holders_for_chunk R a s') =
      {n \<in> set (get_holders_for_chunk R (blob_address_name a)). n \<notin> set (holders_of R s' a)}" for a
    by (auto simp: get_new_holders_for_chunk_def Let_def holders_of_def split: sum.splits)
  have mem: "(a, hs) \<in> set m \<longleftrightarrow> node \<in> set (holders_of R s a) \<and> hs = bts_remove node (holders_of R s a)" for a hs
    using map_of_eq_Some_iff [OF btm_wf_distinct [OF wf], of a hs] M by (auto split: if_splits)
  have once: "distinct ?duties"
    by (rule distinct_concat_keys [OF btm_wf_distinct [OF wf]])
      (simp_all add: replication_msgs_distinct, auto simp: get_replication_msgs_def)
  have dut: "duty \<in> set ?duties \<longleftrightarrow> (\<exists>a hs. (a, hs) \<in> set m \<and> duty \<in> set (get_replication_msgs E R a hs s'))" for duty
    by (force split: prod.splits)
  show ?thesis
    by (intro exI conjI allI, rule rep, use once in \<open>unfold dut\<close>) (auto simp: C H mem get_replication_msgs_def new)
qed

lemma toy_lost_five:
  "get_holders_for_chunk (toy_register [1, 3, 4, 5]) n = [1, 3, 4, 5]"
  by (simp add: toy_closest)

theorem replication_exact_witness:
  "\<exists>duties s'. replicate_chunks example_ext (toy_register [1, 3, 4, 5]) 2 (toy_stored [1, 2, 3, 4]) = (Inr duties, s') \<and>
     Send \<lparr>msg = NodeCmdM (NodeSystem (ReplicateChunkCmd 5 (BlobPrivateAddr 9) [1, 3, 4])) (combine example_ext [9, 5]) None,
       dst = DstNode 5, section_source = True, aggregation = AggregationNone\<rparr> \<in> set duties"
proof -
  have H: "holders_of (toy_register [1, 3, 4, 5]) (toy_stored [1, 2, 3, 4]) (BlobPrivateAddr 9) = [1, 2, 3, 4]"
    by (simp add: toy_holders bts_collect_def)
  from replication_exact [OF toy_reliable toy_stored_reachable, of "[1, 3, 4, 5]" 2 "[1, 2, 3, 4]"]
  obtain duties s' where r: "replicate_chunks example_ext (toy_register [1, 3, 4, 5]) 2 (toy_stored [1, 2, 3, 4]) = (Inr duties, s')"
    and d: "\<And>duty a n. 2 \<in> set (holders_of (toy_register [1, 3, 4, 5]) (toy_stored [1, 2, 3, 4]) a) \<Longrightarrow>
       n \<in> set (get_holders_for_chunk (toy_register [1, 3, 4, 5]) (blob_address_name a)) \<Longrightarrow>
       n \<notin> set (bts_remove 2 (holders_of (toy_register [1, 3, 4, 5]) (toy_stored [1, 2, 3, 4]) a)) \<Longrightarrow>
       Send \<lparr>msg = NodeCmdM (NodeSystem (ReplicateChunkCmd n a
           (bts_remove 2 (holders_of (toy_register [1, 3, 4, 5]) (toy_stored [1, 2, 3, 4]) a))))
           (combine example_ext [blob_address_name a, n]) None,
         dst = DstNode n, section_source = True, aggregation = AggregationNone\<rparr> \<in> set duties"
    by blast
  with d [of "BlobPrivateAddr 9" 5] show ?thesis by (simp add: H toy_lost_five bts_remove_def)
qed

text \<open>
  C26. Reads go where the copies were sent: after a store command was forwarded to some adults, a
  read of that blob, by the same user if it is private and by anyone otherwise, is forwarded to
  exactly those adults. (No access to the databases of the register fails.)
\<close>

theorem reads_follow_store:
  assumes "register_reliable R" and "register_reachable E R s"
    and "blob_reg_write E R (NewBlob data) msg_id origin s = (Inr (SendToNodes targets m), s')" and "targets \<noteq> []"
    and "blob_address_is_private (blob_address data) \<longrightarrow> end_user_id user = end_user_id origin"
  shows "blob_reg_read E (R\<lparr>reader := rd\<rparr>) (GetBlobAt (blob_address data)) msg_id' user s' =
    Inr (SendToNodes targets (NodeQueryM (NodeChunksQuery (GetBlobAt (blob_address data)) user) msg_id' None))"
proof -
  let ?a = "blob_address data"
  note inv = reachable_inv [OF assms(2,1)]
  note sh = store_holders [OF assms(1) inv assms(3) [unfolded blob_reg_write.simps]]
  have H: "holders_of R s' ?a = targets" by (simp add: sh(3))
  have "may_access R ?a user s'"
    using assms(5) inv by (auto simp: may_access_def sh(4) set_chunk_holders_owner [OF assms(1)] register_inv_def assms(4))
  moreover obtain md where "get_metadata_for R ?a s' = Inr md" using holders_of_neq_Nil assms(4) H by blast
  ultimately show ?thesis
    using blob_reg_get_cases [of "R\<lparr>reader := rd\<rparr>" ?a s' md] H by (simp add: may_access_def)
qed

theorem reads_follow_store_witness:
  "blob_reg_read example_ext ((toy_register [1, 2, 3, 4])\<lparr>reader := reader (toy_register [7])\<rparr>) (GetBlobAt (BlobPrivateAddr 9)) 1
     toy_owner (toy_stored [1, 2, 3, 4]) =
   Inr (SendToNodes [1, 2, 3, 4] (NodeQueryM (NodeChunksQuery (GetBlobAt (BlobPrivateAddr 9)) toy_owner) 1 None))"
  using reads_follow_store [OF toy_reliable toy_start toy_store [of "[1, 2, 3, 4]"], of toy_owner]
  by (simp add: bts_collect_def toy_blob_def)

text \<open>
  C27. Only the owner reaches a private blob through the register: anyone else who reads or deletes
  it is told that access is denied, no adult is contacted, and the register is unchanged.
\<close>

theorem register_denies_non_owners:
  assumes "owner_of R s a = Some k" and "k \<noteq> end_user_id user"
  shows "blob_reg_read E R (GetBlobAt a) msg_id user s =
      Inr (query_response_to E (GetBlobResponse (Inl (EmAccessDenied (end_user_id user)))) msg_id (DstEndUser user)) \<and>
    blob_reg_write E R (DeletePrivate a) msg_id user s =
      (Inr (cmd_error_to E (CmdErrorData (EmAccessDenied (end_user_id user))) msg_id (DstEndUser user)), s)"
proof -
  obtain md where "get_metadata_for R a s = Inr md" using owner_of_held [OF assms(1)] by blast
  moreover have "\<not> may_access R a user s" using assms by (simp add: may_access_def)
  ultimately show ?thesis by (simp add: blob_reg_get_cases blob_reg_delete_cases)
qed

definition toy_other :: EndUser where
  "toy_other = Client (Ed25519 2) 0"

lemma toy_owner_of: "owner_of (toy_register [1, 2]) (toy_stored [1, 2]) (BlobPrivateAddr 9) = Some (Ed25519 1)"
  using store_holders(4) [OF toy_reliable reachable_inv [OF toy_start toy_reliable]
      toy_store [of "[1, 2]", unfolded blob_reg_write.simps]]
  by (simp add: set_chunk_holders_owner [OF toy_reliable] toy_blob_def toy_owner_def bts_collect_def)

theorem register_denies_non_owners_witness:
  "blob_reg_write example_ext (toy_register [1, 2]) (DeletePrivate (BlobPrivateAddr 9)) 3 toy_other (toy_stored [1, 2]) =
    (Inr (cmd_error_to example_ext (CmdErrorData (EmAccessDenied (Ed25519 2))) 3 (DstEndUser toy_other)), toy_stored [1, 2])"
  using register_denies_non_owners [OF toy_owner_of, of toy_other example_ext 3] by (simp add: toy_other_def)

text \<open>
  C28. The recorded owner can be replaced by anyone while a private blob has fewer than four recorded
  holders: a second store command at its address, by any user, makes that user the owner, after
  which that user's delete is accepted and the register loses all holders of the blob. (No access to
  the databases of the register fails.)
\<close>

theorem owner_takeover:
  assumes "register_reliable R" and "register_reachable E R s"
    and "holders_of R s (blob_address data) \<noteq> []" and "length (holders_of R s (blob_address data)) < CHUNK_COPY_COUNT"
    and "blob_address_is_private (blob_address data)"
  shows "\<exists>targets m s1 s2. blob_reg_write E R (NewBlob data) msg_id user s = (Inr (SendToNodes targets m), s1) \<and>
    owner_of R s1 (blob_address data) = Some (end_user_id user) \<and>
    blob_reg_write E R (DeletePrivate (blob_address data)) msg_id' user s1 =
      (Inr (SendToNodes targets (NodeCmdM (NodeChunksCmd (DeletePrivate (blob_address data)) user) msg_id' None)), s2) \<and>
    holders_of R s2 (blob_address data) = []"
proof -
  let ?a = "blob_address data"
  note inv = reachable_inv [OF assms(2,1)]
  define ts where "ts = target_holders R ?a s"
  define s1 where "s1 = set_chunk_holders R ?a user ts s"
  have st: "blob_reg_store E R data msg_id user s = (Inr (SendToNodes ts (NodeCmdM (NodeChunksCmd (NewBlob data) user) msg_id None)), s1)"
    using assms(4) by (simp add: blob_reg_store_cases ts_def s1_def)
  note sh = store_holders [OF assms(1) inv st]
  have "set (holders_of R s ?a) \<subseteq> set ts"
    unfolding ts_def using inv matchedD(2) by (intro target_holders_bound(3)) (auto simp: register_inv_def)
  then have ne: "ts \<noteq> []" using assms(3) by auto
  have own: "owner_of R s1 ?a = Some (end_user_id user)"
    using ne assms(5) by (simp add: s1_def set_chunk_holders_owner [OF assms(1)])
  have H: "holders_of R s1 ?a = ts" by (simp add: sh(3))
  obtain md where "get_metadata_for R ?a s1 = Inr md" using owner_of_held [OF own] by blast
  then have del: "blob_reg_delete E R ?a msg_id' user s1 =
      (Inr (SendToNodes ts (NodeCmdM (NodeChunksCmd (DeletePrivate ?a) user) msg_id' None)), remove_chunk_holders R ?a ts s1)"
    using own by (simp add: blob_reg_delete_cases may_access_def H)
  have inv1: "register_inv R s1" by (rule store_inv [OF assms(1) inv st])
  then have "distinct ts" using bts_wf_distinct matchedD(2) H unfolding register_inv_def by metis
  then have "holders_of R (remove_chunk_holders R ?a ts s1) ?a = []"
    by (simp add: remove_chunk_holders_effect(1) [OF assms(1)] H)
  with st own del show ?thesis by auto
qed

theorem owner_takeover_witness:
  "\<exists>targets m s1. blob_reg_write example_ext (toy_register [1, 2]) (NewBlob toy_blob) 1 toy_other (toy_stored [1, 2]) =
     (Inr (SendToNodes targets m), s1) \<and> owner_of (toy_register [1, 2]) s1 (BlobPrivateAddr 9) = Some (Ed25519 2)"
  using owner_takeover [OF toy_reliable toy_stored_reachable, of "[1, 2]" "[1, 2]" toy_blob 1 toy_other]
  by (simp add: toy_blob_def toy_holders bts_collect_def CHUNK_COPY_COUNT_def toy_other_def) blast

end
