(* ===== verification/Used_Space.thy ===== *)
theory Used_Space
  imports Errors
begin

text \<open>
  The tracking of used storage space (\<^verbatim>\<open>src/src/chunk_store/used_space.rs\<close>) and the disk it
  keeps its records on. The disk is an explicit store from paths to file contents, shared by
  everything that names a path, since several records may refer to one file. Each file
  operation may fail; how it fails is an argument of the operation that performs it. The
  mutex around the record makes each operation atomic, so concurrent writers are
  sequences of operations in some order.
\<close>

section \<open>The disk\<close>

type_synonym dir = "string list"
type_synonym path = "dir \<times> string"
type_synonym fs = "(path \<times> bytes) list"

abbreviation (input) fs_read :: "fs \<Rightarrow> path \<Rightarrow> bytes option" where
  "fs_read \<equiv> map_of"

abbreviation (input) fs_write :: "path \<Rightarrow> bytes \<Rightarrow> fs \<Rightarrow> fs" where
  "fs_write \<equiv> AList.update"

abbreviation (input) fs_remove :: "path \<Rightarrow> fs \<Rightarrow> fs" where
  "fs_remove \<equiv> AList.delete"

lemma fs_read_write [simp]: "fs_read (fs_write p c d) q = (if q = p then Some c else fs_read d q)"
  by (simp add: update_conv')

lemma fs_read_remove [simp]: "fs_read (fs_remove p d) q = (if q = p then None else fs_read d q)"
  by (simp add: delete_conv')

section \<open>State\<close>

type_synonym StoreId = u64

record LocalUsedSpace =
  local_value :: u64
  local_record :: path

record UsedSpace =
  max_capacity :: u64
  total_value :: u64
  local_stores :: "(StoreId, LocalUsedSpace) btree_map"
  next_id :: StoreId

record world =
  disk :: fs
  space :: UsedSpace

text \<open>The binary form of a 64-bit integer on disk (\<^verbatim>\<open>bincode\<close>).\<close>

record u64_codec =
  ser_u64 :: "u64 \<Rightarrow> bytes"
  de_u64 :: "bytes \<Rightarrow> u64 option"

definition codec_ok :: "u64_codec \<Rightarrow> bool" where
  "codec_ok C \<longleftrightarrow> (\<forall>v. de_u64 C (ser_u64 C v) = Some v \<and> ser_u64 C v \<noteq> [])"

definition USED_SPACE_FILENAME :: string where
  "USED_SPACE_FILENAME = ''used_space''"

section \<open>Operations\<close>

definition used_space_new :: "u64 \<Rightarrow> UsedSpace" where
  "used_space_new cap =
     \<lparr>max_capacity = cap, total_value = 0, local_stores = btm_empty, next_id = 0\<rparr>"

text \<open>
  Rewriting a record: truncate, seek to the start, write, sync. A failure leaves the file as
  the steps before it have left it; a failing write may have written a prefix.
\<close>

datatype (plugins only: code size) write_io = WriteOk | SetLenErr | SeekErr | WriteErr nat | SyncErr

definition write_local_to_file ::
    "u64_codec \<Rightarrow> write_io \<Rightarrow> path \<Rightarrow> u64 \<Rightarrow> fs \<Rightarrow> unit result \<times> fs" where
  "write_local_to_file C io record local d = (case io of
     SetLenErr \<Rightarrow> (Inl Io, d)
   | SeekErr \<Rightarrow> (Inl Io, fs_write record [] d)
   | WriteErr n \<Rightarrow> (Inl Io, fs_write record (take n (ser_u64 C local)) d)
   | SyncErr \<Rightarrow> (Inl Io, fs_write record (ser_u64 C local) d)
   | WriteOk \<Rightarrow> (Inr (), fs_write record (ser_u64 C local) d))"

text \<open>
  \<^verbatim>\<open>reset\<close> zeroes the total and every local value and rewrites every record; a failing
  rewrite is only logged. The stores stay registered.
\<close>

definition reset :: "u64_codec \<Rightarrow> (StoreId \<Rightarrow> write_io) \<Rightarrow> world \<Rightarrow> world" where
  "reset C io w =
     \<lparr>disk = fold (\<lambda>(sid, ls) d. snd (write_local_to_file C (io sid) (local_record ls) 0 d))
               (local_stores (space w)) (disk w),
      space = (space w)\<lparr>total_value := 0,
        local_stores := map (\<lambda>(sid, ls). (sid, ls\<lparr>local_value := 0\<rparr>)) (local_stores (space w))\<rparr>\<rparr>"

definition total :: "world \<Rightarrow> u64" where
  "total w = total_value (space w)"

definition local_used :: "world \<Rightarrow> StoreId \<Rightarrow> u64" where
  "local_used w sid = (case btm_get (local_stores (space w)) sid of None \<Rightarrow> 0 | Some ls \<Rightarrow> local_value ls)"

text \<open>
  Registering a store: open (or create) its record file and read it; an empty or unreadable
  record is initialised to zero, at the position the reading stopped. \<open>read_err\<close> is the
  number of bytes read before reading failed, \<open>init_err\<close> the number written before the
  initialisation failed.
\<close>

record add_io =
  open_ok :: bool
  read_err :: "nat option"
  init_err :: "nat option"

definition write_at :: "nat \<Rightarrow> bytes \<Rightarrow> bytes \<Rightarrow> bytes" where
  "write_at pos new old = take pos old @ new @ drop (pos + length new) old"

definition register_store :: "u64 \<Rightarrow> path \<Rightarrow> UsedSpace \<Rightarrow> StoreId \<times> UsedSpace" where
  "register_store v record u = (next_id u,
     u\<lparr>next_id := next_id u + 1,
       local_stores := btm_insert (next_id u) \<lparr>local_value = v, local_record = record\<rparr> (local_stores u)\<rparr>)"

definition add_local_store :: "u64_codec \<Rightarrow> add_io \<Rightarrow> dir \<Rightarrow> world \<Rightarrow> StoreId result \<times> world" where
  "add_local_store C io dir w =
     (if \<not> open_ok io then (Inl Io, w)
      else let p = (dir, USED_SPACE_FILENAME);
               content = (case fs_read (disk w) p of None \<Rightarrow> [] | Some c \<Rightarrow> c);
               d = fs_write p content (disk w);
               could_read = (read_err io = None)
        in if could_read \<and> content \<noteq> [] then
             (case de_u64 C content of
                None \<Rightarrow> (Inl Bincode, w\<lparr>disk := d\<rparr>)
              | Some v \<Rightarrow> (case register_store v p (space w) of
                  (sid, u) \<Rightarrow> (Inr sid, \<lparr>disk = d, space = u\<rparr>)))
           else let pos = (case read_err io of None \<Rightarrow> 0 | Some k \<Rightarrow> k)
             in (case init_err io of
                Some n \<Rightarrow> (Inl Io, w\<lparr>disk := fs_write p (write_at pos (take n (ser_u64 C 0)) content) d\<rparr>)
              | None \<Rightarrow> (case register_store 0 p (space w) of
                  (sid, u) \<Rightarrow> (Inr sid,
                    \<lparr>disk = fs_write p (write_at pos (ser_u64 C 0) content) d, space = u\<rparr>))))"

definition increase ::
    "u64_codec \<Rightarrow> write_io \<Rightarrow> StoreId \<Rightarrow> u64 \<Rightarrow> world \<Rightarrow> unit result \<times> world" where
  "increase C io sid consumed w = (let u = space w in
     case checked_add (total_value u) consumed of
       None \<Rightarrow> (Inl NotEnoughSpace, w)
     | Some new_total \<Rightarrow>
         if max_capacity u < new_total then (Inl NotEnoughSpace, w)
         else (case btm_get (local_stores u) sid of
           None \<Rightarrow> (Inl NoStoreId, w)
         | Some ls \<Rightarrow> (case checked_add (local_value ls) consumed of
             None \<Rightarrow> (Inl NotEnoughSpace, w)
           | Some new_local \<Rightarrow>
               (case write_local_to_file C io (local_record ls) new_local (disk w) of
                 (Inl e, d) \<Rightarrow> (Inl e, w\<lparr>disk := d\<rparr>)
               | (Inr _, d) \<Rightarrow> (Inr (), \<lparr>disk = d, space = u\<lparr>total_value := new_total,
                   local_stores := btm_insert sid (ls\<lparr>local_value := new_local\<rparr>) (local_stores u)\<rparr>\<rparr>)))))"

definition decrease ::
    "u64_codec \<Rightarrow> write_io \<Rightarrow> StoreId \<Rightarrow> u64 \<Rightarrow> world \<Rightarrow> unit result \<times> world" where
  "decrease C io sid released w = (let u = space w in
     case btm_get (local_stores u) sid of
       None \<Rightarrow> (Inl NoStoreId, w)
     | Some ls \<Rightarrow>
         let new_local = saturating_sub (local_value ls) released;
             new_total = saturating_sub (total_value u) released
         in (case write_local_to_file C io (local_record ls) new_local (disk w) of
           (Inl e, d) \<Rightarrow> (Inl e, w\<lparr>disk := d\<rparr>)
         | (Inr _, d) \<Rightarrow> (Inr (), \<lparr>disk = d, space = u\<lparr>total_value := new_total,
             local_stores := btm_insert sid (ls\<lparr>local_value := new_local\<rparr>) (local_stores u)\<rparr>\<rparr>)))"

text \<open>The operations as requests, each performed under the lock.\<close>

datatype (plugins only: code size) space_op =
    Increase write_io StoreId u64
  | Decrease write_io StoreId u64
  | Reset "StoreId \<Rightarrow> write_io"
  | AddLocalStore add_io dir

fun exec_op :: "u64_codec \<Rightarrow> space_op \<Rightarrow> world \<Rightarrow> unit result \<times> world" where
  "exec_op C (Increase io sid n) w = increase C io sid n w"
| "exec_op C (Decrease io sid n) w = decrease C io sid n w"
| "exec_op C (Reset io) w = (Inr (), reset C io w)"
| "exec_op C (AddLocalStore io dir) w =
     (case add_local_store C io dir w of (r, w') \<Rightarrow> (and_then r (\<lambda>_. Inr ()), w'))"

fun run_ops :: "u64_codec \<Rightarrow> space_op list \<Rightarrow> world \<Rightarrow> unit result list \<times> world" where
  "run_ops C [] w = ([], w)"
| "run_ops C (p # ps) w = (case exec_op C p w of (r, w1) \<Rightarrow>
     (case run_ops C ps w1 of (rs, w2) \<Rightarrow> (r # rs, w2)))"

section \<open>Behaviour of the single operations\<close>

definition space_wf :: "UsedSpace \<Rightarrow> bool" where
  "space_wf u \<longleftrightarrow> btm_wf (local_stores u) \<and> total_value u \<le> max_capacity u"

lemma space_wf_new: "space_wf (used_space_new cap)"
  by (simp add: space_wf_def used_space_new_def)

text \<open>A successful increase, and exactly when an increase can succeed.\<close>

lemma increase_OkD:
  assumes "increase C io sid n w = (Inr (), w')"
  obtains ls where "btm_get (local_stores (space w)) sid = Some ls"
    and "unat (total_value (space w)) + unat n \<le> unat (max_capacity (space w))"
    and "unat (local_value ls) + unat n < 2 ^ 64"
    and "w' = \<lparr>disk = fs_write (local_record ls) (ser_u64 C (local_value ls + n)) (disk w),
           space = (space w)\<lparr>total_value := total_value (space w) + n,
             local_stores := btm_insert sid (ls\<lparr>local_value := local_value ls + n\<rparr>) (local_stores (space w))\<rparr>\<rparr>"
  using assms
  by (auto simp: increase_def Let_def write_local_to_file_def not_less word_le_nat_alt
      split: option.splits if_splits write_io.splits dest!: checked_add_SomeD)

lemma increase_okI:
  assumes "btm_get (local_stores (space w)) sid = Some ls"
    and "unat (total_value (space w)) + unat n \<le> unat (max_capacity (space w))"
    and "unat (local_value ls) + unat n < 2 ^ 64"
  shows "increase C WriteOk sid n w = (Inr (),
    \<lparr>disk = fs_write (local_record ls) (ser_u64 C (local_value ls + n)) (disk w),
     space = (space w)\<lparr>total_value := total_value (space w) + n,
       local_stores := btm_insert sid (ls\<lparr>local_value := local_value ls + n\<rparr>) (local_stores (space w))\<rparr>\<rparr>)"
proof -
  have lt: "unat (total_value (space w)) + unat n < 2 ^ 64"
    using assms(2) unat_less_2p [of "max_capacity (space w)"] by simp
  then have "\<not> max_capacity (space w) < total_value (space w) + n"
    using assms(2) by (simp add: not_less word_le_nat_alt unat_add_no_wrap)
  with assms lt show ?thesis
    by (simp add: increase_def Let_def checked_add_def write_local_to_file_def)
qed

lemma decrease_OkD:
  assumes "decrease C io sid n w = (Inr (), w')"
  obtains ls where "btm_get (local_stores (space w)) sid = Some ls"
    and "w' = \<lparr>disk = fs_write (local_record ls) (ser_u64 C (saturating_sub (local_value ls) n)) (disk w),
           space = (space w)\<lparr>total_value := saturating_sub (total_value (space w)) n,
             local_stores := btm_insert sid (ls\<lparr>local_value := saturating_sub (local_value ls) n\<rparr>)
               (local_stores (space w))\<rparr>\<rparr>"
  using assms
  by (auto simp: decrease_def Let_def write_local_to_file_def
      split: option.splits if_splits write_io.splits)

lemma decrease_okI:
  assumes "btm_get (local_stores (space w)) sid = Some ls"
  shows "decrease C WriteOk sid n w = (Inr (),
    \<lparr>disk = fs_write (local_record ls) (ser_u64 C (saturating_sub (local_value ls) n)) (disk w),
     space = (space w)\<lparr>total_value := saturating_sub (total_value (space w)) n,
       local_stores := btm_insert sid (ls\<lparr>local_value := saturating_sub (local_value ls) n\<rparr>)
         (local_stores (space w))\<rparr>\<rparr>)"
  using assms by (simp add: decrease_def Let_def write_local_to_file_def)

text \<open>A failing operation leaves the record in memory as it was.\<close>

lemma increase_Inl_space: "increase C io sid n w = (Inl e, w') \<Longrightarrow> space w' = space w"
  by (auto simp: increase_def Let_def split: option.splits if_splits sum.splits prod.splits)

lemma decrease_Inl_space: "decrease C io sid n w = (Inl e, w') \<Longrightarrow> space w' = space w"
  by (auto simp: decrease_def Let_def split: option.splits if_splits sum.splits prod.splits)

lemma add_local_store_Inl_space: "add_local_store C io dir w = (Inl e, w') \<Longrightarrow> space w' = space w"
  by (auto simp: add_local_store_def Let_def register_store_def
      split: option.splits if_splits sum.splits prod.splits)

lemma add_local_store_OkD:
  "add_local_store C io dir w = (Inr sid, w') \<Longrightarrow>
    sid = next_id (space w) \<and>
    (\<exists>v. space w' = snd (register_store v (dir, USED_SPACE_FILENAME) (space w)))"
  by (auto simp: add_local_store_def Let_def register_store_def split: option.splits if_splits)

lemma btm_wf_map_value: "btm_wf m \<Longrightarrow> btm_wf (map (\<lambda>(k, v). (k, f v)) m)"
  by (simp add: btm_wf_def case_prod_beta comp_def)

section \<open>The invariant\<close>

lemma increase_wf: "increase C io sid n w = (r, w') \<Longrightarrow> space_wf (space w) \<Longrightarrow> space_wf (space w')"
proof (cases r)
  case (Inr a)
  assume "increase C io sid n w = (r, w')" and wf: "space_wf (space w)"
  with Inr have "increase C io sid n w = (Inr (), w')" by simp
  then show ?thesis
  proof (rule increase_OkD)
    fix ls
    assume le: "unat (total_value (space w)) + unat n \<le> unat (max_capacity (space w))"
      and w': "w' = \<lparr>disk = fs_write (local_record ls) (ser_u64 C (local_value ls + n)) (disk w),
           space = (space w)\<lparr>total_value := total_value (space w) + n,
             local_stores := btm_insert sid (ls\<lparr>local_value := local_value ls + n\<rparr>) (local_stores (space w))\<rparr>\<rparr>"
    have "unat (total_value (space w) + n) = unat (total_value (space w)) + unat n"
      using le unat_less_2p [of "max_capacity (space w)"] by (intro unat_add_no_wrap) simp
    with le wf w' show ?thesis by (simp add: space_wf_def word_le_nat_alt)
  qed
qed (auto dest: increase_Inl_space)

lemma decrease_wf: "decrease C io sid n w = (r, w') \<Longrightarrow> space_wf (space w) \<Longrightarrow> space_wf (space w')"
proof (cases r)
  case (Inr a)
  assume "decrease C io sid n w = (r, w')" and wf: "space_wf (space w)"
  with Inr have "decrease C io sid n w = (Inr (), w')" by simp
  then show ?thesis
    using wf by (elim decrease_OkD)
      (auto simp: space_wf_def intro: order_trans [OF saturating_sub_le])
qed (auto dest: decrease_Inl_space)

lemma reset_wf: "space_wf (space w) \<Longrightarrow> space_wf (space (reset C io w))"
  by (simp add: space_wf_def reset_def btm_wf_map_value)

lemma add_local_store_wf:
  "add_local_store C io dir w = (r, w') \<Longrightarrow> space_wf (space w) \<Longrightarrow> space_wf (space w')"
  by (cases r) (auto simp: space_wf_def register_store_def
      dest!: add_local_store_Inl_space add_local_store_OkD)

lemma exec_op_wf: "exec_op C p w = (r, w') \<Longrightarrow> space_wf (space w) \<Longrightarrow> space_wf (space w')"
  by (cases p) (auto simp: increase_wf decrease_wf reset_wf add_local_store_wf split: prod.splits)

lemma run_ops_wf: "run_ops C ps w = (rs, w') \<Longrightarrow> space_wf (space w) \<Longrightarrow> space_wf (space w')"
  by (induction ps arbitrary: w rs) (auto split: prod.splits dest: exec_op_wf)

lemma exec_op_max_capacity:
  "exec_op C p w = (r, w') \<Longrightarrow> max_capacity (space w') = max_capacity (space w)"
  by (cases p; cases r)
    (auto simp: reset_def register_store_def and_then_def
      split: prod.splits sum.splits
      elim!: increase_OkD decrease_OkD
      dest!: increase_Inl_space decrease_Inl_space add_local_store_Inl_space add_local_store_OkD)

lemma run_ops_max_capacity:
  "run_ops C ps w = (rs, w') \<Longrightarrow> max_capacity (space w') = max_capacity (space w)"
  by (induction ps arbitrary: w rs) (auto split: prod.splits dest: exec_op_max_capacity)

section \<open>The ledger interface\<close>

text \<open>
  Requests performed one after the other, \<^const>\<open>None\<close> as soon as one fails, and the demand of
  a list of requests on one store and altogether.
\<close>

fun all_ok :: "('w \<Rightarrow> unit result \<times> 'w) list \<Rightarrow> 'w \<Rightarrow> 'w option" where
  "all_ok [] w = Some w"
| "all_ok (f # fs) w = (case f w of (Inl e, w') \<Rightarrow> None | (Inr _, w') \<Rightarrow> all_ok fs w')"

definition demand :: "('i \<times> u64) list \<Rightarrow> 'i \<Rightarrow> nat" where
  "demand qs i = (\<Sum>q\<leftarrow>qs. if fst q = i then unat (snd q) else 0)"

definition demand_all :: "('i \<times> u64) list \<Rightarrow> nat" where
  "demand_all qs = (\<Sum>q\<leftarrow>qs. unat (snd q))"

lemma demand_simps [simp]:
  "demand [] i = 0" "demand ((j, n) # qs) i = (if j = i then unat n else 0) + demand qs i"
  "demand_all [] = 0" "demand_all ((j, n) # qs) = unat n + demand_all qs"
  by (simp_all add: demand_def demand_all_def)

lemma demand_permute: "mset qs = mset qs' \<Longrightarrow> demand qs = demand qs' \<and> demand_all qs = demand_all qs'"
  by (simp add: demand_def demand_all_def fun_eq_iff flip: sum_mset_sum_list)

text \<open>
  What the chunk stores rely on: space is reserved and released per store, the total follows,
  a reservation never exceeds the capacity, and a failing request changes neither. Any
  number of writers, whatever the order in which they take the lock, then arrive at
  the same totals.
\<close>

locale space_ledger =
  fixes reserve :: "'i \<Rightarrow> u64 \<Rightarrow> 'w \<Rightarrow> unit result \<times> 'w"
    and release :: "'i \<Rightarrow> u64 \<Rightarrow> 'w \<Rightarrow> unit result \<times> 'w"
    and used :: "'w \<Rightarrow> 'i \<Rightarrow> nat"
    and total_used :: "'w \<Rightarrow> nat"
    and capacity :: "'w \<Rightarrow> nat"
    and known :: "'w \<Rightarrow> 'i \<Rightarrow> bool"
    and good :: "'w \<Rightarrow> bool"
  assumes reserve_ok: "good w \<Longrightarrow> known w i \<Longrightarrow> total_used w + unat n \<le> capacity w \<Longrightarrow>
      used w i + unat n < 2 ^ 64 \<Longrightarrow> fst (reserve i n w) = Inr ()"
    and reserve_effect: "good w \<Longrightarrow> reserve i n w = (Inr (), w') \<Longrightarrow>
      good w' \<and> known w' = known w \<and> capacity w' = capacity w \<and>
      total_used w' = total_used w + unat n \<and> used w' = (used w)(i := used w i + unat n)"
    and release_ok: "good w \<Longrightarrow> known w i \<Longrightarrow> fst (release i n w) = Inr ()"
    and release_effect: "good w \<Longrightarrow> release i n w = (Inr (), w') \<Longrightarrow>
      good w' \<and> known w' = known w \<and> capacity w' = capacity w \<and>
      total_used w' = total_used w - unat n \<and> used w' = (used w)(i := used w i - unat n)"
begin

lemma reserve_all:
  assumes "good w" and "\<forall>q \<in> set qs. known w (fst q)"
    and "total_used w + demand_all qs \<le> capacity w" and "\<forall>i. used w i + demand qs i < 2 ^ 64"
  shows "\<exists>w'. all_ok (map (\<lambda>(i, n). reserve i n) qs) w = Some w' \<and> good w' \<and> known w' = known w \<and>
    total_used w' = total_used w + demand_all qs \<and> (\<forall>i. used w' i = used w i + demand qs i)"
  using assms
proof (induction qs arbitrary: w)
  case Nil
  then show ?case by simp
next
  case (Cons q qs)
  obtain j n where q: "q = (j, n)" by (cases q)
  have bound: "used w j + unat n < 2 ^ 64"
    using Cons.prems(4) [rule_format, of j] by (simp add: q)
  have "fst (reserve j n w) = Inr ()"
    using Cons.prems bound by (intro reserve_ok) (simp_all add: q)
  then obtain w1 where w1: "reserve j n w = (Inr (), w1)" by (metis prod.collapse)
  note eff = reserve_effect [OF Cons.prems(1) w1]
  have room: "used w1 i + demand qs i < 2 ^ 64" for i
    using Cons.prems(4) [rule_format, of i] eff by (cases "i = j") (auto simp: q)
  have "\<exists>w'. all_ok (map (\<lambda>(i, n). reserve i n) qs) w1 = Some w' \<and> good w' \<and> known w' = known w1 \<and>
      total_used w' = total_used w1 + demand_all qs \<and> (\<forall>i. used w' i = used w1 i + demand qs i)"
    using Cons.prems eff room by (intro Cons.IH) (auto simp: q)
  with w1 eff show ?case by (auto simp: q)
qed

lemma release_all:
  assumes "good w" and "\<forall>q \<in> set qs. known w (fst q)"
  shows "\<exists>w'. all_ok (map (\<lambda>(i, n). release i n) qs) w = Some w' \<and> good w' \<and> known w' = known w \<and>
    total_used w' = total_used w - demand_all qs \<and> (\<forall>i. used w' i = used w i - demand qs i)"
  using assms
proof (induction qs arbitrary: w)
  case Nil
  then show ?case by simp
next
  case (Cons q qs)
  obtain j n where q: "q = (j, n)" by (cases q)
  have "fst (release j n w) = Inr ()"
    using Cons.prems by (intro release_ok) (simp_all add: q)
  then obtain w1 where w1: "release j n w = (Inr (), w1)" by (metis prod.collapse)
  note eff = release_effect [OF Cons.prems(1) w1]
  have "\<exists>w'. all_ok (map (\<lambda>(i, n). release i n) qs) w1 = Some w' \<and> good w' \<and> known w' = known w1 \<and>
      total_used w' = total_used w1 - demand_all qs \<and> (\<forall>i. used w' i = used w1 i - demand qs i)"
    using Cons.prems eff by (intro Cons.IH) (auto simp: q)
  with w1 eff show ?case by (auto simp: q)
qed

end

interpretation ledger: space_ledger "increase C WriteOk" "decrease C WriteOk"
  "\<lambda>w i. unat (local_used w i)" "\<lambda>w. unat (total w)" "\<lambda>w. unat (max_capacity (space w))"
  "\<lambda>w i. btm_get (local_stores (space w)) i \<noteq> None" "\<lambda>w. space_wf (space w)"
  for C
proof (unfold_locales, goal_cases)
  case (1 w i n)
  then show ?case by (auto simp: increase_okI total_def local_used_def)
next
  case (2 w i n w')
  from 2(2) show ?case
  proof (rule increase_OkD)
    fix ls
    assume ls: "btm_get (local_stores (space w)) i = Some ls"
      and le: "unat (total_value (space w)) + unat n \<le> unat (max_capacity (space w))"
      and lt: "unat (local_value ls) + unat n < 2 ^ 64"
      and w': "w' = \<lparr>disk = fs_write (local_record ls) (ser_u64 C (local_value ls + n)) (disk w),
           space = (space w)\<lparr>total_value := total_value (space w) + n,
             local_stores := btm_insert i (ls\<lparr>local_value := local_value ls + n\<rparr>) (local_stores (space w))\<rparr>\<rparr>"
    have "unat (total_value (space w) + n) = unat (total_value (space w)) + unat n"
      using le unat_less_2p [of "max_capacity (space w)"] by (intro unat_add_no_wrap) simp
    moreover have "unat (local_value ls + n) = unat (local_value ls) + unat n"
      using lt by (intro unat_add_no_wrap) simp
    ultimately show ?thesis
      using ls w' increase_wf [OF 2(2,1)] by (auto simp: total_def local_used_def fun_eq_iff split: if_splits)
  qed
next
  case (3 w i n)
  then show ?case by (auto simp: decrease_okI)
next
  case (4 w i n w')
  with decrease_wf [OF 4(2,1)] show ?case
    by (auto simp: total_def local_used_def fun_eq_iff split: if_splits elim!: decrease_OkD)
qed

lemma run_ops_append:
  "run_ops C (ps @ qs) w = (case run_ops C ps w of (rs, w1) \<Rightarrow>
     (case run_ops C qs w1 of (rs', w2) \<Rightarrow> (rs @ rs', w2)))"
  by (induction ps arbitrary: w) (auto split: prod.splits)

lemma run_ops_all_ok:
  "all_ok (map (exec_op C) ps) w = Some w' \<Longrightarrow> run_ops C ps w = (replicate (length ps) (Inr ()), w')"
  by (induction ps arbitrary: w) (auto split: prod.splits sum.splits)

text \<open>
  The requests of a list of writers, and the same requests taken back in another order.
\<close>

definition increases :: "(StoreId \<times> u64) list \<Rightarrow> space_op list" where
  "increases qs = map (\<lambda>(i, n). Increase WriteOk i n) qs"

definition decreases :: "(StoreId \<times> u64) list \<Rightarrow> space_op list" where
  "decreases qs = map (\<lambda>(i, n). Decrease WriteOk i n) qs"

lemma map_exec_increases: "map (exec_op C) (increases qs) = map (\<lambda>(i, n). increase C WriteOk i n) qs"
  by (auto simp: increases_def)

lemma map_exec_decreases: "map (exec_op C) (decreases qs) = map (\<lambda>(i, n). decrease C WriteOk i n) qs"
  by (auto simp: decreases_def)

section \<open>Reachable states\<close>

text \<open>
  The states a process can reach from a fresh record on any disk, whatever fails on the way.
\<close>

inductive reachable_space :: "u64_codec \<Rightarrow> u64 \<Rightarrow> world \<Rightarrow> bool" for C cap where
  start: "reachable_space C cap \<lparr>disk = d, space = used_space_new cap\<rparr>"
| step: "reachable_space C cap w \<Longrightarrow> exec_op C p w = (r, w') \<Longrightarrow> reachable_space C cap w'"

lemma reachable_space_wf:
  "reachable_space C cap w \<Longrightarrow> space_wf (space w) \<and> max_capacity (space w) = cap"
proof (induction rule: reachable_space.induct)
  case (start d)
  then show ?case by (simp add: used_space_new_def space_wf_def)
next
  case (step w p r w')
  then show ?case by (auto dest: exec_op_wf exec_op_max_capacity)
qed

section \<open>Properties\<close>

text \<open>
  The recorded total never exceeds the configured capacity: in every state reachable from a
  fresh record, on any disk and whatever file operations fail, the total is at most the
  capacity the record was created with, and the capacity is never changed.
\<close>

theorem total_within_capacity:
  assumes "reachable_space C cap w"
  shows "total w \<le> cap \<and> max_capacity (space w) = cap"
  using reachable_space_wf [OF assms] by (auto simp: total_def space_wf_def)

text \<open>A codec: eight bytes, the least significant first.\<close>

definition le_bytes :: "u64 \<Rightarrow> bytes" where
  "le_bytes v = map (\<lambda>i. of_nat (unat v div 256 ^ i)) [0..<8]"

definition of_le_bytes :: "bytes \<Rightarrow> u64 option" where
  "of_le_bytes bs = (if length bs < 8 then None
     else Some (of_nat (\<Sum>i\<leftarrow>[0..<8]. unat (bs ! i) * 256 ^ i)))"

definition le_codec :: u64_codec where
  "le_codec = \<lparr>ser_u64 = le_bytes, de_u64 = of_le_bytes\<rparr>"

lemma digits_256: "(\<Sum>i\<leftarrow>[0..<k]. (n div 256 ^ i) mod 256 * 256 ^ i) = n mod (256 ^ k :: nat)"
proof (induction k)
  case 0
  then show ?case by simp
next
  case (Suc k)
  have "n mod (256 ^ k * 256) = n mod 256 ^ k + (n div 256 ^ k) mod 256 * 256 ^ k"
    by (simp only: mod_mult2_eq) (simp only: ac_simps)
  with Suc show ?case by (simp add: mult.commute)
qed

lemma le_codec_ok: "codec_ok le_codec"
proof -
  have "of_le_bytes (le_bytes v) = Some v" for v
  proof -
    have "(\<Sum>i\<leftarrow>[0..<8]. unat (le_bytes v ! i) * 256 ^ i) =
        (\<Sum>i\<leftarrow>[0..<8]. (unat v div 256 ^ i) mod 256 * 256 ^ i)"
      by (intro arg_cong [where f = sum_list] map_cong)
        (auto simp: le_bytes_def unsigned_of_nat take_bit_eq_mod)
    also have "\<dots> = unat v"
      using unat_less_2p [of v] by (simp add: digits_256)
    finally show ?thesis by (simp add: of_le_bytes_def) (simp add: le_bytes_def)
  qed
  then show ?thesis by (simp add: codec_ok_def le_codec_def) (simp add: le_bytes_def)
qed

theorem total_within_capacity_witness:
  "total (snd (exec_op le_codec (Increase WriteOk 0 5)
     (snd (exec_op le_codec (AddLocalStore \<lparr>open_ok = True, read_err = None, init_err = None\<rparr> [''a''])
       \<lparr>disk = [], space = used_space_new 7\<rparr>)))) \<le> 7"
proof -
  let ?w0 = "\<lparr>disk = [], space = used_space_new 7\<rparr>"
  let ?p1 = "AddLocalStore \<lparr>open_ok = True, read_err = None, init_err = None\<rparr> [''a'']"
  let ?p2 = "Increase WriteOk 0 5"
  have "reachable_space le_codec 7 (snd (exec_op le_codec ?p1 ?w0))"
    by (rule reachable_space.step [OF reachable_space.start]) (rule prod.collapse [symmetric])
  then have "reachable_space le_codec 7 (snd (exec_op le_codec ?p2 (snd (exec_op le_codec ?p1 ?w0))))"
    by (rule reachable_space.step) (rule prod.collapse [symmetric])
  from total_within_capacity [OF this] show ?thesis by simp
qed

text \<open>
  C16. Concurrent writers are consistent: whatever requests the writers make, as long as they fit
  into the capacity, all of them succeed, in whatever order they take the lock; the total
  and every store's value grow by exactly what was requested. Taking the same requests
  back, in any other order, succeeds and restores the total and every store's value.
\<close>

theorem multiwriter_consistent:
  assumes "space_wf (space w)"
    and "\<forall>q \<in> set qs. btm_get (local_stores (space w)) (fst q) \<noteq> None"
    and "unat (total w) + demand_all qs \<le> unat (max_capacity (space w))"
    and "\<forall>i. unat (local_used w i) + demand qs i < 2 ^ 64"
    and "mset qs' = mset qs"
  shows "\<exists>w1 w2. run_ops C (increases qs) w = (replicate (length qs) (Inr ()), w1) \<and>
    unat (total w1) = unat (total w) + demand_all qs \<and>
    (\<forall>i. unat (local_used w1 i) = unat (local_used w i) + demand qs i) \<and>
    run_ops C (decreases qs') w1 = (replicate (length qs) (Inr ()), w2) \<and>
    total w2 = total w \<and> (\<forall>i. local_used w2 i = local_used w i)"
proof -
  obtain w1 where w1: "all_ok (map (\<lambda>(i, n). increase C WriteOk i n) qs) w = Some w1"
      "space_wf (space w1)"
      "(\<lambda>i. btm_get (local_stores (space w1)) i \<noteq> None) = (\<lambda>i. btm_get (local_stores (space w)) i \<noteq> None)"
      "unat (total w1) = unat (total w) + demand_all qs"
      "\<And>i. unat (local_used w1 i) = unat (local_used w i) + demand qs i"
    using ledger.reserve_all [OF assms(1-4)] by blast
  have "\<forall>q \<in> set qs'. btm_get (local_stores (space w1)) (fst q) \<noteq> None"
    using assms(2) mset_eq_setD [OF assms(5)] w1(3) by (metis (mono_tags))
  from ledger.release_all [OF w1(2) this] obtain w2 where
      w2: "all_ok (map (\<lambda>(i, n). decrease C WriteOk i n) qs') w1 = Some w2"
      "unat (total w2) = unat (total w1) - demand_all qs'"
      "\<And>i. unat (local_used w2 i) = unat (local_used w1 i) - demand qs' i"
    by blast
  have "total w2 = total w" and "\<And>i. local_used w2 i = local_used w i"
    using w1(4,5) w2(2,3) demand_permute [OF assms(5)] by (simp_all add: word_unat_eq_iff)
  with w1 w2 show ?thesis
    using run_ops_all_ok [of C "increases qs" w w1] run_ops_all_ok [of C "decreases qs'" w1 w2]
      mset_eq_length [OF assms(5)]
    by (auto simp: map_exec_increases map_exec_decreases) (auto simp: increases_def decreases_def)
qed

text \<open>Two stores, of the directories \<open>a\<close> and \<open>b\<close>, in a record with room for 100 bytes.\<close>

definition two_stores :: world where
  "two_stores = \<lparr>disk = [], space = \<lparr>max_capacity = 100, total_value = 0,
     local_stores = [(0, \<lparr>local_value = 0, local_record = ([''a''], USED_SPACE_FILENAME)\<rparr>),
                     (1, \<lparr>local_value = 0, local_record = ([''b''], USED_SPACE_FILENAME)\<rparr>)],
     next_id = 2\<rparr>\<rparr>"

theorem multiwriter_consistent_witness:
  "\<exists>w1 w2. run_ops le_codec (increases [(0, 10), (1, 20), (0, 30)]) two_stores =
      (replicate 3 (Inr ()), w1) \<and> unat (total w1) = 60 \<and>
    run_ops le_codec (decreases [(0, 30), (0, 10), (1, 20)]) w1 = (replicate 3 (Inr ()), w2) \<and>
    total w2 = 0"
proof -
  let ?qs = "[(0, 10), (1, 20), (0, 30)] :: (StoreId \<times> u64) list"
  have "demand ?qs i < 100" for i by simp
  then have "\<forall>i. unat (local_used two_stores i) + demand ?qs i < 2 ^ 64"
    by (auto simp: local_used_def two_stores_def)
  then obtain w1 w2 where "run_ops le_codec (increases ?qs) two_stores = (replicate (length ?qs) (Inr ()), w1) \<and>
    unat (total w1) = unat (total two_stores) + demand_all ?qs \<and>
    (\<forall>i. unat (local_used w1 i) = unat (local_used two_stores i) + demand ?qs i) \<and>
    run_ops le_codec (decreases [(0, 30), (0, 10), (1, 20)]) w1 = (replicate (length ?qs) (Inr ()), w2) \<and>
    total w2 = total two_stores \<and> (\<forall>i. local_used w2 i = local_used two_stores i)"
    by atomize_elim (intro multiwriter_consistent, simp_all add: two_stores_def space_wf_def total_def)
  moreover have "total two_stores = 0" by (simp add: total_def two_stores_def)
  ultimately show ?thesis
    by (simp add: numeral_3_eq_3)
qed

text \<open>The record file of a directory, and what registering a directory with a record reads.\<close>

definition record_path :: "dir \<Rightarrow> path" where
  "record_path d = (d, USED_SPACE_FILENAME)"

lemma add_local_store_reads:
  assumes "fs_read (disk w) (record_path d) = Some (ser_u64 C v)" and "codec_ok C"
    and "open_ok io" and "read_err io = None"
  shows "add_local_store C io d w = (Inr (next_id (space w)),
    \<lparr>disk = fs_write (record_path d) (ser_u64 C v) (disk w),
     space = snd (register_store v (record_path d) (space w))\<rparr>)"
  using assms by (simp add: add_local_store_def record_path_def codec_ok_def register_store_def Let_def)

text \<open>
  The record on disk is the record in memory: after a successful reservation or release of
  space for a store, registering the store's directory again (as a restarted node does) reads
  back exactly the value the store had.
\<close>

theorem restart_reads_back:
  assumes "p = Increase io sid n \<or> p = Decrease io sid n"
    and "exec_op C p w = (Inr (), w1)" and "codec_ok C"
    and "btm_get (local_stores (space w)) sid = Some ls" and "local_record ls = record_path d"
    and "open_ok aio" and "read_err aio = None"
  shows "\<exists>w2. add_local_store C aio d \<lparr>disk = disk w1, space = used_space_new cap\<rparr> = (Inr 0, w2) \<and>
    local_used w2 0 = local_used w1 sid"
proof -
  have "fs_read (disk w1) (record_path d) = Some (ser_u64 C (local_used w1 sid))"
    using assms(1,2,4,5)
    by (elim disjE) (auto simp: local_used_def elim!: increase_OkD decrease_OkD)
  then show ?thesis
    using add_local_store_reads [of "\<lparr>disk = disk w1, space = used_space_new cap\<rparr>" d C "local_used w1 sid" aio]
      assms(3,6,7)
    by (simp add: register_store_def used_space_new_def local_used_def)
qed

theorem restart_reads_back_witness:
  "\<exists>w2. add_local_store le_codec \<lparr>open_ok = True, read_err = None, init_err = None\<rparr> [''a'']
      \<lparr>disk = disk (snd (exec_op le_codec (Increase WriteOk 0 42) two_stores)), space = used_space_new 7\<rparr> =
      (Inr 0, w2) \<and> local_used w2 0 = 42"
proof -
  have ok: "exec_op le_codec (Increase WriteOk 0 42) two_stores =
      (Inr (), snd (exec_op le_codec (Increase WriteOk 0 42) two_stores))"
    and v: "local_used (snd (exec_op le_codec (Increase WriteOk 0 42) two_stores)) 0 = 42"
    by (simp_all add: two_stores_def increase_def checked_add_def write_local_to_file_def local_used_def)
  have get: "btm_get (local_stores (space two_stores)) 0 =
      Some \<lparr>local_value = 0, local_record = record_path [''a'']\<rparr>"
    by (simp add: two_stores_def record_path_def)
  show ?thesis
    using restart_reads_back [OF disjI1 [OF refl] ok le_codec_ok get, of "[''a'']"
        "\<lparr>open_ok = True, read_err = None, init_err = None\<rparr>" 7] v
    by simp
qed

text \<open>
  The total as the sum of the stores: kept by reserving, by releasing no more than a store
  holds, and by resetting, but not by registering a store whose record on disk is not zero.
\<close>

definition balanced :: "UsedSpace \<Rightarrow> bool" where
  "balanced u \<longleftrightarrow> unat (total_value u) = btm_sum (\<lambda>ls. unat (local_value ls)) (local_stores u)"

lemma increase_balanced:
  assumes "increase C io sid n w = (Inr (), w')" "space_wf (space w)" "balanced (space w)"
  shows "balanced (space w')"
  using assms(1)
proof (rule increase_OkD)
  fix ls
  assume ls: "btm_get (local_stores (space w)) sid = Some ls"
    and le: "unat (total_value (space w)) + unat n \<le> unat (max_capacity (space w))"
    and lt: "unat (local_value ls) + unat n < 2 ^ 64"
    and w': "w' = \<lparr>disk = fs_write (local_record ls) (ser_u64 C (local_value ls + n)) (disk w),
         space = (space w)\<lparr>total_value := total_value (space w) + n,
           local_stores := btm_insert sid (ls\<lparr>local_value := local_value ls + n\<rparr>) (local_stores (space w))\<rparr>\<rparr>"
  have "unat (total_value (space w) + n) = unat (total_value (space w)) + unat n"
    using le unat_less_2p [of "max_capacity (space w)"] by (intro unat_add_no_wrap) simp
  moreover have "unat (local_value ls + n) = unat (local_value ls) + unat n"
    using lt by (intro unat_add_no_wrap) simp
  ultimately show ?thesis
    using assms(2,3) ls w' btm_sum_insert [of "local_stores (space w)" "\<lambda>ls. unat (local_value ls)" sid
        "ls\<lparr>local_value := local_value ls + n\<rparr>"]
    by (auto simp: balanced_def space_wf_def)
qed

lemma decrease_balanced:
  assumes "decrease C io sid n w = (Inr (), w')" "space_wf (space w)" "balanced (space w)"
    and "n \<le> local_used w sid"
  shows "balanced (space w')"
  using assms(1)
proof (rule decrease_OkD)
  fix ls
  assume ls: "btm_get (local_stores (space w)) sid = Some ls"
    and w': "w' = \<lparr>disk = fs_write (local_record ls) (ser_u64 C (saturating_sub (local_value ls) n)) (disk w),
           space = (space w)\<lparr>total_value := saturating_sub (total_value (space w)) n,
             local_stores := btm_insert sid (ls\<lparr>local_value := saturating_sub (local_value ls) n\<rparr>)
               (local_stores (space w))\<rparr>\<rparr>"
  have "unat n \<le> unat (local_value ls)"
    using assms(4) ls by (simp add: local_used_def word_le_nat_alt)
  with assms(2,3) ls w' btm_sum_insert [of "local_stores (space w)" "\<lambda>ls. unat (local_value ls)" sid
        "ls\<lparr>local_value := saturating_sub (local_value ls) n\<rparr>"]
  show ?thesis by (auto simp: balanced_def space_wf_def)
qed

end
