(* ===== verification/Chunk_Store.thy ===== *)
theory Chunk_Store
  imports Used_Space
begin

text \<open>
  The disk-based store of chunks (\<^verbatim>\<open>src/src/chunk_store/mod.rs\<close>). A chunk is a file of the
  store's directory, named by the hexadecimal form of its serialised id; the directory also
  holds the record of used space. Serialisation (\<^verbatim>\<open>bincode\<close>) and the hexadecimal coding
  (\<^verbatim>\<open>hex\<close>) are parameters. Every file access may fail; the last argument of an operation
  before the state says which of its accesses do.
\<close>

section \<open>Parameters\<close>

record ('c, 'i) chunk_api =
  serialise :: "'c \<Rightarrow> bytes option"
  deserialise :: "bytes \<Rightarrow> 'c option"
  chunk_id :: "'c \<Rightarrow> 'i"
  serialise_id :: "'i \<Rightarrow> bytes option"
  deserialise_id :: "bytes \<Rightarrow> 'i option"
  hex_encode :: "bytes \<Rightarrow> string"
  hex_decode :: "string \<Rightarrow> bytes option"
  u64_code :: u64_codec

text \<open>
  What the store relies on: deserialising inverts serialising, a serialised chunk is shorter
  than the address space, the hexadecimal coding is invertible and uses hexadecimal digits only.
\<close>

definition is_hex_digit :: "char \<Rightarrow> bool" where
  "is_hex_digit c \<longleftrightarrow> (let k = (of_char c :: nat) in
     48 \<le> k \<and> k \<le> 57 \<or> 65 \<le> k \<and> k \<le> 70 \<or> 97 \<le> k \<and> k \<le> 102)"

definition api_ok :: "('c, 'i) chunk_api \<Rightarrow> bool" where
  "api_ok A \<longleftrightarrow> codec_ok (u64_code A) \<and>
     (\<forall>c b. serialise A c = Some b \<longrightarrow> deserialise A b = Some c \<and> length b < 2 ^ 64) \<and>
     (\<forall>i b. serialise_id A i = Some b \<longrightarrow> deserialise_id A b = Some i) \<and>
     (\<forall>b. hex_decode A (hex_encode A b) = Some b) \<and>
     (\<forall>s b. hex_decode A s = Some b \<longrightarrow> list_all is_hex_digit s)"

section \<open>The store and its operations\<close>

definition CHUNK_STORE_DIR :: string where
  "CHUNK_STORE_DIR = ''chunks''"

definition MAX_CHUNK_FILE_NAME_LENGTH :: nat where
  "MAX_CHUNK_FILE_NAME_LENGTH = 104"

record ChunkStore =
  cs_dir :: dir
  cs_id :: StoreId

datatype (plugins only: code size) chunk_kind = BlobKind | MapKind | SequenceKind

fun subdir :: "chunk_kind \<Rightarrow> string" where
  "subdir BlobKind = ''immutable''"
| "subdir MapKind = ''mutable''"
| "subdir SequenceKind = ''sequence''"

text \<open>
  Creating the directory: a probe file with the longest name is created and removed.
\<close>

record root_io =
  create_dir_ok :: bool
  probe_ok :: bool
  unprobe_ok :: bool

definition create_new_root :: "root_io \<Rightarrow> dir \<Rightarrow> fs \<Rightarrow> unit result \<times> fs" where
  "create_new_root io root d =
     (let temp_file_path = (root, replicate MAX_CHUNK_FILE_NAME_LENGTH CHR ''0'') in
      if \<not> create_dir_ok io then (Inl Io, d)
      else if \<not> probe_ok io then (Inl Io, d)
      else if \<not> unprobe_ok io then (Inl Io, fs_write temp_file_path [] d)
      else (Inr (), fs_remove temp_file_path (fs_write temp_file_path [] d)))"

text \<open>
  \<^verbatim>\<open>fs::read(&dir)\<close> reads a regular file; it fails on a directory as well as on a missing
  path, so that the directory is created anew unless a file has its name.
\<close>

definition new :: "('c, 'i) chunk_api \<Rightarrow> chunk_kind \<Rightarrow> root_io \<Rightarrow> add_io \<Rightarrow> dir \<Rightarrow> world \<Rightarrow>
    ChunkStore result \<times> world" where
  "new A kind rio aio root w =
     (let dir = root @ [CHUNK_STORE_DIR, subdir kind];
          made = (if fs_read (disk w) (root @ [CHUNK_STORE_DIR], subdir kind) = None
                  then create_new_root rio dir (disk w) else (Inr (), disk w))
      in case made of
        (Inl e, d) \<Rightarrow> (Inl e, w\<lparr>disk := d\<rparr>)
      | (Inr _, d) \<Rightarrow> (case add_local_store (u64_code A) aio dir (w\<lparr>disk := d\<rparr>) of
          (Inl e, w') \<Rightarrow> (Inl e, w')
        | (Inr sid, w') \<Rightarrow> (Inr \<lparr>cs_dir = dir, cs_id = sid\<rparr>, w')))"

definition file_path :: "('c, 'i) chunk_api \<Rightarrow> ChunkStore \<Rightarrow> 'i \<Rightarrow> path result" where
  "file_path A cs i = (case serialise_id A i of
     None \<Rightarrow> Inl Bincode
   | Some b \<Rightarrow> Inr (cs_dir cs, hex_encode A b))"

record delete_io =
  metadata_ok :: bool
  decrease_io :: write_io
  remove_ok :: bool

definition do_delete :: "('c, 'i) chunk_api \<Rightarrow> delete_io \<Rightarrow> ChunkStore \<Rightarrow> path \<Rightarrow> world \<Rightarrow>
    unit result \<times> world" where
  "do_delete A io cs p w = (case (if metadata_ok io then fs_read (disk w) p else None) of
     None \<Rightarrow> (Inr (), w)
   | Some content \<Rightarrow>
       (case decrease (u64_code A) (decrease_io io) (cs_id cs) (of_nat (length content)) w of
         (Inl e, w1) \<Rightarrow> (Inl e, w1)
       | (Inr _, w1) \<Rightarrow>
           if remove_ok io then (Inr (), w1\<lparr>disk := fs_remove p (disk w1)\<rparr>) else (Inl Io, w1)))"

text \<open>Writing the file: create (which truncates), write all, sync.\<close>

datatype (plugins only: code size) create_io = CreateWriteOk | CreateErr | ChunkWriteErr nat | ChunkSyncErr

fun write_chunk_file :: "create_io \<Rightarrow> path \<Rightarrow> bytes \<Rightarrow> fs \<Rightarrow> bool \<times> fs" where
  "write_chunk_file CreateErr p b d = (False, d)"
| "write_chunk_file (ChunkWriteErr n) p b d = (False, fs_write p (take n b) d)"
| "write_chunk_file ChunkSyncErr p b d = (False, fs_write p b d)"
| "write_chunk_file CreateWriteOk p b d = (True, fs_write p b d)"

record put_io =
  del_io :: delete_io
  increase_io :: write_io
  file_io :: create_io
  undo_io :: write_io

definition put :: "('c, 'i) chunk_api \<Rightarrow> put_io \<Rightarrow> ChunkStore \<Rightarrow> 'c \<Rightarrow> world \<Rightarrow> unit result \<times> world" where
  "put A io cs chunk w = (case serialise A chunk of
     None \<Rightarrow> (Inl Bincode, w)
   | Some serialised_chunk \<Rightarrow>
       let consumed_space = of_nat (length serialised_chunk) :: u64 in
       (case file_path A cs (chunk_id A chunk) of
         Inl e \<Rightarrow> (Inl e, w)
       | Inr p \<Rightarrow> (case do_delete A (del_io io) cs p w of
           (Inl e, w1) \<Rightarrow> (Inl e, w1)
         | (Inr _, w1) \<Rightarrow> (case increase (u64_code A) (increase_io io) (cs_id cs) consumed_space w1 of
             (Inl e, w2) \<Rightarrow> (Inl e, w2)
           | (Inr _, w2) \<Rightarrow> (case write_chunk_file (file_io io) p serialised_chunk (disk w2) of
               (True, d) \<Rightarrow> (Inr (), w2\<lparr>disk := d\<rparr>)
             | (False, d) \<Rightarrow>
                 (case decrease (u64_code A) (undo_io io) (cs_id cs) consumed_space (w2\<lparr>disk := d\<rparr>) of
                   (Inl e, w3) \<Rightarrow> (Inl e, w3)
                 | (Inr _, w3) \<Rightarrow> (Inl Io, w3)))))))"

definition delete :: "('c, 'i) chunk_api \<Rightarrow> delete_io \<Rightarrow> ChunkStore \<Rightarrow> 'i \<Rightarrow> world \<Rightarrow> unit result \<times> world" where
  "delete A io cs i w = (case file_path A cs i of
     Inl e \<Rightarrow> (Inl e, w)
   | Inr p \<Rightarrow> do_delete A io cs p w)"

datatype (plugins only: code size) read_io = ReadOk | OpenErr | ReadErr

definition get :: "('c, 'i) chunk_api \<Rightarrow> read_io \<Rightarrow> ChunkStore \<Rightarrow> 'i \<Rightarrow> world \<Rightarrow> 'c result" where
  "get A io cs i w = (case file_path A cs i of
     Inl e \<Rightarrow> Inl e
   | Inr p \<Rightarrow> (case (if io = OpenErr then None else fs_read (disk w) p) of
       None \<Rightarrow> Inl NoSuchChunk
     | Some contents \<Rightarrow>
         if io = ReadErr then Inl Io
         else (case deserialise A contents of
           None \<Rightarrow> Inl Bincode
         | Some chunk \<Rightarrow> if chunk_id A chunk = i then Inr chunk else Inl NoSuchChunk)))"

definition total_used_space :: "world \<Rightarrow> u64" where
  "total_used_space w = total w"

definition has :: "('c, 'i) chunk_api \<Rightarrow> bool \<Rightarrow> ChunkStore \<Rightarrow> 'i \<Rightarrow> world \<Rightarrow> bool" where
  "has A meta_ok cs i w = (case file_path A cs i of
     Inl e \<Rightarrow> False
   | Inr p \<Rightarrow> meta_ok \<and> fs_read (disk w) p \<noteq> None)"

definition to_chunk_id :: "('c, 'i) chunk_api \<Rightarrow> string \<Rightarrow> 'i option" where
  "to_chunk_id A file_name = (case hex_decode A file_name of
     None \<Rightarrow> None
   | Some b \<Rightarrow> deserialise_id A b)"

definition keys :: "('c, 'i) chunk_api \<Rightarrow> bool \<Rightarrow> ChunkStore \<Rightarrow> world \<Rightarrow> 'i list" where
  "keys A read_dir_ok cs w = (if \<not> read_dir_ok then []
     else List.map_filter (to_chunk_id A) (map snd (filter (\<lambda>p. fst p = cs_dir cs) (map fst (disk w)))))"

section \<open>What a file name says\<close>

lemma hex_not_record: "api_ok A \<Longrightarrow> hex_encode A b \<noteq> USED_SPACE_FILENAME"
  by (auto simp: api_ok_def is_hex_digit_def USED_SPACE_FILENAME_def dest!: spec [of _ b])

lemma file_path_Inr_iff:
  "file_path A cs i = Inr p \<longleftrightarrow> (\<exists>b. serialise_id A i = Some b \<and> p = (cs_dir cs, hex_encode A b))"
  by (auto simp: file_path_def split: option.splits)

lemma file_path_inject:
  assumes "api_ok A" and "file_path A cs i = Inr p" and "file_path A cs j = Inr p"
  shows "i = j"
  using assms unfolding file_path_Inr_iff api_ok_def by (metis option.inject prod.inject)

lemma to_chunk_id_file_path:
  "api_ok A \<Longrightarrow> file_path A cs i = Inr (d, s) \<Longrightarrow> d = cs_dir cs \<and> to_chunk_id A s = Some i"
  by (auto simp: file_path_Inr_iff api_ok_def to_chunk_id_def)

section \<open>Effects on the disk\<close>

text \<open>
  A store in use: its parameters behave, and it is registered with the record file of its own
  directory. Every operation keeps this, also when it fails.
\<close>

definition records :: "world \<Rightarrow> StoreId \<Rightarrow> path option" where
  "records w sid = map_option local_record (btm_get (local_stores (space w)) sid)"

definition store_ok :: "('c, 'i) chunk_api \<Rightarrow> ChunkStore \<Rightarrow> world \<Rightarrow> bool" where
  "store_ok A cs w \<longleftrightarrow> api_ok A \<and> space_wf (space w) \<and>
     records w (cs_id cs) = Some (cs_dir cs, USED_SPACE_FILENAME)"

lemma write_local_to_file_read:
  "write_local_to_file C io r v d = (res, d') \<Longrightarrow> p \<noteq> r \<Longrightarrow> fs_read d' p = fs_read d p"
  by (auto simp: write_local_to_file_def split: write_io.splits)

lemma increase_frame:
  assumes "increase C io sid n w = (r, w')"
  shows "records w' = records w"
    and "records w sid \<noteq> Some p \<Longrightarrow> fs_read (disk w') p = fs_read (disk w) p"
  using assms
  by (auto simp: increase_def Let_def records_def fun_eq_iff
      split: option.splits if_splits sum.splits prod.splits dest!: write_local_to_file_read)

lemma decrease_frame:
  assumes "decrease C io sid n w = (r, w')"
  shows "records w' = records w"
    and "records w sid \<noteq> Some p \<Longrightarrow> fs_read (disk w') p = fs_read (disk w) p"
  using assms
  by (auto simp: decrease_def Let_def records_def fun_eq_iff
      split: option.splits if_splits sum.splits prod.splits dest!: write_local_to_file_read)

lemma records_disk_update [simp]: "records (w\<lparr>disk := d\<rparr>) = records w"
  by (simp add: records_def fun_eq_iff)

lemma do_delete_frame:
  assumes "do_delete A io cs p w = (r, w')" and "store_ok A cs w"
  shows "store_ok A cs w'"
    and "q \<noteq> p \<Longrightarrow> q \<noteq> (cs_dir cs, USED_SPACE_FILENAME) \<Longrightarrow> fs_read (disk w') q = fs_read (disk w) q"
  using assms
  by (auto simp: do_delete_def store_ok_def decrease_frame dest: decrease_wf
      split: option.splits if_splits sum.splits prod.splits)

lemma do_delete_removes:
  assumes "do_delete A io cs p w = (Inr (), w')" and "metadata_ok io"
    and "records w (cs_id cs) \<noteq> Some p"
  shows "fs_read (disk w') p = None"
  using assms
  by (auto simp: do_delete_def split: option.splits if_splits sum.splits prod.splits)

lemma write_chunk_file_read:
  "write_chunk_file io p b d = (ok, d') \<Longrightarrow> q \<noteq> p \<Longrightarrow> fs_read d' q = fs_read d q"
  by (cases io) auto

lemma write_chunk_file_ok: "write_chunk_file io p b d = (True, d') \<Longrightarrow> d' = fs_write p b d"
  by (cases io) auto

text \<open>The five ways \<^const>\<open>put\<close> can end.\<close>

lemma put_cases:
  assumes "put A io cs c w = (r, w')"
  obtains (unserialisable) "r = Inl Bincode" "w' = w"
    "serialise A c = None \<or> serialise_id A (chunk_id A c) = None"
  | (delete_failed) b p e where "serialise A c = Some b" "file_path A cs (chunk_id A c) = Inr p"
    "do_delete A (del_io io) cs p w = (Inl e, w')" "r = Inl e"
  | (no_space) b p w1 e where "serialise A c = Some b" "file_path A cs (chunk_id A c) = Inr p"
    "do_delete A (del_io io) cs p w = (Inr (), w1)"
    "increase (u64_code A) (increase_io io) (cs_id cs) (of_nat (length b)) w1 = (Inl e, w')" "r = Inl e"
  | (written) b p w1 w2 where "serialise A c = Some b" "file_path A cs (chunk_id A c) = Inr p"
    "do_delete A (del_io io) cs p w = (Inr (), w1)"
    "increase (u64_code A) (increase_io io) (cs_id cs) (of_nat (length b)) w1 = (Inr (), w2)"
    "w' = w2\<lparr>disk := fs_write p b (disk w2)\<rparr>" "r = Inr ()"
  | (write_failed) b p w1 w2 d r' e where "serialise A c = Some b" "file_path A cs (chunk_id A c) = Inr p"
    "do_delete A (del_io io) cs p w = (Inr (), w1)"
    "increase (u64_code A) (increase_io io) (cs_id cs) (of_nat (length b)) w1 = (Inr (), w2)"
    "write_chunk_file (file_io io) p b (disk w2) = (False, d)"
    "decrease (u64_code A) (undo_io io) (cs_id cs) (of_nat (length b)) (w2\<lparr>disk := d\<rparr>) = (r', w')"
    "r = Inl e" "r' = Inl e \<or> e = Io"
proof (cases "serialise A c")
  case None
  with assms show ?thesis by (intro unserialisable) (auto simp: put_def)
next
  case ser: (Some b)
  show ?thesis
  proof (cases "file_path A cs (chunk_id A c)")
    case (Inl e)
    with ser assms show ?thesis
      by (intro unserialisable) (auto simp: put_def Let_def file_path_def split: option.splits)
  next
    case path: (Inr p)
    obtain r1 w1 where del: "do_delete A (del_io io) cs p w = (r1, w1)" by (metis surj_pair)
    show ?thesis
    proof (cases r1)
      case (Inl e)
      with ser path del assms show ?thesis by (intro delete_failed) (auto simp: put_def Let_def)
    next
      case r1: (Inr u)
      obtain r2 w2 where inc: "increase (u64_code A) (increase_io io) (cs_id cs) (of_nat (length b)) w1 = (r2, w2)"
        by (metis surj_pair)
      show ?thesis
      proof (cases r2)
        case (Inl e)
        with ser path del r1 inc assms show ?thesis by (intro no_space) (auto simp: put_def Let_def)
      next
        case r2: (Inr u')
        obtain wr d where wr: "write_chunk_file (file_io io) p b (disk w2) = (wr, d)" by (metis surj_pair)
        obtain r3 w3 where dec: "decrease (u64_code A) (undo_io io) (cs_id cs) (of_nat (length b)) (w2\<lparr>disk := d\<rparr>) = (r3, w3)"
          by (metis surj_pair)
        note eqs = ser path del r1 inc r2 wr dec
        show ?thesis
        proof (cases wr)
          case True
          with eqs assms write_chunk_file_ok [of "file_io io" p b "disk w2" d] show ?thesis
            by (intro written) (auto simp: put_def Let_def)
        next
          case False
          with eqs have "put A io cs c w = (case r3 of Inl e \<Rightarrow> (Inl e, w3) | Inr _ \<Rightarrow> (Inl Io, w3))"
            by (simp add: put_def Let_def)
          with assms have w': "w' = w3" and "\<exists>e. r = Inl e \<and> (r3 = Inl e \<or> e = Io)"
            by (auto split: sum.splits)
          then obtain e where e: "r = Inl e" "r3 = Inl e \<or> e = Io" by blast
          from ser path show ?thesis
            by (rule write_failed [of _ _ w1 w2 d r3 e]) (use False eqs w' e in simp_all)
        qed
      qed
    qed
  qed
qed

lemma put_store_ok:
  assumes "put A io cs c w = (r, w')" and ok: "store_ok A cs w"
  shows "store_ok A cs w'"
  using assms(1)
proof (cases rule: put_cases)
  case unserialisable
  with ok show ?thesis by simp
next
  case (delete_failed b p e)
  with ok show ?thesis by (simp add: do_delete_frame)
next
  case (no_space b p w1 e)
  with do_delete_frame(1) [OF no_space(3) ok] show ?thesis
    by (auto simp: store_ok_def increase_frame dest: increase_wf)
next
  case (written b p w1 w2)
  with do_delete_frame(1) [OF written(3) ok] show ?thesis
    by (auto simp: store_ok_def increase_frame dest: increase_wf)
next
  case (write_failed b p w1 w2 d r' e)
  have "space_wf (space w2)"
    using do_delete_frame(1) [OF write_failed(3) ok] write_failed(4)
    by (auto simp: store_ok_def dest: increase_wf)
  with do_delete_frame(1) [OF write_failed(3) ok] write_failed show ?thesis
    by (auto simp: store_ok_def increase_frame decrease_frame dest!: decrease_wf)
qed

lemma put_read_frame:
  assumes "put A io cs c w = (r, w')" and ok: "store_ok A cs w"
    and q: "file_path A cs (chunk_id A c) \<noteq> Inr q" "q \<noteq> (cs_dir cs, USED_SPACE_FILENAME)"
  shows "fs_read (disk w') q = fs_read (disk w) q"
  using assms(1)
proof (cases rule: put_cases)
  case unserialisable
  then show ?thesis by simp
next
  case (delete_failed b p e)
  with q ok show ?thesis by (auto intro: do_delete_frame)
next
  case (no_space b p w1 e)
  have "records w1 (cs_id cs) \<noteq> Some q"
    using do_delete_frame(1) [OF no_space(3) ok] q by (auto simp: store_ok_def)
  with no_space q ok show ?thesis by (auto simp: increase_frame intro: do_delete_frame)
next
  case (written b p w1 w2)
  have "records w1 (cs_id cs) \<noteq> Some q"
    using do_delete_frame(1) [OF written(3) ok] q by (auto simp: store_ok_def)
  with written q ok show ?thesis by (auto simp: increase_frame intro: do_delete_frame)
next
  case (write_failed b p w1 w2 d r' e)
  have "records w1 (cs_id cs) \<noteq> Some q"
    using do_delete_frame(1) [OF write_failed(3) ok] q by (auto simp: store_ok_def)
  moreover have "fs_read d q = fs_read (disk w2) q"
    using write_failed q by (auto intro: write_chunk_file_read)
  ultimately show ?thesis
    using write_failed q ok by (auto simp: increase_frame decrease_frame intro: do_delete_frame)
qed

lemma put_read_back:
  assumes "put A io cs c w = (Inr (), w')"
  shows "\<exists>b p. serialise A c = Some b \<and> file_path A cs (chunk_id A c) = Inr p \<and> fs_read (disk w') p = Some b"
  using assms by (cases rule: put_cases) auto

lemma chunk_path_not_record:
  "api_ok A \<Longrightarrow> file_path A cs i = Inr p \<Longrightarrow> p \<noteq> (cs_dir cs, USED_SPACE_FILENAME)"
  by (auto simp: file_path_Inr_iff hex_not_record)

section \<open>The interface of a store of chunks\<close>

text \<open>
  What the node's data stores rely on, for any way the single file accesses go (the first
  argument of an operation): a stored chunk is read back, under its id only; a deleted one is
  gone if the delete could look up its file (\<open>seen\<close>), and a delete that could not reports success
  and leaves the chunk; other chunks are untouched also when an operation fails. The state may
  carry the parameters of the store.
\<close>

datatype (plugins only: code size) ('pio, 'dio, 'c, 'i) kv_op = KvPut 'pio 'c | KvDelete 'dio 'i

fun exec_kv :: "('pio \<Rightarrow> 'c \<Rightarrow> 's \<Rightarrow> unit result \<times> 's) \<Rightarrow> ('dio \<Rightarrow> 'i \<Rightarrow> 's \<Rightarrow> unit result \<times> 's) \<Rightarrow>
    ('pio, 'dio, 'c, 'i) kv_op \<Rightarrow> 's \<Rightarrow> unit result \<times> 's" where
  "exec_kv p d (KvPut io c) s = p io c s"
| "exec_kv p d (KvDelete io i) s = d io i s"

fun run_kv :: "('pio \<Rightarrow> 'c \<Rightarrow> 's \<Rightarrow> unit result \<times> 's) \<Rightarrow> ('dio \<Rightarrow> 'i \<Rightarrow> 's \<Rightarrow> unit result \<times> 's) \<Rightarrow>
    ('pio, 'dio, 'c, 'i) kv_op list \<Rightarrow> 's \<Rightarrow> unit result list \<times> 's" where
  "run_kv p d [] s = ([], s)"
| "run_kv p d (q # qs) s = (case exec_kv p d q s of (r, s1) \<Rightarrow>
     (case run_kv p d qs s1 of (rs, s2) \<Rightarrow> (r # rs, s2)))"

text \<open>
  The specification: a map from ids to what reading them returns, \<^const>\<open>None\<close> where nothing is
  promised because the last operation on the id has reported an error.
\<close>

fun kv_spec :: "('dio \<Rightarrow> bool) \<Rightarrow> ('c \<Rightarrow> 'i) \<Rightarrow> ('pio, 'dio, 'c, 'i) kv_op \<Rightarrow> unit result \<Rightarrow> ('i \<rightharpoonup> 'c result) \<Rightarrow>
    ('i \<rightharpoonup> 'c result)" where
  "kv_spec seen f (KvPut io c) r m = m(f c := if is_ok r then Some (Inr c) else None)"
| "kv_spec seen f (KvDelete io i) r m =
     (if is_ok r \<and> \<not> seen io then m else m(i := if is_ok r then Some (Inl NoSuchChunk) else None))"

fun run_spec :: "('dio \<Rightarrow> bool) \<Rightarrow> ('c \<Rightarrow> 'i) \<Rightarrow> ('pio, 'dio, 'c, 'i) kv_op list \<Rightarrow> unit result list \<Rightarrow> ('i \<rightharpoonup> 'c result) \<Rightarrow>
    ('i \<rightharpoonup> 'c result)" where
  "run_spec seen f (q # qs) (r # rs) m = run_spec seen f qs rs (kv_spec seen f q r m)"
| "run_spec seen f _ _ m = m"

locale chunk_kv =
  fixes kv_put :: "'pio \<Rightarrow> 'c \<Rightarrow> 's \<Rightarrow> unit result \<times> 's"
    and kv_delete :: "'dio \<Rightarrow> 'i \<Rightarrow> 's \<Rightarrow> unit result \<times> 's"
    and kv_get :: "'i \<Rightarrow> 's \<Rightarrow> 'c result"
    and ident :: "'s \<Rightarrow> 'c \<Rightarrow> 'i"
    and seen :: "'dio \<Rightarrow> bool"
    and inv :: "'s \<Rightarrow> bool"
  assumes inv_put: "inv s \<Longrightarrow> kv_put io c s = (r, s') \<Longrightarrow> inv s' \<and> ident s' = ident s"
    and inv_delete: "inv s \<Longrightarrow> kv_delete dio i s = (r, s') \<Longrightarrow> inv s' \<and> ident s' = ident s"
    and put_get: "inv s \<Longrightarrow> kv_put io c s = (Inr (), s') \<Longrightarrow> kv_get (ident s c) s' = Inr c"
    and put_other: "inv s \<Longrightarrow> kv_put io c s = (r, s') \<Longrightarrow> i \<noteq> ident s c \<Longrightarrow> kv_get i s' = kv_get i s"
    and delete_get: "inv s \<Longrightarrow> seen dio \<Longrightarrow> kv_delete dio i s = (Inr (), s') \<Longrightarrow>
      kv_get i s' = Inl NoSuchChunk"
    and delete_unseen: "inv s \<Longrightarrow> \<not> seen dio \<Longrightarrow> kv_delete dio i s = (Inr (), s') \<Longrightarrow> kv_get j s' = kv_get j s"
    and delete_other: "inv s \<Longrightarrow> kv_delete dio i s = (r, s') \<Longrightarrow> j \<noteq> i \<Longrightarrow> kv_get j s' = kv_get j s"
begin

lemma exec_inv:
  "inv s \<Longrightarrow> exec_kv kv_put kv_delete q s = (r, s') \<Longrightarrow> inv s' \<and> ident s' = ident s"
  by (cases q) (auto dest: inv_put inv_delete)

lemma exec_spec:
  assumes "inv s" and "exec_kv kv_put kv_delete q s = (r, s')"
    and "\<forall>i v. m i = Some v \<longrightarrow> kv_get i s = v"
  shows "\<forall>i v. kv_spec seen (ident s) q r m i = Some v \<longrightarrow> kv_get i s' = v"
  using assms
  by (cases q; cases r) (auto simp: put_other delete_get delete_unseen delete_other dest: put_get split: if_splits)

lemma run_refines:
  assumes "inv s" and "run_kv kv_put kv_delete qs s = (rs, s')"
    and "\<forall>i v. m i = Some v \<longrightarrow> kv_get i s = v"
  shows "\<forall>i v. run_spec seen (ident s) qs rs m i = Some v \<longrightarrow> kv_get i s' = v"
  using assms
proof (induction qs arbitrary: s rs m)
  case Nil
  then show ?case by simp
next
  case (Cons q qs)
  obtain r s1 where q: "exec_kv kv_put kv_delete q s = (r, s1)" by (metis surj_pair)
  obtain rs' where rest: "run_kv kv_put kv_delete qs s1 = (rs', s')" and rs: "rs = r # rs'"
    using Cons.prems(2) q by (auto split: prod.splits)
  have inv: "inv s1" "ident s1 = ident s"
    using exec_inv [OF Cons.prems(1) q] by auto
  have "\<forall>i v. kv_spec seen (ident s) q r m i = Some v \<longrightarrow> kv_get i s1 = v"
    using Cons.prems q by (intro exec_spec) auto
  with Cons.IH [OF inv(1) rest] inv(2) rs show ?case by simp
qed

end

section \<open>The model provides the interface\<close>

text \<open>The state of the interface is the store with its parameters and the world it works on.\<close>

type_synonym ('c, 'i) store_state = "('c, 'i) chunk_api \<times> ChunkStore \<times> world"

definition s_put :: "put_io \<Rightarrow> 'c \<Rightarrow> ('c, 'i) store_state \<Rightarrow> unit result \<times> ('c, 'i) store_state" where
  "s_put io c s = (case s of (A, cs, w) \<Rightarrow> (case put A io cs c w of (r, w') \<Rightarrow> (r, (A, cs, w'))))"

definition s_delete :: "delete_io \<Rightarrow> 'i \<Rightarrow> ('c, 'i) store_state \<Rightarrow> unit result \<times> ('c, 'i) store_state" where
  "s_delete io i s = (case s of (A, cs, w) \<Rightarrow> (case delete A io cs i w of (r, w') \<Rightarrow> (r, (A, cs, w'))))"

definition s_get :: "'i \<Rightarrow> ('c, 'i) store_state \<Rightarrow> 'c result" where
  "s_get i s = (case s of (A, cs, w) \<Rightarrow> get A ReadOk cs i w)"

lemma get_cong_read:
  "(\<And>p. file_path A cs i = Inr p \<Longrightarrow> fs_read (disk w') p = fs_read (disk w) p) \<Longrightarrow>
    get A io cs i w' = get A io cs i w"
  by (auto simp: get_def split: sum.splits)

lemma put_get_same:
  assumes "put A io cs c w = (Inr (), w')" and "store_ok A cs w"
  shows "get A ReadOk cs (chunk_id A c) w' = Inr c"
  using put_read_back [OF assms(1)] assms(2) by (auto simp: get_def store_ok_def api_ok_def)

lemma put_get_other:
  assumes "put A io cs c w = (r, w')" and "store_ok A cs w" and "i \<noteq> chunk_id A c"
  shows "get A rio cs i w' = get A rio cs i w"
proof (rule get_cong_read)
  fix p
  assume p: "file_path A cs i = Inr p"
  have A: "api_ok A" using assms(2) by (simp add: store_ok_def)
  have "file_path A cs (chunk_id A c) \<noteq> Inr p"
    using file_path_inject [OF A p] assms(3) by blast
  with put_read_frame [OF assms(1,2)] chunk_path_not_record [OF A p]
  show "fs_read (disk w') p = fs_read (disk w) p" by blast
qed

lemma delete_store_ok: "delete A io cs i w = (r, w') \<Longrightarrow> store_ok A cs w \<Longrightarrow> store_ok A cs w'"
  by (auto simp: delete_def do_delete_frame split: sum.splits)

lemma delete_get_same:
  assumes "delete A io cs i w = (Inr (), w')" and "store_ok A cs w" and "metadata_ok io"
  shows "get A ReadOk cs i w' = Inl NoSuchChunk"
proof -
  obtain p where p: "file_path A cs i = Inr p" "do_delete A io cs p w = (Inr (), w')"
    using assms(1) by (auto simp: delete_def split: sum.splits)
  have "records w (cs_id cs) \<noteq> Some p"
    using assms(2) chunk_path_not_record [of A cs i p] p(1) by (auto simp: store_ok_def)
  with p do_delete_removes [OF p(2) assms(3)] show ?thesis by (simp add: get_def)
qed

lemma delete_unseen_same: "delete A io cs i w = (Inr (), w') \<Longrightarrow> \<not> metadata_ok io \<Longrightarrow> w' = w"
  by (simp add: delete_def do_delete_def split: sum.splits)

lemma delete_get_other:
  assumes "delete A io cs i w = (r, w')" and "store_ok A cs w" and "j \<noteq> i"
  shows "get A rio cs j w' = get A rio cs j w"
proof (rule get_cong_read)
  fix q
  assume q: "file_path A cs j = Inr q"
  have A: "api_ok A" using assms(2) by (simp add: store_ok_def)
  have "file_path A cs i \<noteq> Inr q" using file_path_inject [OF A q] assms(3) by blast
  with assms(1,2) chunk_path_not_record [OF A q]
  show "fs_read (disk w') q = fs_read (disk w) q"
    by (auto simp: delete_def intro: do_delete_frame split: sum.splits)
qed

interpretation store: chunk_kv s_put s_delete s_get "\<lambda>s. chunk_id (fst s)" metadata_ok
  "\<lambda>s. store_ok (fst s) (fst (snd s)) (snd (snd s))"
  by unfold_locales
    (auto simp: s_put_def s_delete_def s_get_def put_store_ok delete_store_ok put_get_same put_get_other
      delete_get_same delete_get_other dest: delete_unseen_same split: prod.splits)

lemma run_kv_state:
  "run_kv s_put s_delete qs (A, cs, w) = (rs, s') \<Longrightarrow> \<exists>w'. s' = (A, cs, w')"
proof (induction qs arbitrary: w rs)
  case (Cons q qs)
  then show ?case by (cases q) (auto simp: s_put_def s_delete_def split: prod.splits)
qed auto

section \<open>Accounting\<close>

text \<open>The sizes of the files a predicate on paths selects, added up.\<close>

definition fs_sum :: "(path \<Rightarrow> bool) \<Rightarrow> fs \<Rightarrow> nat" where
  "fs_sum P d = (\<Sum>e\<leftarrow>d. if P (fst e) then length (snd e) else 0)"

definition fs_size :: "(path \<Rightarrow> bool) \<Rightarrow> path \<Rightarrow> bytes option \<Rightarrow> nat" where
  "fs_size P p c = (case c of None \<Rightarrow> 0 | Some b \<Rightarrow> if P p then length b else 0)"

lemma fs_sum_simps [simp]:
  "fs_sum P [] = 0" "fs_sum P ((p, c) # d) = (if P p then length c else 0) + fs_sum P d"
  by (simp_all add: fs_sum_def)

lemma fs_sum_write:
  "distinct (map fst d) \<Longrightarrow>
    fs_sum P (fs_write p c d) + fs_size P p (fs_read d p) = fs_sum P d + fs_size P p (Some c)"
proof (induction d)
  case (Cons e d)
  obtain q b where e: "e = (q, b)" by (cases e)
  with Cons show ?case by (cases "q = p") (simp_all add: fs_size_def)
qed (simp add: fs_size_def)

lemma fs_sum_write_other:
  "distinct (map fst d) \<Longrightarrow> \<not> P p \<Longrightarrow> fs_sum P (fs_write p c d) = fs_sum P d"
  using fs_sum_write [of d P p c] by (auto simp: fs_size_def split: option.splits)

lemma fs_sum_remove:
  "distinct (map fst d) \<Longrightarrow> fs_sum P (fs_remove p d) + fs_size P p (fs_read d p) = fs_sum P d"
proof (induction d)
  case (Cons e d)
  obtain q c where e: "e = (q, c)" by (cases e)
  show ?case
  proof (cases "q = p")
    case True
    with Cons.prems e have "p \<notin> fst ` set d" by simp
    with True e show ?thesis by (simp add: fs_size_def delete_idem)
  next
    case False
    with Cons e show ?thesis by (auto simp: fs_size_def split: option.splits)
  qed
qed (simp add: fs_size_def)

lemma fs_sum_read: "fs_size P p (fs_read d p) \<le> fs_sum P d"
  by (induction d) (auto simp: fs_size_def split: option.splits)

definition chunk_file :: "ChunkStore \<Rightarrow> path \<Rightarrow> bool" where
  "chunk_file cs p \<longleftrightarrow> fst p = cs_dir cs \<and> snd p \<noteq> USED_SPACE_FILENAME"

text \<open>
  The state a store is in as long as no file access fails: the recorded value is the number of
  bytes the chunk files hold, and every chunk file holds a chunk under the name of its id.
\<close>

definition accounted :: "ChunkStore \<Rightarrow> world \<Rightarrow> bool" where
  "accounted cs w \<longleftrightarrow> distinct (map fst (disk w)) \<and>
     unat (local_used w (cs_id cs)) = fs_sum (chunk_file cs) (disk w)"

definition consistent :: "('c, 'i) chunk_api \<Rightarrow> ChunkStore \<Rightarrow> world \<Rightarrow> bool" where
  "consistent A cs w \<longleftrightarrow> (\<forall>p c. chunk_file cs p \<longrightarrow> fs_read (disk w) p = Some c \<longrightarrow>
     (\<exists>chunk. deserialise A c = Some chunk \<and> file_path A cs (chunk_id A chunk) = Inr p))"

lemma consistentD:
  "consistent A cs w \<Longrightarrow> chunk_file cs p \<Longrightarrow> fs_read (disk w) p = Some c \<Longrightarrow>
    \<exists>chunk. deserialise A c = Some chunk \<and> file_path A cs (chunk_id A chunk) = Inr p"
  unfolding consistent_def by blast

definition persisted :: "('c, 'i) chunk_api \<Rightarrow> ChunkStore \<Rightarrow> world \<Rightarrow> bool" where
  "persisted A cs w \<longleftrightarrow> fs_read (disk w) (record_path (cs_dir cs)) =
     Some (ser_u64 (u64_code A) (local_used w (cs_id cs)))"

definition sound_store :: "('c, 'i) chunk_api \<Rightarrow> ChunkStore \<Rightarrow> world \<Rightarrow> bool" where
  "sound_store A cs w \<longleftrightarrow> store_ok A cs w \<and> accounted cs w \<and> consistent A cs w \<and> persisted A cs w"

lemma chunk_file_path: "api_ok A \<Longrightarrow> file_path A cs i = Inr p \<Longrightarrow> chunk_file cs p"
  by (auto simp: chunk_file_def file_path_Inr_iff hex_not_record)

lemma record_not_chunk_file [simp]: "\<not> chunk_file cs (cs_dir cs, USED_SPACE_FILENAME)"
  by (simp add: chunk_file_def)

lemma increase_accounting:
  assumes "increase C io (cs_id cs) n w = (Inr (), w')"
    and "records w (cs_id cs) = Some (cs_dir cs, USED_SPACE_FILENAME)"
    and "distinct (map fst (disk w))"
  shows "distinct (map fst (disk w'))"
    and "unat (local_used w' (cs_id cs)) = unat (local_used w (cs_id cs)) + unat n"
    and "fs_sum (chunk_file cs) (disk w') = fs_sum (chunk_file cs) (disk w)"
proof -
  from assms(1) obtain ls where ls: "btm_get (local_stores (space w)) (cs_id cs) = Some ls"
      "unat (local_value ls) + unat n < 2 ^ 64"
    and w': "disk w' = fs_write (local_record ls) (ser_u64 C (local_value ls + n)) (disk w)"
      "btm_get (local_stores (space w')) (cs_id cs) = Some (ls\<lparr>local_value := local_value ls + n\<rparr>)"
    by (elim increase_OkD) simp
  have rec: "local_record ls = (cs_dir cs, USED_SPACE_FILENAME)"
    using assms(2) ls by (simp add: records_def)
  show "distinct (map fst (disk w'))" using assms(3) w' by (simp add: distinct_update)
  show "unat (local_used w' (cs_id cs)) = unat (local_used w (cs_id cs)) + unat n"
    using ls w'(2) by (simp add: local_used_def unat_add_no_wrap)
  show "fs_sum (chunk_file cs) (disk w') = fs_sum (chunk_file cs) (disk w)"
    using assms(3) w'(1) rec by (simp add: fs_sum_write_other)
qed

lemma decrease_accounting:
  assumes "decrease C io (cs_id cs) n w = (Inr (), w')"
    and "records w (cs_id cs) = Some (cs_dir cs, USED_SPACE_FILENAME)"
    and "distinct (map fst (disk w))"
  shows "distinct (map fst (disk w'))"
    and "unat (local_used w' (cs_id cs)) = unat (local_used w (cs_id cs)) - unat n"
    and "fs_sum (chunk_file cs) (disk w') = fs_sum (chunk_file cs) (disk w)"
proof -
  from assms(1) obtain ls where ls: "btm_get (local_stores (space w)) (cs_id cs) = Some ls"
    and w': "disk w' = fs_write (local_record ls) (ser_u64 C (saturating_sub (local_value ls) n)) (disk w)"
      "btm_get (local_stores (space w')) (cs_id cs) = Some (ls\<lparr>local_value := saturating_sub (local_value ls) n\<rparr>)"
    by (elim decrease_OkD) simp
  have rec: "local_record ls = (cs_dir cs, USED_SPACE_FILENAME)"
    using assms(2) ls by (simp add: records_def)
  show "distinct (map fst (disk w'))" using assms(3) w' by (simp add: distinct_update)
  show "unat (local_used w' (cs_id cs)) = unat (local_used w (cs_id cs)) - unat n"
    using ls w'(2) by (simp add: local_used_def)
  show "fs_sum (chunk_file cs) (disk w') = fs_sum (chunk_file cs) (disk w)"
    using assms(3) w'(1) rec by (simp add: fs_sum_write_other)
qed

lemma do_delete_accounted:
  assumes "do_delete A io cs p w = (Inr (), w')" and "store_ok A cs w" and "accounted cs w"
    and "chunk_file cs p" and "metadata_ok io"
  shows "accounted cs w' \<and> fs_read (disk w') p = None"
proof (cases "fs_read (disk w) p")
  case None
  with assms show ?thesis by (simp add: do_delete_def)
next
  case (Some c)
  then obtain w1 where w1: "decrease (u64_code A) (decrease_io io) (cs_id cs) (of_nat (length c)) w = (Inr (), w1)"
      "w' = w1\<lparr>disk := fs_remove p (disk w1)\<rparr>"
    using assms(1,5) by (auto simp: do_delete_def split: sum.splits prod.splits if_splits)
  have rec: "records w (cs_id cs) = Some (cs_dir cs, USED_SPACE_FILENAME)"
    and d: "distinct (map fst (disk w))"
    and v: "unat (local_used w (cs_id cs)) = fs_sum (chunk_file cs) (disk w)"
    using assms(2,3) by (simp_all add: store_ok_def accounted_def)
  have le: "length c \<le> unat (local_used w (cs_id cs))"
    using fs_sum_read [of "chunk_file cs" p "disk w"] assms(4) Some v by (simp add: fs_size_def)
  then have len: "unat (of_nat (length c) :: u64) = length c"
    using unat_less_2p [of "local_used w (cs_id cs)"] by (simp add: unat_of_nat_eq)
  have read: "fs_read (disk w1) p = Some c"
    using decrease_frame(2) [OF w1(1), of p] rec assms(4) Some by (cases p) (auto simp: chunk_file_def)
  note acc = decrease_accounting [OF w1(1) rec d]
  have "local_used w' (cs_id cs) = local_used w1 (cs_id cs)" using w1(2) by (simp add: local_used_def)
  moreover have "fs_sum (chunk_file cs) (disk w') + length c = fs_sum (chunk_file cs) (disk w1)"
    using fs_sum_remove [OF acc(1), of "chunk_file cs" p] read assms(4) w1(2) by (simp add: fs_size_def)
  ultimately show ?thesis
    using acc len v le w1(2) by (simp add: accounted_def distinct_delete)
qed

lemma increase_persisted:
  "increase (u64_code A) io (cs_id cs) n w = (Inr (), w') \<Longrightarrow> store_ok A cs w \<Longrightarrow> persisted A cs w'"
  by (auto simp: persisted_def store_ok_def records_def record_path_def local_used_def elim!: increase_OkD)

lemma decrease_persisted:
  "decrease (u64_code A) io (cs_id cs) n w = (Inr (), w') \<Longrightarrow> store_ok A cs w \<Longrightarrow> persisted A cs w'"
  by (auto simp: persisted_def store_ok_def records_def record_path_def local_used_def elim!: decrease_OkD)

lemma do_delete_persisted:
  assumes "do_delete A io cs p w = (Inr (), w')" and "store_ok A cs w" and "persisted A cs w" and "chunk_file cs p"
  shows "persisted A cs w'"
  using assms decrease_persisted [of A "decrease_io io" cs _ w]
  by (auto simp: do_delete_def persisted_def chunk_file_def record_path_def local_used_def
      split: option.splits sum.splits prod.splits if_splits)

text \<open>The single operations, when no file access fails.\<close>

definition delete_fine :: delete_io where
  "delete_fine = \<lparr>metadata_ok = True, decrease_io = WriteOk, remove_ok = True\<rparr>"

definition put_fine :: put_io where
  "put_fine = \<lparr>del_io = delete_fine, increase_io = WriteOk, file_io = CreateWriteOk, undo_io = WriteOk\<rparr>"

lemma do_delete_fine_ok:
  "store_ok A cs w \<Longrightarrow> \<exists>w'. do_delete A delete_fine cs p w = (Inr (), w')"
  by (auto simp: do_delete_def delete_fine_def store_ok_def records_def decrease_okI split: option.splits)

lemma increase_fine_error:
  "increase C WriteOk sid n w = (Inl e, w') \<Longrightarrow> w' = w"
  by (auto simp: increase_def Let_def write_local_to_file_def split: option.splits if_splits)

lemma consistent_frame:
  assumes "consistent A cs w" and "api_ok A"
    and "\<And>q. q \<noteq> p \<Longrightarrow> chunk_file cs q \<Longrightarrow> fs_read (disk w') q = fs_read (disk w) q"
    and "fs_read (disk w') p = None \<or>
      (\<exists>c b. fs_read (disk w') p = Some b \<and> deserialise A b = Some c \<and> file_path A cs (chunk_id A c) = Inr p)"
  shows "consistent A cs w'"
  unfolding consistent_def
proof (intro allI impI)
  fix q b
  assume q: "chunk_file cs q" and b: "fs_read (disk w') q = Some b"
  show "\<exists>chunk. deserialise A b = Some chunk \<and> file_path A cs (chunk_id A chunk) = Inr q"
  proof (cases "q = p")
    case True
    with assms(4) b show ?thesis by auto
  next
    case False
    with assms(3) q b have "fs_read (disk w) q = Some b" by simp
    with assms(1) q show ?thesis by (rule consistentD)
  qed
qed

lemma do_delete_sound:
  assumes "do_delete A delete_fine cs p w = (Inr (), w')" and "sound_store A cs w"
    and p: "file_path A cs i = Inr p"
  shows "sound_store A cs w' \<and> fs_read (disk w') p = None"
proof -
  have ok: "store_ok A cs w" "accounted cs w" "consistent A cs w" "api_ok A" "persisted A cs w"
    using assms(2) by (simp_all add: sound_store_def store_ok_def)
  have acc: "accounted cs w' \<and> fs_read (disk w') p = None"
    using do_delete_accounted [OF assms(1) ok(1,2) chunk_file_path [OF ok(4) p]] by (simp add: delete_fine_def)
  have "consistent A cs w'"
  proof (rule consistent_frame [OF ok(3,4), where p = p])
    fix q
    assume "q \<noteq> p" "chunk_file cs q"
    then show "fs_read (disk w') q = fs_read (disk w) q"
      by (intro do_delete_frame(2) [OF assms(1) ok(1)]) (auto simp: chunk_file_def)
  qed (simp add: acc)
  with acc do_delete_frame(1) [OF assms(1) ok(1)]
    do_delete_persisted [OF assms(1) ok(1,5) chunk_file_path [OF ok(4) p]]
  show ?thesis by (simp add: sound_store_def)
qed

lemma delete_fine_sound:
  assumes "delete A delete_fine cs i w = (r, w')" and "sound_store A cs w"
  shows "sound_store A cs w'"
proof (cases "file_path A cs i")
  case (Inl e)
  with assms show ?thesis by (simp add: delete_def)
next
  case (Inr p)
  with assms do_delete_fine_ok [of A cs w p] have "do_delete A delete_fine cs p w = (Inr (), w')"
    by (auto simp: delete_def sound_store_def)
  from do_delete_sound [OF this assms(2) Inr] show ?thesis by simp
qed

lemma put_fine_sound:
  assumes put: "put A put_fine cs c w = (r, w')" and snd: "sound_store A cs w"
  shows "sound_store A cs w'"
  using put
proof (cases rule: put_cases)
  case unserialisable
  with snd show ?thesis by simp
next
  case (delete_failed b p e)
  with do_delete_fine_ok [of A cs w p] snd show ?thesis by (auto simp: put_fine_def sound_store_def)
next
  case (no_space b p w1 e)
  with do_delete_sound [of A cs p w w1] snd increase_fine_error show ?thesis
    by (fastforce simp: put_fine_def)
next
  case (written b p w1 w2)
  have d: "sound_store A cs w1 \<and> fs_read (disk w1) p = None"
    using do_delete_sound [of A cs p w w1] snd written(2,3) by (auto simp: put_fine_def)
  then have ok: "accounted cs w1" "consistent A cs w1" "api_ok A"
      "records w1 (cs_id cs) = Some (cs_dir cs, USED_SPACE_FILENAME)"
    by (simp_all add: sound_store_def store_ok_def)
  have bound: "deserialise A b = Some c" "unat (of_nat (length b) :: u64) = length b"
    using ok(3) written(1) by (auto simp: api_ok_def unat_of_nat_eq)
  have pf: "chunk_file cs p" by (rule chunk_file_path [OF ok(3) written(2)])
  have dist: "distinct (map fst (disk w1))" using ok(1) by (simp add: accounted_def)
  note acc = increase_accounting [OF written(4) ok(4) dist]
  have fr: "chunk_file cs q \<Longrightarrow> fs_read (disk w2) q = fs_read (disk w1) q" for q
    using increase_frame(2) [OF written(4), of q] ok(4) by (cases q) (auto simp: chunk_file_def)
  have "fs_sum (chunk_file cs) (disk w') = fs_sum (chunk_file cs) (disk w2) + length b"
    using fs_sum_write [OF acc(1), of "chunk_file cs" p b] fr [OF pf] d pf written(5) by (simp add: fs_size_def)
  moreover have "local_used w' (cs_id cs) = local_used w2 (cs_id cs)" "distinct (map fst (disk w'))"
    using written(5) acc(1) by (simp_all add: local_used_def distinct_update)
  ultimately have "accounted cs w'"
    using acc ok(1) bound(2) by (simp add: accounted_def)
  moreover have "consistent A cs w'"
    by (rule consistent_frame [OF ok(2,3), where p = p])
      (use written bound(1) fr in auto)
  moreover have "persisted A cs w'"
    using increase_persisted [OF written(4)] d pf written(5)
    by (auto simp: sound_store_def persisted_def record_path_def chunk_file_def local_used_def)
  ultimately show ?thesis
    using put_store_ok [OF put] snd by (simp add: sound_store_def)
next
  case (write_failed b p w1 w2 d r' e)
  then show ?thesis by (simp add: put_fine_def)
qed

lemma exec_kv_state: "\<exists>r w1. exec_kv s_put s_delete q (A, cs, w) = (r, (A, cs, w1))"
proof (cases q)
  case (KvPut io c)
  then show ?thesis by (cases "put A io cs c w") (simp add: s_put_def)
next
  case (KvDelete io i)
  then show ?thesis by (cases "delete A io cs i w") (simp add: s_delete_def)
qed

text \<open>Requests in the order the store receives them, and the state they leave.\<close>

fun fault_free :: "(put_io, delete_io, 'c, 'i) kv_op \<Rightarrow> bool" where
  "fault_free (KvPut io c) \<longleftrightarrow> io = put_fine"
| "fault_free (KvDelete io i) \<longleftrightarrow> io = delete_fine"

lemma run_kv_sound:
  assumes "run_kv s_put s_delete qs (A, cs, w) = (rs, (A', cs', w'))" and "sound_store A cs w"
    and "\<forall>q \<in> set qs. fault_free q"
  shows "sound_store A cs w'"
  using assms
proof (induction qs arbitrary: w rs)
  case (Cons q qs)
  obtain r w1 where q: "exec_kv s_put s_delete q (A, cs, w) = (r, (A, cs, w1))"
    using exec_kv_state by blast
  have "sound_store A cs w1"
    using q Cons.prems(2,3)
    by (cases q) (auto simp: s_put_def s_delete_def split: prod.splits intro: put_fine_sound delete_fine_sound)
  with Cons.IH [of w1] Cons.prems q show ?case by (auto split: prod.splits)
qed auto

text \<open>Under the invariant the three ways to ask for a chunk agree.\<close>

lemma sound_get_has:
  assumes "sound_store A cs w"
  shows "(\<exists>c. get A ReadOk cs i w = Inr c) \<longleftrightarrow> has A True cs i w"
proof (cases "file_path A cs i")
  case (Inl e)
  then show ?thesis by (simp add: get_def has_def)
next
  case (Inr p)
  have A: "api_ok A" and con: "consistent A cs w"
    using assms by (simp_all add: sound_store_def store_ok_def)
  show ?thesis
  proof (cases "fs_read (disk w) p")
    case None
    with Inr show ?thesis by (simp add: get_def has_def)
  next
    case (Some b)
    with consistentD [OF con chunk_file_path [OF A Inr]] obtain c where
        c: "deserialise A b = Some c" "file_path A cs (chunk_id A c) = Inr p"
      by blast
    with file_path_inject [OF A c(2) Inr] Inr Some show ?thesis by (simp add: get_def has_def)
  qed
qed

lemma in_keys_iff:
  "i \<in> set (keys A True cs w) \<longleftrightarrow>
    (\<exists>s. (cs_dir cs, s) \<in> fst ` set (disk w) \<and> to_chunk_id A s = Some i)"
  by (force simp: keys_def map_filter_def)

lemma sound_keys_has:
  assumes "sound_store A cs w"
  shows "i \<in> set (keys A True cs w) \<longleftrightarrow> has A True cs i w"
proof -
  have A: "api_ok A" and con: "consistent A cs w"
    using assms by (simp_all add: sound_store_def store_ok_def)
  have "has A True cs i w" if s: "(cs_dir cs, s) \<in> fst ` set (disk w)" "to_chunk_id A s = Some i" for s
  proof -
    obtain b where b: "fs_read (disk w) (cs_dir cs, s) = Some b"
      using s(1) by (metis map_of_eq_None_iff not_None_eq)
    have "s \<noteq> USED_SPACE_FILENAME"
      using s(2) A by (auto simp: to_chunk_id_def api_ok_def is_hex_digit_def USED_SPACE_FILENAME_def split: option.splits)
    with consistentD [OF con _ b] obtain c where c: "file_path A cs (chunk_id A c) = Inr (cs_dir cs, s)"
      by (auto simp: chunk_file_def)
    with to_chunk_id_file_path [OF A c] s(2) b show ?thesis by (simp add: has_def)
  qed
  moreover have "\<exists>s. (cs_dir cs, s) \<in> fst ` set (disk w) \<and> to_chunk_id A s = Some i" if "has A True cs i w"
  proof -
    from that obtain p where p: "file_path A cs i = Inr p" "fs_read (disk w) p \<noteq> None"
      by (auto simp: has_def split: sum.splits)
    then have "p \<in> fst ` set (disk w)" by (simp add: map_of_eq_None_iff)
    with to_chunk_id_file_path [OF A, of cs i "fst p" "snd p"] p(1) show ?thesis
      by (metis prod.collapse)
  qed
  ultimately show ?thesis by (auto simp: in_keys_iff)
qed

section \<open>Opening a store\<close>

definition probe_path :: "dir \<Rightarrow> path" where
  "probe_path dir = (dir, replicate MAX_CHUNK_FILE_NAME_LENGTH CHR ''0'')"

lemma probe_not_record: "probe_path dir \<noteq> record_path dir"
proof
  assume "probe_path dir = record_path dir"
  then have "length (snd (probe_path dir)) = length (snd (record_path dir))" by simp
  then show False
    by (simp add: probe_path_def record_path_def MAX_CHUNK_FILE_NAME_LENGTH_def USED_SPACE_FILENAME_def)
qed

lemma create_new_root_frame:
  assumes "create_new_root io dir d = (r, d')"
  shows "q \<noteq> probe_path dir \<Longrightarrow> fs_read d' q = fs_read d q"
    and "distinct (map fst d) \<Longrightarrow> distinct (map fst d')"
    and "r = Inr () \<Longrightarrow> distinct (map fst d) \<Longrightarrow> fs_read d (probe_path dir) = None \<Longrightarrow>
      fs_sum P d' = fs_sum P d \<and> fs_read d' (probe_path dir) = None"
proof -
  show "fs_read d' q = fs_read d q" if "q \<noteq> probe_path dir"
    using assms that by (auto simp: create_new_root_def Let_def probe_path_def split: if_splits)
  show "distinct (map fst d')" if "distinct (map fst d)"
    using assms that
    by (auto simp: create_new_root_def Let_def distinct_update distinct_delete split: if_splits)
  show "fs_sum P d' = fs_sum P d \<and> fs_read d' (probe_path dir) = None"
    if r: "r = Inr ()" and dist: "distinct (map fst d)" and none: "fs_read d (probe_path dir) = None"
  proof -
    have d': "d' = fs_remove (probe_path dir) (fs_write (probe_path dir) [] d)"
      using assms r by (auto simp: create_new_root_def Let_def probe_path_def split: if_splits)
    show ?thesis
      using fs_sum_write [OF dist, of P "probe_path dir" "[]"] none
        fs_sum_remove [OF distinct_update [OF dist], of P "probe_path dir" "probe_path dir" "[]"]
      by (simp add: d' fs_size_def split: if_splits)
  qed
qed

lemma fs_sum_zero: "(\<And>p. P p \<Longrightarrow> fs_read d p = None) \<Longrightarrow> fs_sum P d = 0"
proof (induction d)
  case (Cons e d)
  obtain p c where e: "e = (p, c)" by (cases e)
  have np: "\<not> P p" using Cons.prems [of p] by (auto simp: e)
  have "fs_read d q = None" if "P q" for q
    using Cons.prems [OF that] by (simp add: e split: if_splits)
  with Cons.IH np show ?case by (simp add: e)
qed simp

text \<open>
  Registering the directory keeps every file but the record, and the record of a directory that
  already has one.
\<close>

lemma add_local_store_disk:
  assumes "add_local_store C io dir w = (Inr sid, w')" and "codec_ok C"
  shows "q \<noteq> record_path dir \<Longrightarrow> fs_read (disk w') q = fs_read (disk w) q"
    and "distinct (map fst (disk w)) \<Longrightarrow> distinct (map fst (disk w'))"
    and "distinct (map fst (disk w)) \<Longrightarrow> \<not> P (record_path dir) \<Longrightarrow> fs_sum P (disk w') = fs_sum P (disk w)"
    and "fs_read (disk w) (record_path dir) = None \<Longrightarrow> local_used w' sid = 0 \<and>
      fs_read (disk w') (record_path dir) = Some (ser_u64 C 0)"
    and "fs_read (disk w) (record_path dir) = Some (ser_u64 C v) \<Longrightarrow> read_err io = None \<Longrightarrow>
      local_used w' sid = v \<and> fs_read (disk w') (record_path dir) = Some (ser_u64 C v)"
    and "records w' sid = Some (record_path dir)"
proof -
  obtain c where d': "disk w' = fs_write (record_path dir) c (disk w)"
    using assms(1)
    by (auto simp: add_local_store_def Let_def record_path_def register_store_def
        split: option.splits if_splits)
  show "q \<noteq> record_path dir \<Longrightarrow> fs_read (disk w') q = fs_read (disk w) q"
    and "distinct (map fst (disk w)) \<Longrightarrow> distinct (map fst (disk w'))"
    and "distinct (map fst (disk w)) \<Longrightarrow> \<not> P (record_path dir) \<Longrightarrow> fs_sum P (disk w') = fs_sum P (disk w)"
    by (simp_all add: d' distinct_update fs_sum_write_other)
  show "fs_read (disk w) (record_path dir) = None \<Longrightarrow> local_used w' sid = 0 \<and>
      fs_read (disk w') (record_path dir) = Some (ser_u64 C 0)"
    using assms(1)
    by (auto simp: add_local_store_def Let_def record_path_def register_store_def local_used_def write_at_def
        split: option.splits if_splits)
  show "fs_read (disk w) (record_path dir) = Some (ser_u64 C v) \<Longrightarrow> read_err io = None \<Longrightarrow>
      local_used w' sid = v \<and> fs_read (disk w') (record_path dir) = Some (ser_u64 C v)"
    using assms
    by (auto simp: add_local_store_def Let_def record_path_def register_store_def local_used_def codec_ok_def
        split: option.splits if_splits)
  show "records w' sid = Some (record_path dir)"
    using add_local_store_OkD [OF assms(1)] by (auto simp: records_def register_store_def record_path_def)
qed

text \<open>A successful \<^const>\<open>new\<close>, as the two steps it consists of.\<close>

lemma new_OkD:
  assumes "new A kind rio aio root w = (Inr cs, w')"
  obtains d where "cs_dir cs = root @ [CHUNK_STORE_DIR, subdir kind]"
    and "d = disk w \<or> create_new_root rio (cs_dir cs) (disk w) = (Inr (), d)"
    and "add_local_store (u64_code A) aio (cs_dir cs) (w\<lparr>disk := d\<rparr>) = (Inr (cs_id cs), w')"
proof (cases "fs_read (disk w) (root @ [CHUNK_STORE_DIR], subdir kind) = None")
  case True
  with assms obtain d sid where
      "create_new_root rio (root @ [CHUNK_STORE_DIR, subdir kind]) (disk w) = (Inr (), d)"
      "add_local_store (u64_code A) aio (root @ [CHUNK_STORE_DIR, subdir kind]) (w\<lparr>disk := d\<rparr>) = (Inr sid, w')"
      "cs = \<lparr>cs_dir = root @ [CHUNK_STORE_DIR, subdir kind], cs_id = sid\<rparr>"
    by (auto simp: new_def Let_def split: prod.splits sum.splits)
  then show ?thesis by (intro that [of d]) simp_all
next
  case False
  with assms show ?thesis
    by (intro that [of "disk w"]) (auto simp: new_def Let_def split: prod.splits sum.splits)
qed

lemma new_frame:
  assumes new: "new A kind rio aio root w = (Inr cs, w')" and C: "codec_ok (u64_code A)"
    and dist: "distinct (map fst (disk w))" and probe: "fs_read (disk w) (probe_path (cs_dir cs)) = None"
  shows "cs_dir cs = root @ [CHUNK_STORE_DIR, subdir kind]"
    and "q \<noteq> record_path (cs_dir cs) \<Longrightarrow> fs_read (disk w') q = fs_read (disk w) q"
    and "distinct (map fst (disk w'))"
    and "\<not> P (record_path (cs_dir cs)) \<Longrightarrow> fs_sum P (disk w') = fs_sum P (disk w)"
    and "fs_read (disk w) (record_path (cs_dir cs)) = None \<Longrightarrow> local_used w' (cs_id cs) = 0 \<and>
      fs_read (disk w') (record_path (cs_dir cs)) = Some (ser_u64 (u64_code A) 0)"
    and "fs_read (disk w) (record_path (cs_dir cs)) = Some (ser_u64 (u64_code A) v) \<Longrightarrow> read_err aio = None \<Longrightarrow>
      local_used w' (cs_id cs) = v \<and>
      fs_read (disk w') (record_path (cs_dir cs)) = Some (ser_u64 (u64_code A) v)"
    and "records w' (cs_id cs) = Some (record_path (cs_dir cs))"
    and "space_wf (space w) \<Longrightarrow> space_wf (space w')"
proof -
  obtain d where dir: "cs_dir cs = root @ [CHUNK_STORE_DIR, subdir kind]"
    and d: "d = disk w \<or> create_new_root rio (cs_dir cs) (disk w) = (Inr (), d)"
    and add: "add_local_store (u64_code A) aio (cs_dir cs) (w\<lparr>disk := d\<rparr>) = (Inr (cs_id cs), w')"
    using new by (rule new_OkD)
  have read: "fs_read d q = fs_read (disk w) q" for q
    using d create_new_root_frame(1) [of rio "cs_dir cs" "disk w" "Inr ()" d q]
      create_new_root_frame(3) [of rio "cs_dir cs" "disk w" "Inr ()" d] dist probe
    by (cases "q = probe_path (cs_dir cs)") auto
  have dd: "distinct (map fst d)" and sum: "fs_sum P d = fs_sum P (disk w)" for P
    using d create_new_root_frame(2,3) [of rio "cs_dir cs" "disk w" "Inr ()" d] dist probe by auto
  note st = add_local_store_disk [OF add C]
  show "cs_dir cs = root @ [CHUNK_STORE_DIR, subdir kind]" by (rule dir)
  show "q \<noteq> record_path (cs_dir cs) \<Longrightarrow> fs_read (disk w') q = fs_read (disk w) q"
    using st(1) [of q] by (simp add: read)
  show "distinct (map fst (disk w'))" using st(2) dd by simp
  show "\<not> P (record_path (cs_dir cs)) \<Longrightarrow> fs_sum P (disk w') = fs_sum P (disk w)"
    using st(3) [of P] dd by (simp add: sum)
  show "fs_read (disk w) (record_path (cs_dir cs)) = None \<Longrightarrow> local_used w' (cs_id cs) = 0 \<and>
      fs_read (disk w') (record_path (cs_dir cs)) = Some (ser_u64 (u64_code A) 0)"
    using st(4) by (simp add: read)
  show "fs_read (disk w) (record_path (cs_dir cs)) = Some (ser_u64 (u64_code A) v) \<Longrightarrow> read_err aio = None \<Longrightarrow>
      local_used w' (cs_id cs) = v \<and>
      fs_read (disk w') (record_path (cs_dir cs)) = Some (ser_u64 (u64_code A) v)"
    using st(5) [of v] by (simp add: read)
  show "records w' (cs_id cs) = Some (record_path (cs_dir cs))" by (rule st(6))
  show "space_wf (space w) \<Longrightarrow> space_wf (space w')" using add_local_store_wf [OF add] by simp
qed

lemma new_fresh_sound:
  assumes new: "new A kind rio aio root w = (Inr cs, w')" and A: "api_ok A"
    and wf: "space_wf (space w)" and dist: "distinct (map fst (disk w))"
    and fresh: "\<And>f. fs_read (disk w) (root @ [CHUNK_STORE_DIR, subdir kind], f) = None"
  shows "sound_store A cs w'"
proof -
  have C: "codec_ok (u64_code A)" using A by (simp add: api_ok_def)
  have dir: "cs_dir cs = root @ [CHUNK_STORE_DIR, subdir kind]" using new by (rule new_OkD)
  have fresh': "fs_read (disk w) p = None" if "fst p = cs_dir cs" for p
    using fresh [of "snd p"] that dir by (metis prod.collapse)
  note st = new_frame [OF new C dist fresh']
  have "fs_sum (chunk_file cs) (disk w') = 0"
    using st(4) [of "chunk_file cs"] fs_sum_zero [of "chunk_file cs" "disk w"] fresh'
    by (auto simp: probe_path_def record_path_def chunk_file_def)
  moreover have "local_used w' (cs_id cs) = 0 \<and>
      fs_read (disk w') (record_path (cs_dir cs)) = Some (ser_u64 (u64_code A) 0)"
    by (rule st(5)) (simp_all add: fresh' probe_path_def record_path_def)
  moreover have "consistent A cs w'"
    unfolding consistent_def
    using st(2) fresh' by (fastforce simp: chunk_file_def probe_path_def record_path_def)
  ultimately show ?thesis
    using st(3,7,8) A wf
    by (simp add: sound_store_def store_ok_def accounted_def persisted_def probe_path_def) (simp add: record_path_def)
qed

end
