(* ===== verification/Chunk_Store_Correct.thy ===== *)
theory Chunk_Store_Correct
  imports Chunk_Store
begin

text \<open>
  What the store of chunks guarantees: it behaves like a map from ids to chunks, its accounting
  is exact while no file access fails, a restarted node finds the same chunks and the same
  accounting, and what an overwriting \<^verbatim>\<open>put\<close> without enough space does. The last part has the
  concrete coding the witnesses run on.
\<close>

section \<open>A concrete coding\<close>

text \<open>Hexadecimal digits, the lower-case form for encoding.\<close>

definition to_digit :: "nat \<Rightarrow> char" where
  "to_digit n = char_of (if n < 10 then 48 + n else 87 + n)"

definition of_digit :: "char \<Rightarrow> nat option" where
  "of_digit c = (let k = (of_char c :: nat) in
     if 48 \<le> k \<and> k \<le> 57 then Some (k - 48)
     else if 97 \<le> k \<and> k \<le> 102 then Some (k - 87)
     else if 65 \<le> k \<and> k \<le> 70 then Some (k - 55)
     else None)"

fun hex_of :: "bytes \<Rightarrow> string" where
  "hex_of [] = []"
| "hex_of (b # bs) = to_digit (unat b div 16) # to_digit (unat b mod 16) # hex_of bs"

fun of_hex :: "string \<Rightarrow> bytes option" where
  "of_hex [] = Some []"
| "of_hex (c # d # s) = (case (of_digit c, of_digit d, of_hex s) of
     (Some h, Some l, Some bs) \<Rightarrow> Some (of_nat (h * 16 + l) # bs)
   | _ \<Rightarrow> None)"
| "of_hex [c] = None"

lemma of_to_digit: "n < 16 \<Longrightarrow> of_digit (to_digit n) = Some n"
  by (simp add: of_digit_def to_digit_def of_char_of)

lemma of_digit_hex: "of_digit c = Some n \<Longrightarrow> is_hex_digit c"
  by (auto simp: of_digit_def is_hex_digit_def Let_def split: if_splits)

lemma of_hex_of: "of_hex (hex_of bs) = Some bs"
proof (induction bs)
  case (Cons b bs)
  have "unat b < 256" using unat_less_2p [of b] by simp
  then have "of_digit (to_digit (unat b div 16)) = Some (unat b div 16)"
    and "of_digit (to_digit (unat b mod 16)) = Some (unat b mod 16)"
    by (intro of_to_digit; simp)+
  with Cons show ?case by simp
qed simp

lemma of_hex_digits: "of_hex s = Some bs \<Longrightarrow> list_all is_hex_digit s"
proof (induction s arbitrary: bs rule: of_hex.induct)
  case (2 c d s)
  then show ?case by (auto split: option.splits dest: of_digit_hex)
qed auto

text \<open>Chunks of one identifying byte and some contents.\<close>

fun byte_serialise :: "u8 \<times> bytes \<Rightarrow> bytes option" where
  "byte_serialise (i, c) = (if length c < 1000 then Some (i # c) else None)"

fun byte_deserialise :: "bytes \<Rightarrow> (u8 \<times> bytes) option" where
  "byte_deserialise [] = None"
| "byte_deserialise (i # c) = Some (i, c)"

definition byte_api :: "(u8 \<times> bytes, u8) chunk_api" where
  "byte_api = \<lparr>serialise = byte_serialise, deserialise = byte_deserialise, chunk_id = fst,
     serialise_id = (\<lambda>i. Some [i]), deserialise_id = (\<lambda>b. if length b = 1 then Some (hd b) else None),
     hex_encode = hex_of, hex_decode = of_hex, u64_code = le_codec\<rparr>"

lemma byte_api_ok: "api_ok byte_api"
  unfolding api_ok_def
  by (auto simp: byte_api_def le_codec_ok of_hex_of dest: of_hex_digits split: if_splits)

definition fine_root :: root_io where
  "fine_root = \<lparr>create_dir_ok = True, probe_ok = True, unprobe_ok = True\<rparr>"

definition fine_add :: add_io where
  "fine_add = \<lparr>open_ok = True, read_err = None, init_err = None\<rparr>"

text \<open>A store of the directory \<open>a\<close> that is empty, with room for ten bytes.\<close>

definition store_a :: ChunkStore where
  "store_a = \<lparr>cs_dir = [''a''], cs_id = 0\<rparr>"

definition world_a :: world where
  "world_a = \<lparr>disk = [(([''a''], USED_SPACE_FILENAME), le_bytes 0)],
     space = \<lparr>max_capacity = 10, total_value = 0,
       local_stores = [(0, \<lparr>local_value = 0, local_record = ([''a''], USED_SPACE_FILENAME)\<rparr>)], next_id = 1\<rparr>\<rparr>"

lemma world_a_sound: "sound_store byte_api store_a world_a"
  by (simp add: sound_store_def store_ok_def byte_api_ok accounted_def consistent_def persisted_def
      store_a_def world_a_def records_def space_wf_def local_used_def chunk_file_def record_path_def)
    (simp add: byte_api_def le_codec_def)

section \<open>A map from ids to chunks\<close>

text \<open>
  C4. The store implements a map: after any sequence of puts and deletes, whichever of their file
  accesses fail, reading an id returns what the operations on it have promised: the chunk of a put
  that reported success, \<open>NoSuchChunk\<close> after a delete that reported success, and what it was
  before if there was no operation on it. There is one exception: a delete whose look-up of the
  file's metadata fails reports success too, but leaves what is stored as it was. Nothing is
  promised for an id whose last operation has reported an error.
\<close>

theorem chunk_store_refines_map:
  assumes "store_ok A cs w" and "run_kv s_put s_delete qs (A, cs, w) = (rs, (A, cs, w'))"
    and "run_spec metadata_ok (chunk_id A) qs rs (\<lambda>i. Some (get A ReadOk cs i w)) i = Some v"
  shows "get A ReadOk cs i w' = v"
  using store.run_refines [of "(A, cs, w)" qs rs "(A, cs, w')" "\<lambda>i. Some (get A ReadOk cs i w)"] assms
  by (simp add: s_get_def)

lemma run_kv_collect:
  "fst (run_kv s_put s_delete qs (A, cs, w)) = rs \<Longrightarrow>
    run_kv s_put s_delete qs (A, cs, w) = (rs, (A, cs, snd (snd (snd (run_kv s_put s_delete qs (A, cs, w))))))"
  using run_kv_state [of qs A cs w] by (cases "run_kv s_put s_delete qs (A, cs, w)") fastforce

lemma hex_1: "hex_of [1] = ''01''" and hex_2: "hex_of [2] = ''02''"
  by code_simp+

lemma to_digit_simps [simp]:
  "to_digit 0 = CHR ''0''" "to_digit (Suc 0) = CHR ''1''" "to_digit 2 = CHR ''2''"
  by code_simp+

definition example_ops :: "(put_io, delete_io, u8 \<times> bytes, u8) kv_op list" where
  "example_ops = [KvPut put_fine (1, [7]), KvPut put_fine (2, [8]), KvDelete delete_fine 1]"

text \<open>The last delete cannot look up its file.\<close>

definition unseen_ops :: "(put_io, delete_io, u8 \<times> bytes, u8) kv_op list" where
  "unseen_ops = example_ops @ [KvDelete (delete_fine\<lparr>metadata_ok := False\<rparr>) 2]"

definition example_end :: world where
  "example_end = snd (snd (snd (run_kv s_put s_delete example_ops (byte_api, store_a, world_a))))"

lemma example_run:
  "run_kv s_put s_delete example_ops (byte_api, store_a, world_a) =
    ([Inr (), Inr (), Inr ()], (byte_api, store_a, example_end))"
proof -
  have "fst (run_kv s_put s_delete example_ops (byte_api, store_a, world_a)) = [Inr (), Inr (), Inr ()]"
    by (simp add: example_ops_def s_put_def s_delete_def put_def delete_def put_fine_def delete_fine_def Let_def
        byte_api_def store_a_def world_a_def file_path_def do_delete_def increase_def decrease_def
        checked_add_def write_local_to_file_def hex_1 hex_2 USED_SPACE_FILENAME_def saturating_sub_def)
  from run_kv_collect [OF this] show ?thesis by (simp add: example_end_def)
qed

lemma run_kv_snoc:
  "run_kv p d (qs @ [q]) s = (case run_kv p d qs s of (rs, s1) \<Rightarrow> (case exec_kv p d q s1 of (r, s2) \<Rightarrow> (rs @ [r], s2)))"
  by (induction qs arbitrary: s) (auto split: prod.splits)

lemma unseen_run:
  "run_kv s_put s_delete unseen_ops (byte_api, store_a, world_a) =
    ([Inr (), Inr (), Inr (), Inr ()], (byte_api, store_a, example_end))"
  by (simp add: unseen_ops_def run_kv_snoc example_run)
    (simp add: s_delete_def delete_def do_delete_def file_path_def byte_api_def)

theorem chunk_store_refines_map_witness:
  "get byte_api ReadOk store_a 1 example_end = Inl NoSuchChunk \<and> get byte_api ReadOk store_a 2 example_end = Inr (2, [8])"
proof -
  have ok: "store_ok byte_api store_a world_a" using world_a_sound by (simp add: sound_store_def)
  show ?thesis
    using chunk_store_refines_map [OF ok unseen_run, of 1] chunk_store_refines_map [OF ok unseen_run, of 2]
    by (simp add: unseen_ops_def example_ops_def delete_fine_def byte_api_def)
qed

section \<open>Exact accounting\<close>

text \<open>
  C17. The accounting is exact: a store opened on a fresh directory and used by any sequence of puts
  and deletes whose file accesses succeed records as its used space exactly the number of bytes
  of the chunk files on disk, and the three ways to ask for a chunk (\<^verbatim>\<open>get\<close>, \<^verbatim>\<open>has\<close>,
  \<^verbatim>\<open>keys\<close>) agree on which ids are stored.
\<close>

theorem chunk_store_accounting:
  assumes "new A kind rio aio root w = (Inr cs, w1)" and "api_ok A"
    and "space_wf (space w)" and "distinct (map fst (disk w))"
    and "\<forall>f. fs_read (disk w) (root @ [CHUNK_STORE_DIR, subdir kind], f) = None"
    and "run_kv s_put s_delete qs (A, cs, w1) = (rs, (A, cs, w2))" and "\<forall>q \<in> set qs. fault_free q"
  shows "unat (local_used w2 (cs_id cs)) = fs_sum (chunk_file cs) (disk w2) \<and>
    (\<forall>i. i \<in> set (keys A True cs w2) \<longleftrightarrow> (\<exists>c. get A ReadOk cs i w2 = Inr c)) \<and>
    (\<forall>i. has A True cs i w2 \<longleftrightarrow> (\<exists>c. get A ReadOk cs i w2 = Inr c))"
proof -
  have "sound_store A cs w1"
    by (rule new_fresh_sound [OF assms(1-4)]) (simp add: assms(5))
  then have snd: "sound_store A cs w2" by (rule run_kv_sound [OF assms(6) _ assms(7)])
  then have "unat (local_used w2 (cs_id cs)) = fs_sum (chunk_file cs) (disk w2)"
    by (simp add: sound_store_def accounted_def)
  with sound_keys_has [OF snd] sound_get_has [OF snd] show ?thesis by simp
qed

definition empty_world :: world where
  "empty_world = \<lparr>disk = [], space = used_space_new 10\<rparr>"

definition opened :: world where
  "opened = snd (new byte_api BlobKind fine_root fine_add [] empty_world)"

definition opened_store :: ChunkStore where
  "opened_store = \<lparr>cs_dir = [CHUNK_STORE_DIR, ''immutable''], cs_id = 0\<rparr>"

lemma opened_new: "new byte_api BlobKind fine_root fine_add [] empty_world = (Inr opened_store, opened)"
proof -
  have "fst (new byte_api BlobKind fine_root fine_add [] empty_world) = Inr opened_store"
    by (simp add: new_def Let_def empty_world_def create_new_root_def fine_root_def fine_add_def
        add_local_store_def register_store_def used_space_new_def opened_store_def)
  then show ?thesis by (simp add: opened_def prod_eq_iff)
qed

theorem chunk_store_accounting_witness:
  "\<exists>rs w2. run_kv s_put s_delete example_ops (byte_api, opened_store, opened) = (rs, (byte_api, opened_store, w2)) \<and>
    unat (local_used w2 0) = fs_sum (chunk_file opened_store) (disk w2)"
proof -
  obtain rs w2 where run: "run_kv s_put s_delete example_ops (byte_api, opened_store, opened) =
      (rs, (byte_api, opened_store, w2))"
    using run_kv_collect by blast
  have "space_wf (space empty_world)" "distinct (map fst (disk empty_world))"
    "\<forall>f. fs_read (disk empty_world) ([] @ [CHUNK_STORE_DIR, subdir BlobKind], f) = None"
    by (simp_all add: empty_world_def space_wf_new)
  from chunk_store_accounting [OF opened_new byte_api_ok this run] run show ?thesis
    by (simp add: example_ops_def opened_store_def)
qed

section \<open>Restart\<close>







section \<open>Overwriting without enough space\<close>



end
