(* ===== verification/Chunk_Storage.thy ===== *)
theory Chunk_Storage
  imports Chunk_Store_Correct Node_Ops
begin

text \<open>
  The storage of blobs on an adult (\<^verbatim>\<open>src/src/chunks/\<close>): a client of the store of chunks that
  checks ownership, refuses to overwrite, answers reads, and takes part in replication. Its
  handlers return the duty to perform next; \<open>chunk_io\<close> says how the file accesses of the
  store go.
\<close>

type_synonym blob_api = "(Blob, BlobAddress) chunk_api"

text \<open>\<^verbatim>\<open>impl Chunk for Blob\<close>: a blob is stored under its address.\<close>

fun blob_chunk_id :: "Blob \<Rightarrow> BlobAddress" where
  "blob_chunk_id (PublicBlob address v) = address"
| "blob_chunk_id (PrivateBlob address v k) = address"

lemma blob_chunk_id_address [simp]: "blob_chunk_id = blob_address"
proof
  show "blob_chunk_id b = blob_address b" for b by (cases b) auto
qed

record ChunkStorage =
  node_name :: XorName
  chunks :: ChunkStore

record chunk_io =
  c_put :: put_io
  c_delete :: delete_io
  c_read :: read_io
  c_meta :: bool

definition io_fine :: chunk_io where
  "io_fine = \<lparr>c_put = put_fine, c_delete = delete_fine, c_read = ReadOk, c_meta = True\<rparr>"

section \<open>Handlers\<close>

definition chunk_storage_new :: "blob_api \<Rightarrow> root_io \<Rightarrow> add_io \<Rightarrow> XorName \<Rightarrow> dir \<Rightarrow> world \<Rightarrow>
    ChunkStorage result \<times> world" where
  "chunk_storage_new A rio aio name path w = (case new A BlobKind rio aio path w of
     (Inl e, w') \<Rightarrow> (Inl e, w')
   | (Inr cs, w') \<Rightarrow> (Inr \<lparr>node_name = name, chunks = cs\<rparr>, w'))"

definition try_store :: "blob_api \<Rightarrow> chunk_io \<Rightarrow> ChunkStorage \<Rightarrow> Blob \<Rightarrow> EndUser \<Rightarrow> world \<Rightarrow>
    unit result \<times> world" where
  "try_store A io st data origin w =
     (case (if blob_is_private data
            then (case blob_owner data of
                None \<Rightarrow> Inl (InvalidOwners (end_user_id origin))
              | Some data_owner \<Rightarrow>
                  if data_owner \<noteq> end_user_id origin then Inl (InvalidOwners (end_user_id origin)) else Inr ())
            else Inr ()) of
        Inl e \<Rightarrow> (Inl e, w)
      | Inr _ \<Rightarrow>
          if has A (c_meta io) (chunks st) (blob_address data) w then (Inl DataExists, w)
          else put A (c_put io) (chunks st) data w)"

definition store :: "externals \<Rightarrow> blob_api \<Rightarrow> chunk_io \<Rightarrow> ChunkStorage \<Rightarrow> Blob \<Rightarrow> MessageId \<Rightarrow> EndUser \<Rightarrow>
    world \<Rightarrow> NodeDuty result \<times> world" where
  "store E A io st data msg_id origin w = (case try_store A io st data origin w of
     (Inl error, w') \<Rightarrow> (case convert_to_error_message (texts E) error of
         Inl e \<Rightarrow> (Inl e, w')
       | Inr m \<Rightarrow> (Inr (cmd_error_to E (CmdErrorData m) msg_id (DstEndUser origin)), w'))
   | (Inr _, w') \<Rightarrow> (Inr NoOp, w'))"

definition chunk_get :: "externals \<Rightarrow> blob_api \<Rightarrow> chunk_io \<Rightarrow> ChunkStorage \<Rightarrow> BlobAddress \<Rightarrow> MessageId \<Rightarrow>
    EndUser \<Rightarrow> world \<Rightarrow> NodeDuty result" where
  "chunk_get E A io st address msg_id origin w = Inr (query_response_to E
     (GetBlobResponse (map_err (\<lambda>_. EmNoSuchData) (get A (c_read io) (chunks st) address w)))
     msg_id (DstEndUser origin))"

definition replicate_chunk :: "ChunkStorage \<Rightarrow> BlobAddress \<Rightarrow> XorName btree_set \<Rightarrow> MessageId \<Rightarrow> NodeDuty result" where
  "replicate_chunk st address current_holders msg_id = Inr (SendToNodes current_holders
     (NodeQueryM (NodeSystemQueryMsg (GetChunkQuery (node_name st) address [])) msg_id None))"

definition get_for_replication :: "externals \<Rightarrow> blob_api \<Rightarrow> chunk_io \<Rightarrow> ChunkStorage \<Rightarrow> BlobAddress \<Rightarrow>
    MessageId \<Rightarrow> XorName \<Rightarrow> world \<Rightarrow> NodeDuty result" where
  "get_for_replication E A io st address msg_id new_holder w = (case get A (c_read io) (chunks st) address w of
     Inl error \<Rightarrow> (case convert_to_error_message (texts E) error of
         Inl e \<Rightarrow> Inl e
       | Inr _ \<Rightarrow> Inr NoOp)
   | Inr data \<Rightarrow> Inr (Send \<lparr>
         msg = NodeQueryResponseM (GetChunkResponse (Inr data)) (in_response_to E msg_id) msg_id None,
         dst = DstNode new_holder, section_source = False, aggregation = AggregationNone\<rparr>))"

definition store_for_replication :: "blob_api \<Rightarrow> chunk_io \<Rightarrow> ChunkStorage \<Rightarrow> Blob \<Rightarrow> world \<Rightarrow>
    NodeDuty result \<times> world" where
  "store_for_replication A io st blob w =
     (if has A (c_meta io) (chunks st) (blob_address blob) w then (Inr NoOp, w)
      else (case put A (c_put io) (chunks st) blob w of
          (Inl e, w') \<Rightarrow> (Inl e, w')
        | (Inr _, w') \<Rightarrow> (Inr NoOp, w')))"

definition chunk_delete :: "externals \<Rightarrow> blob_api \<Rightarrow> chunk_io \<Rightarrow> ChunkStorage \<Rightarrow> BlobAddress \<Rightarrow> MessageId \<Rightarrow>
    EndUser \<Rightarrow> world \<Rightarrow> NodeDuty result \<times> world" where
  "chunk_delete E A io st address msg_id origin w =
     (if \<not> has A (c_meta io) (chunks st) address w then (Inr NoOp, w)
      else case (case get A (c_read io) (chunks st) address w of
           Inr (PrivateBlob a v data_owner) \<Rightarrow>
             if data_owner = end_user_id origin
             then (case delete A (c_delete io) (chunks st) address w of
                 (r, w') \<Rightarrow> (map_err (\<lambda>_. EmFailedToDelete) r, w'))
             else (Inl (EmInvalidOwners (end_user_id origin)), w)
         | Inr _ \<Rightarrow> (Inl EmInvalidOperation, w)
         | _ \<Rightarrow> (Inl EmNoSuchKey, w)) of
        (Inl error, w') \<Rightarrow> (Inr (cmd_error_to E (CmdErrorData error) msg_id (DstEndUser origin)), w')
      | (Inr _, w') \<Rightarrow> (Inr NoOp, w'))"

text \<open>\<^verbatim>\<open>chunks::reading\<close> and \<^verbatim>\<open>chunks::writing\<close>.\<close>

fun chunks_read :: "externals \<Rightarrow> blob_api \<Rightarrow> chunk_io \<Rightarrow> ChunkStorage \<Rightarrow> BlobRead \<Rightarrow> MessageId \<Rightarrow> EndUser \<Rightarrow>
    world \<Rightarrow> NodeDuty result" where
  "chunks_read E A io st (GetBlobAt address) msg_id origin w = chunk_get E A io st address msg_id origin w"

fun chunks_write :: "externals \<Rightarrow> blob_api \<Rightarrow> chunk_io \<Rightarrow> ChunkStorage \<Rightarrow> BlobWrite \<Rightarrow> MessageId \<Rightarrow> EndUser \<Rightarrow>
    world \<Rightarrow> NodeDuty result \<times> world" where
  "chunks_write E A io st (NewBlob data) msg_id origin w = store E A io st data msg_id origin w"
| "chunks_write E A io st (DeletePrivate address) msg_id origin w = chunk_delete E A io st address msg_id origin w"

section \<open>Behaviour\<close>

definition storage_ok :: "blob_api \<Rightarrow> ChunkStorage \<Rightarrow> world \<Rightarrow> bool" where
  "storage_ok A st w \<longleftrightarrow> store_ok A (chunks st) w \<and> chunk_id A = blob_chunk_id"

text \<open>Who may write a blob.\<close>

definition may_store :: "Blob \<Rightarrow> EndUser \<Rightarrow> bool" where
  "may_store data origin \<longleftrightarrow> (\<forall>owner. blob_owner data = Some owner \<longrightarrow> owner = end_user_id origin)"

lemma try_store_cases:
  "try_store A io st data origin w =
    (if \<not> may_store data origin then (Inl (InvalidOwners (end_user_id origin)), w)
     else if has A (c_meta io) (chunks st) (blob_address data) w then (Inl DataExists, w)
     else put A (c_put io) (chunks st) data w)"
  by (cases data) (auto simp: try_store_def may_store_def)

text \<open>Reading a stored blob, whatever the reader asks.\<close>

definition blob_at :: "blob_api \<Rightarrow> ChunkStorage \<Rightarrow> BlobAddress \<Rightarrow> world \<Rightarrow> Blob option" where
  "blob_at A st address w = (case get A ReadOk (chunks st) address w of Inl _ \<Rightarrow> None | Inr b \<Rightarrow> Some b)"

lemma get_imp_has: "get A ReadOk cs i w = Inr c \<Longrightarrow> has A True cs i w"
  by (auto simp: get_def has_def split: sum.splits option.splits if_splits)

lemma get_any_read: "get A io cs i w = Inr c \<Longrightarrow> get A ReadOk cs i w = Inr c"
  by (cases io) (simp_all add: get_def split: sum.splits option.splits if_splits)

text \<open>
  The effect of a write command on the blobs that can be read: a blob appears only by a
  permitted store at its own address, one disappears only by its owner's delete.
\<close>

lemma store_effect:
  assumes "chunks_write E A io st (NewBlob data) msg_id origin w = (r, w')" and "storage_ok A st w"
    and "c_meta io" and "blob_at A st a w = Some b"
  shows "blob_at A st a w' = Some b"
proof -
  have ok: "store_ok A (chunks st) w" "chunk_id A data = blob_address data"
    using assms(2) by (simp_all add: storage_ok_def)
  have has: "has A True (chunks st) a w"
    using assms(4) get_imp_has by (fastforce simp: blob_at_def split: sum.splits)
  obtain r1 where w': "try_store A io st data origin w = (r1, w')"
    using assms(1) by (auto simp: store_def split: prod.splits sum.splits)
  show ?thesis
  proof (cases "w' = w")
    case True
    with assms(4) show ?thesis by simp
  next
    case False
    with w' assms(3) have p: "put A (c_put io) (chunks st) data w = (r1, w')"
      and n: "\<not> has A True (chunks st) (blob_address data) w"
      by (auto simp: try_store_cases split: if_splits)
    with has ok(2) have "a \<noteq> chunk_id A data" by metis
    with put_get_other [OF p ok(1)] assms(4) show ?thesis by (simp add: blob_at_def)
  qed
qed

lemma delete_effect:
  assumes "chunks_write E A io st (DeletePrivate d) msg_id origin w = (r, w')" and "storage_ok A st w"
    and "blob_at A st a w = Some b" and "d = a \<Longrightarrow> blob_owner b \<noteq> Some (end_user_id origin)"
  shows "blob_at A st a w' = Some b"
proof (cases "w' = w")
  case True
  with assms(3) show ?thesis by simp
next
  case False
  note eq = assms(1) [simplified chunks_write.simps chunk_delete_def]
  have has: "has A (c_meta io) (chunks st) d w" using False eq by (simp split: if_splits)
  obtain a' v k where get: "get A (c_read io) (chunks st) d w = Inr (PrivateBlob a' v k)"
    using False eq has by (cases "get A (c_read io) (chunks st) d w") (auto split: Blob.splits)
  have k: "k = end_user_id origin" using False eq has get by (simp split: if_splits)
  note get = get [unfolded k]
  obtain r1 w1 where del: "delete A (c_delete io) (chunks st) d w = (r1, w1)" by (metis surj_pair)
  have "snd (chunk_delete E A io st d msg_id origin w) = w1"
    using has get by (simp add: chunk_delete_def del split: sum.split)
  then have "w1 = w'" using assms(1) by simp
  note del = del [unfolded this]
  have "get A ReadOk (chunks st) d w = Inr (PrivateBlob a' v (end_user_id origin))"
    using get by (rule get_any_read)
  with assms(3,4) have "a \<noteq> d" by (auto simp: blob_at_def)
  with delete_get_other [OF del] assms(2,3) show ?thesis by (simp add: blob_at_def storage_ok_def)
qed

lemma chunks_write_ok:
  "chunks_write E A io st wr msg_id origin w = (r, w') \<Longrightarrow> storage_ok A st w \<Longrightarrow> storage_ok A st w'"
  by (cases wr)
    (auto simp: storage_ok_def store_def try_store_cases chunk_delete_def
      split: if_splits sum.splits prod.splits Blob.splits dest: put_store_ok delete_store_ok)

text \<open>A sequence of write commands, each from some user, with the ways their file accesses go.\<close>

type_synonym write_request = "chunk_io \<times> BlobWrite \<times> MessageId \<times> EndUser"

fun run_writes :: "externals \<Rightarrow> blob_api \<Rightarrow> ChunkStorage \<Rightarrow> write_request list \<Rightarrow> world \<Rightarrow>
    NodeDuty result list \<times> world" where
  "run_writes E A st [] w = ([], w)"
| "run_writes E A st ((io, wr, msg_id, origin) # qs) w =
     (case chunks_write E A io st wr msg_id origin w of (r, w1) \<Rightarrow>
       (case run_writes E A st qs w1 of (rs, w2) \<Rightarrow> (r # rs, w2)))"

definition deletes_as_owner :: "Blob \<Rightarrow> BlobAddress \<Rightarrow> write_request \<Rightarrow> bool" where
  "deletes_as_owner b a q = (case q of (io, wr, msg_id, origin) \<Rightarrow>
     wr = DeletePrivate a \<and> blob_owner b = Some (end_user_id origin))"

section \<open>Properties\<close>

text \<open>
  Stored blobs are immutable and survive everyone but their owner: whatever write commands
  arrive, from whomever, a blob that can be read stays readable, unchanged, at its address,
  unless it is private and its own owner asks for its deletion.
\<close>

theorem blobs_survive_non_owners:
  assumes "storage_ok A st w" and "blob_at A st a w = Some b"
    and "run_writes E A st qs w = (rs, w')" and "\<forall>q \<in> set qs. c_meta (fst q)"
    and "\<forall>q \<in> set qs. \<not> deletes_as_owner b a q"
  shows "blob_at A st a w' = Some b"
  using assms
proof (induction qs arbitrary: w rs)
  case (Cons q qs)
  obtain io wr msg_id origin where q: "q = (io, wr, msg_id, origin)" by (cases q) auto
  obtain r w1 where w1: "chunks_write E A io st wr msg_id origin w = (r, w1)" by (metis surj_pair)
  have "blob_at A st a w1 = Some b"
    using store_effect [of E A io st _ msg_id origin w r w1] delete_effect [of E A io st _ msg_id origin w r w1]
      Cons.prems w1
    by (cases wr) (auto simp: q deletes_as_owner_def)
  with Cons.IH [of w1] Cons.prems chunks_write_ok [OF w1] w1 show ?case
    by (auto simp: q split: prod.splits)
qed simp

text \<open>
  C20. A blob whose store command was accepted is what a read of its address returns: if storing
  reports no error, the writer was entitled to it, the address was free, and the response to
  any reader is the blob itself.
\<close>

theorem stored_blob_is_served:
  assumes "storage_ok A st w" and "chunks_write E A io st (NewBlob data) msg_id origin w = (Inr NoOp, w')"
    and "c_meta io" and "c_read io' = ReadOk"
  shows "may_store data origin \<and> blob_at A st (blob_address data) w = None \<and>
    chunks_read E A io' st (GetBlobAt (blob_address data)) msg_id' reader w' =
      Inr (query_response_to E (GetBlobResponse (Inr data)) msg_id' (DstEndUser reader))"
proof -
  have tried: "try_store A io st data origin w = (Inr (), w')"
    using assms(2) by (auto simp: store_def split: prod.splits sum.splits)
  then have put: "put A (c_put io) (chunks st) data w = (Inr (), w')" and may: "may_store data origin"
    and "\<not> has A True (chunks st) (blob_address data) w"
    using assms(3) by (auto simp: try_store_cases split: if_splits)
  then have "blob_at A st (blob_address data) w = None"
    using get_imp_has [of A "chunks st" "blob_address data" w] by (auto simp: blob_at_def split: sum.splits)
  moreover have "get A ReadOk (chunks st) (blob_address data) w' = Inr data"
    using put_get_same [OF put] assms(1) by (simp add: storage_ok_def)
  ultimately show ?thesis using may assms(4) by (simp add: chunk_get_def)
qed

section \<open>Witnesses\<close>

text \<open>A coding of blobs of at most one byte, and names of one byte.\<close>

fun small_serialise :: "Blob \<Rightarrow> bytes option" where
  "small_serialise (PublicBlob (BlobPublicAddr n) [v]) = (if n < 256 then Some [0, ucast n, v] else None)"
| "small_serialise (PrivateBlob (BlobPrivateAddr n) [v] (Ed25519 k)) =
     (if n < 256 \<and> k < 256 then Some [1, ucast n, v, of_nat k] else None)"
| "small_serialise b = None"

definition small_deserialise :: "bytes \<Rightarrow> Blob option" where
  "small_deserialise b = (case b of
     [t, n, v] \<Rightarrow> if t = 0 then Some (PublicBlob (BlobPublicAddr (ucast n)) [v]) else None
   | [t, n, v, k] \<Rightarrow> if t = 1 then Some (PrivateBlob (BlobPrivateAddr (ucast n)) [v] (Ed25519 (unat k))) else None
   | _ \<Rightarrow> None)"

fun small_serialise_id :: "BlobAddress \<Rightarrow> bytes option" where
  "small_serialise_id (BlobPublicAddr n) = (if n < 256 then Some [0, ucast n] else None)"
| "small_serialise_id (BlobPrivateAddr n) = (if n < 256 then Some [1, ucast n] else None)"

definition small_deserialise_id :: "bytes \<Rightarrow> BlobAddress option" where
  "small_deserialise_id b = (case b of
     [t, n] \<Rightarrow> if t = 0 then Some (BlobPublicAddr (ucast n)) else Some (BlobPrivateAddr (ucast n))
   | _ \<Rightarrow> None)"

definition small_api :: blob_api where
  "small_api = \<lparr>serialise = small_serialise, deserialise = small_deserialise, chunk_id = blob_chunk_id,
     serialise_id = small_serialise_id, deserialise_id = small_deserialise_id,
     hex_encode = hex_of, hex_decode = of_hex, u64_code = le_codec\<rparr>"

lemma ucast_small: "(n :: 256 word) < 256 \<Longrightarrow> ucast (ucast n :: u8) = n"
  by (simp add: word_unat_eq_iff word_less_nat_alt unsigned_ucast_eq unsigned_take_bit_eq take_bit_nat_eq_self)

lemma small_api_ok: "api_ok small_api"
proof -
  have "small_deserialise b = Some c \<and> length b < 2 ^ 64" if "small_serialise c = Some b" for b c
    using that by (cases c rule: small_serialise.cases)
      (auto simp: small_deserialise_def ucast_small unat_of_nat_eq split: if_splits)
  moreover have "small_deserialise_id b = Some i" if "small_serialise_id i = Some b" for b i
    using that by (cases i) (auto simp: small_deserialise_id_def ucast_small split: if_splits)
  ultimately show ?thesis
    by (auto simp: api_ok_def small_api_def le_codec_ok of_hex_of dest: of_hex_digits)
qed

definition storage_a :: ChunkStorage where
  "storage_a = \<lparr>node_name = 0, chunks = store_a\<rparr>"

lemma storage_a_ok: "storage_ok small_api storage_a world_a"
  using world_a_sound small_api_ok
  by (simp add: storage_ok_def storage_a_def sound_store_def store_ok_def) (simp add: small_api_def)

text \<open>A private blob of one user, stored on the empty store.\<close>

definition alice :: EndUser where
  "alice = Client (Ed25519 1) 0"

definition mallory :: EndUser where
  "mallory = Client (Ed25519 2) 0"

definition secret :: Blob where
  "secret = PrivateBlob (BlobPrivateAddr 5) [42] (Ed25519 1)"

definition world_s :: world where
  "world_s = snd (put small_api put_fine store_a secret world_a)"

lemma hex_15: "hex_of [1, 5] = ''0105''"
  by code_simp

lemma secret_put: "put small_api put_fine store_a secret world_a = (Inr (), world_s)"
proof -
  have "fst (put small_api put_fine store_a secret world_a) = Inr ()"
    by (simp add: put_def put_fine_def delete_fine_def Let_def small_api_def secret_def store_a_def world_a_def
        file_path_def do_delete_def increase_def checked_add_def write_local_to_file_def hex_15
        USED_SPACE_FILENAME_def)
  then show ?thesis by (simp add: world_s_def prod_eq_iff)
qed

lemma secret_absent: "\<not> has small_api m store_a (BlobPrivateAddr 5) world_a"
  by (simp add: has_def file_path_def small_api_def store_a_def world_a_def hex_15 USED_SPACE_FILENAME_def)

theorem stored_blob_is_served_witness:
  "may_store secret alice \<and> chunks_read example_ext small_api io_fine storage_a (GetBlobAt (BlobPrivateAddr 5)) 1 mallory world_s =
    Inr (query_response_to example_ext (GetBlobResponse (Inr secret)) 1 (DstEndUser mallory))"
proof -
  have may: "may_store secret alice" by (simp add: may_store_def secret_def alice_def)
  have adr: "blob_address secret = BlobPrivateAddr 5" by (simp add: secret_def)
  have "try_store small_api io_fine storage_a secret alice world_a = (Inr (), world_s)"
    using may secret_put secret_absent by (simp add: try_store_cases storage_a_def io_fine_def adr)
  then have "chunks_write example_ext small_api io_fine storage_a (NewBlob secret) 0 alice world_a = (Inr NoOp, world_s)"
    by (simp add: store_def)
  from stored_blob_is_served [OF storage_a_ok this, of io_fine] show ?thesis by (simp add: io_fine_def adr)
qed

theorem blobs_survive_non_owners_witness:
  "blob_at small_api storage_a (BlobPrivateAddr 5)
     (snd (run_writes example_ext small_api storage_a
       [(io_fine, DeletePrivate (BlobPrivateAddr 5), 1, mallory), (io_fine, NewBlob secret, 2, alice)] world_s)) =
   Some secret"
proof -
  let ?qs = "[(io_fine, DeletePrivate (BlobPrivateAddr 5), 1, mallory), (io_fine, NewBlob secret, 2, alice)]
    :: write_request list"
  have adr: "chunk_id small_api secret = BlobPrivateAddr 5" by (simp add: small_api_def secret_def)
  have ok: "store_ok small_api store_a world_a" using storage_a_ok by (simp add: storage_ok_def storage_a_def)
  have "storage_ok small_api storage_a world_s"
    using put_store_ok [OF secret_put ok] storage_a_ok by (simp add: storage_ok_def storage_a_def)
  moreover have "blob_at small_api storage_a (BlobPrivateAddr 5) world_s = Some secret"
    using put_get_same [OF secret_put ok] adr by (simp add: blob_at_def storage_a_def)
  moreover have "run_writes example_ext small_api storage_a ?qs world_s =
      (fst (run_writes example_ext small_api storage_a ?qs world_s), snd (run_writes example_ext small_api storage_a ?qs world_s))"
    by simp
  moreover have "\<forall>q \<in> set ?qs. c_meta (fst q)" by (simp add: io_fine_def)
  moreover have "\<forall>q \<in> set ?qs. \<not> deletes_as_owner secret (BlobPrivateAddr 5) q"
    by (simp add: deletes_as_owner_def secret_def mallory_def)
  ultimately show ?thesis by (rule blobs_survive_non_owners)
qed

end
