(* ===== verification/Map_Storage.thy ===== *)
theory Map_Storage
  imports Chunk_Storage
begin

text \<open>
  The elders' storage of maps (\<^verbatim>\<open>src/src/metadata/map_storage.rs\<close>), a client of the store of
  chunks that checks permissions, refuses to overwrite, edits in place and answers the nine
  queries. The maps themselves (\<^verbatim>\<open>sn_data_types::Map\<close>: entries, permissions, versions) are a
  parameter. The contract it shares with the storage of sequences is the locale \<open>guarded_store\<close>.
\<close>

section \<open>The contract of a guarded store\<close>

locale guarded_store =
  fixes step :: "'q \<Rightarrow> 's \<Rightarrow> 'r \<times> 's"
    and view :: "'s \<Rightarrow> 'i \<Rightarrow> 'c option"
    and inv :: "'s \<Rightarrow> bool"
    and permitted :: "'q \<Rightarrow> 'i \<Rightarrow> 'c \<Rightarrow> bool"
  assumes inv_step: "inv s \<Longrightarrow> inv (snd (step q s))"
    and guard: "inv s \<Longrightarrow> view s i = Some c \<Longrightarrow> \<not> permitted q i c \<Longrightarrow> view (snd (step q s)) i = Some c"
begin

lemma run_inv: "inv s \<Longrightarrow> inv (snd (run_steps step qs s))"
  by (induction qs arbitrary: s) (simp_all add: Let_def inv_step)

lemma run_guard:
  assumes "inv s" and "view s i = Some c" and "\<forall>q \<in> set qs. \<not> permitted q i c"
  shows "view (snd (run_steps step qs s)) i = Some c"
  using assms
proof (induction qs arbitrary: s)
  case (Cons q qs)
  then show ?case using Cons.IH [of "snd (step q s)"] by (simp add: Let_def inv_step guard)
qed simp

text \<open>What can be read is changed only by a request that was permitted to change it.\<close>

lemma run_changed:
  assumes "inv s" and "view s i = Some c" and "view (snd (run_steps step qs s)) i \<noteq> Some c"
  shows "\<exists>q \<in> set qs. permitted q i c"
  using run_guard [OF assms(1,2)] assms(3) by blast

end

section \<open>Maps\<close>

datatype (plugins only: code size) MapAction = MapRead | MapInsert | MapUpdate | MapDeleteAction | ManagePermissions

text \<open>
  What \<^verbatim>\<open>sn_data_types::Map\<close> computes; operations that change a map return the changed map.
\<close>

record map_ext =
  map_address :: "Map \<Rightarrow> MapAddress"
  seq_map_address :: "nat \<Rightarrow> MapAddress"
  unseq_map_address :: "nat \<Rightarrow> MapAddress"
  check_permissions :: "Map \<Rightarrow> MapAction \<Rightarrow> PublicKey \<Rightarrow> DtError + unit"
  check_is_owner :: "Map \<Rightarrow> PublicKey \<Rightarrow> DtError + unit"
  ext_set_user_permissions :: "Map \<Rightarrow> PublicKey \<Rightarrow> MapPermissionSet \<Rightarrow> u64 \<Rightarrow> DtError + Map"
  ext_del_user_permissions :: "Map \<Rightarrow> PublicKey \<Rightarrow> u64 \<Rightarrow> DtError + Map"
  mutate_entries :: "Map \<Rightarrow> MapEntryActions \<Rightarrow> PublicKey \<Rightarrow> DtError + Map"
  shell :: "Map \<Rightarrow> Map"
  version :: "Map \<Rightarrow> u64"
  seq_value :: "nat \<Rightarrow> bytes \<Rightarrow> MapValue option"
  unseq_value :: "nat \<Rightarrow> bytes \<Rightarrow> MapValue option"
  map_keys :: "Map \<Rightarrow> bytes list"
  seq_values :: "nat \<Rightarrow> MapValues"
  unseq_values :: "nat \<Rightarrow> MapValues"
  seq_entries :: "nat \<Rightarrow> MapEntries"
  unseq_entries :: "nat \<Rightarrow> MapEntries"
  permissions :: "Map \<Rightarrow> MapPermissions"
  user_permissions :: "Map \<Rightarrow> PublicKey \<Rightarrow> DtError + MapPermissionSet"

text \<open>\<^verbatim>\<open>impl Chunk for Map\<close>.\<close>

fun map_chunk_id :: "map_ext \<Rightarrow> Map \<Rightarrow> MapAddress" where
  "map_chunk_id M (SeqMap m) = seq_map_address M m"
| "map_chunk_id M (UnseqMap m) = unseq_map_address M m"

type_synonym map_api = "(Map, MapAddress) chunk_api"

record MapStorage =
  ms_chunks :: ChunkStore

definition map_storage_new :: "map_api \<Rightarrow> root_io \<Rightarrow> add_io \<Rightarrow> dir \<Rightarrow> world \<Rightarrow> MapStorage result \<times> world" where
  "map_storage_new A rio aio path w = (case new A MapKind rio aio path w of
     (Inl e, w') \<Rightarrow> (Inl e, w')
   | (Inr cs, w') \<Rightarrow> (Inr \<lparr>ms_chunks = cs\<rparr>, w'))"

section \<open>Reading\<close>

definition map_get_chunk :: "map_ext \<Rightarrow> map_api \<Rightarrow> chunk_io \<Rightarrow> MapStorage \<Rightarrow> MapAddress \<Rightarrow> EndUser \<Rightarrow> MapAction \<Rightarrow>
    world \<Rightarrow> Map result" where
  "map_get_chunk M A io st address origin action w = and_then (get A (c_read io) (ms_chunks st) address w)
     (\<lambda>m. and_then (map_err NetworkData (check_permissions M m action (end_user_id origin))) (\<lambda>_. Inr m))"

text \<open>The reply to a query: the error is told if it has a message, and returned if not.\<close>

definition map_reply :: "externals \<Rightarrow> (ErrorMessage + 'a \<Rightarrow> QueryResponse) \<Rightarrow> 'a result \<Rightarrow> MessageId \<Rightarrow> EndUser \<Rightarrow>
    NodeDuty result" where
  "map_reply E response result msg_id origin = (case result of
     Inr res \<Rightarrow> Inr (query_response_to E (response (Inr res)) msg_id (DstEndUser origin))
   | Inl error \<Rightarrow> and_then (convert_to_error_message (texts E) error)
       (\<lambda>m. Inr (query_response_to E (response (Inl m)) msg_id (DstEndUser origin))))"

definition map_get :: "externals \<Rightarrow> map_ext \<Rightarrow> map_api \<Rightarrow> chunk_io \<Rightarrow> MapStorage \<Rightarrow> MapAddress \<Rightarrow> MessageId \<Rightarrow>
    EndUser \<Rightarrow> world \<Rightarrow> NodeDuty result" where
  "map_get E M A io st address msg_id origin w =
     map_reply E GetMapResponse (map_get_chunk M A io st address origin MapRead w) msg_id origin"

definition map_get_shell :: "externals \<Rightarrow> map_ext \<Rightarrow> map_api \<Rightarrow> chunk_io \<Rightarrow> MapStorage \<Rightarrow> MapAddress \<Rightarrow> MessageId \<Rightarrow>
    EndUser \<Rightarrow> world \<Rightarrow> NodeDuty result" where
  "map_get_shell E M A io st address msg_id origin w =
     map_reply E GetMapShellResponse
       (map_sum id (shell M) (map_get_chunk M A io st address origin MapRead w)) msg_id origin"

definition map_get_version :: "externals \<Rightarrow> map_ext \<Rightarrow> map_api \<Rightarrow> chunk_io \<Rightarrow> MapStorage \<Rightarrow> MapAddress \<Rightarrow> MessageId \<Rightarrow>
    EndUser \<Rightarrow> world \<Rightarrow> NodeDuty result" where
  "map_get_version E M A io st address msg_id origin w =
     map_reply E GetMapVersionResponse
       (map_sum id (version M) (map_get_chunk M A io st address origin MapRead w)) msg_id origin"

definition map_get_value :: "externals \<Rightarrow> map_ext \<Rightarrow> map_api \<Rightarrow> chunk_io \<Rightarrow> MapStorage \<Rightarrow> MapAddress \<Rightarrow> bytes \<Rightarrow>
    MessageId \<Rightarrow> EndUser \<Rightarrow> world \<Rightarrow> NodeDuty result" where
  "map_get_value E M A io st address key msg_id origin w =
     map_reply E GetMapValueResponse
       (and_then (map_get_chunk M A io st address origin MapRead w) (\<lambda>data. case data of
          SeqMap m \<Rightarrow> ok_or (NetworkData DtNoSuchEntry) (seq_value M m key)
        | UnseqMap m \<Rightarrow> ok_or (NetworkData DtNoSuchEntry) (unseq_value M m key))) msg_id origin"

definition map_list_keys :: "externals \<Rightarrow> map_ext \<Rightarrow> map_api \<Rightarrow> chunk_io \<Rightarrow> MapStorage \<Rightarrow> MapAddress \<Rightarrow> MessageId \<Rightarrow>
    EndUser \<Rightarrow> world \<Rightarrow> NodeDuty result" where
  "map_list_keys E M A io st address msg_id origin w =
     map_reply E ListMapKeysResponse
       (map_sum id (map_keys M) (map_get_chunk M A io st address origin MapRead w)) msg_id origin"

definition map_list_values :: "externals \<Rightarrow> map_ext \<Rightarrow> map_api \<Rightarrow> chunk_io \<Rightarrow> MapStorage \<Rightarrow> MapAddress \<Rightarrow> MessageId \<Rightarrow>
    EndUser \<Rightarrow> world \<Rightarrow> NodeDuty result" where
  "map_list_values E M A io st address msg_id origin w =
     map_reply E ListMapValuesResponse
       (map_sum id (\<lambda>data. case data of SeqMap m \<Rightarrow> seq_values M m | UnseqMap m \<Rightarrow> unseq_values M m)
         (map_get_chunk M A io st address origin MapRead w)) msg_id origin"

definition map_list_entries :: "externals \<Rightarrow> map_ext \<Rightarrow> map_api \<Rightarrow> chunk_io \<Rightarrow> MapStorage \<Rightarrow> MapAddress \<Rightarrow> MessageId \<Rightarrow>
    EndUser \<Rightarrow> world \<Rightarrow> NodeDuty result" where
  "map_list_entries E M A io st address msg_id origin w =
     map_reply E ListMapEntriesResponse
       (map_sum id (\<lambda>data. case data of SeqMap m \<Rightarrow> seq_entries M m | UnseqMap m \<Rightarrow> unseq_entries M m)
         (map_get_chunk M A io st address origin MapRead w)) msg_id origin"

definition map_list_permissions :: "externals \<Rightarrow> map_ext \<Rightarrow> map_api \<Rightarrow> chunk_io \<Rightarrow> MapStorage \<Rightarrow> MapAddress \<Rightarrow>
    MessageId \<Rightarrow> EndUser \<Rightarrow> world \<Rightarrow> NodeDuty result" where
  "map_list_permissions E M A io st address msg_id origin w =
     map_reply E ListMapPermissionsResponse
       (map_sum id (permissions M) (map_get_chunk M A io st address origin MapRead w)) msg_id origin"

definition map_list_user_permissions :: "externals \<Rightarrow> map_ext \<Rightarrow> map_api \<Rightarrow> chunk_io \<Rightarrow> MapStorage \<Rightarrow> MapAddress \<Rightarrow>
    PublicKey \<Rightarrow> MessageId \<Rightarrow> EndUser \<Rightarrow> world \<Rightarrow> NodeDuty result" where
  "map_list_user_permissions E M A io st address user msg_id origin w =
     map_reply E ListMapUserPermissionsResponse
       (and_then (map_get_chunk M A io st address origin MapRead w)
         (\<lambda>data. map_err NetworkData (user_permissions M data user))) msg_id origin"

fun map_read :: "externals \<Rightarrow> map_ext \<Rightarrow> map_api \<Rightarrow> chunk_io \<Rightarrow> MapStorage \<Rightarrow> MapRead \<Rightarrow> MessageId \<Rightarrow>
    EndUser \<Rightarrow> world \<Rightarrow> NodeDuty result" where
  "map_read E M A io st (GetMapAt address) msg_id origin w = map_get E M A io st address msg_id origin w"
| "map_read E M A io st (GetValue address key) msg_id origin w = map_get_value E M A io st address key msg_id origin w"
| "map_read E M A io st (GetShell address) msg_id origin w = map_get_shell E M A io st address msg_id origin w"
| "map_read E M A io st (GetVersion address) msg_id origin w = map_get_version E M A io st address msg_id origin w"
| "map_read E M A io st (ListEntries address) msg_id origin w = map_list_entries E M A io st address msg_id origin w"
| "map_read E M A io st (ListKeys address) msg_id origin w = map_list_keys E M A io st address msg_id origin w"
| "map_read E M A io st (ListValues address) msg_id origin w = map_list_values E M A io st address msg_id origin w"
| "map_read E M A io st (ListPermissions address) msg_id origin w = map_list_permissions E M A io st address msg_id origin w"
| "map_read E M A io st (ListUserPermissions address user) msg_id origin w =
     map_list_user_permissions E M A io st address user msg_id origin w"

section \<open>Writing\<close>

definition map_ok_or_error :: "externals \<Rightarrow> unit result \<Rightarrow> MessageId \<Rightarrow> EndUser \<Rightarrow> NodeDuty result" where
  "map_ok_or_error E result msg_id origin = (case result of
     Inl error \<Rightarrow> and_then (convert_to_error_message (texts E) error)
       (\<lambda>m. Inr (cmd_error_to E (CmdErrorData m) msg_id (DstEndUser origin)))
   | Inr _ \<Rightarrow> Inr NoOp)"

definition map_edit_chunk :: "externals \<Rightarrow> map_api \<Rightarrow> chunk_io \<Rightarrow> MapStorage \<Rightarrow> MapAddress \<Rightarrow> EndUser \<Rightarrow> MessageId \<Rightarrow>
    (Map \<Rightarrow> DtError + Map) \<Rightarrow> world \<Rightarrow> NodeDuty result \<times> world" where
  "map_edit_chunk E A io st address origin msg_id mutation_fn w =
     (let res = (case get A (c_read io) (ms_chunks st) address w of
          Inr data \<Rightarrow> (case mutation_fn data of
              Inr m \<Rightarrow> put A (c_put io) (ms_chunks st) m w
            | Inl error \<Rightarrow> (Inl (NetworkData error), w))
        | Inl error \<Rightarrow> (Inl error, w))
      in (map_ok_or_error E (fst res) msg_id origin, snd res))"

definition map_create :: "externals \<Rightarrow> map_ext \<Rightarrow> map_api \<Rightarrow> chunk_io \<Rightarrow> MapStorage \<Rightarrow> Map \<Rightarrow> MessageId \<Rightarrow> EndUser \<Rightarrow>
    world \<Rightarrow> NodeDuty result \<times> world" where
  "map_create E M A io st data msg_id origin w =
     (let res = (if has A (c_meta io) (ms_chunks st) (map_address M data) w then (Inl DataExists, w)
                 else put A (c_put io) (ms_chunks st) data w)
      in (map_ok_or_error E (fst res) msg_id origin, snd res))"

definition map_delete :: "externals \<Rightarrow> map_ext \<Rightarrow> map_api \<Rightarrow> chunk_io \<Rightarrow> MapStorage \<Rightarrow> MapAddress \<Rightarrow> MessageId \<Rightarrow>
    EndUser \<Rightarrow> world \<Rightarrow> NodeDuty result \<times> world" where
  "map_delete E M A io st address msg_id origin w =
     (let res = (case get A (c_read io) (ms_chunks st) address w of
          Inr m \<Rightarrow> (case check_is_owner M m (end_user_id origin) of
              Inr _ \<Rightarrow> delete A (c_delete io) (ms_chunks st) address w
            | Inl _ \<Rightarrow> (Inl (NetworkData (DtAccessDenied (end_user_id origin))), w))
        | Inl error \<Rightarrow> (Inl error, w))
      in (map_ok_or_error E (fst res) msg_id origin, snd res))"

definition map_set_user_permissions :: "externals \<Rightarrow> map_ext \<Rightarrow> map_api \<Rightarrow> chunk_io \<Rightarrow> MapStorage \<Rightarrow> MapAddress \<Rightarrow>
    PublicKey \<Rightarrow> MapPermissionSet \<Rightarrow> u64 \<Rightarrow> MessageId \<Rightarrow> EndUser \<Rightarrow> world \<Rightarrow> NodeDuty result \<times> world" where
  "map_set_user_permissions E M A io st address user perms ver msg_id origin w =
     map_edit_chunk E A io st address origin msg_id
       (\<lambda>data. and_then (check_permissions M data ManagePermissions (end_user_id origin))
         (\<lambda>_. ext_set_user_permissions M data user perms ver)) w"

definition map_delete_user_permissions :: "externals \<Rightarrow> map_ext \<Rightarrow> map_api \<Rightarrow> chunk_io \<Rightarrow> MapStorage \<Rightarrow> MapAddress \<Rightarrow>
    PublicKey \<Rightarrow> u64 \<Rightarrow> MessageId \<Rightarrow> EndUser \<Rightarrow> world \<Rightarrow> NodeDuty result \<times> world" where
  "map_delete_user_permissions E M A io st address user ver msg_id origin w =
     map_edit_chunk E A io st address origin msg_id
       (\<lambda>data. and_then (check_permissions M data ManagePermissions (end_user_id origin))
         (\<lambda>_. ext_del_user_permissions M data user ver)) w"

definition map_edit_entries :: "externals \<Rightarrow> map_ext \<Rightarrow> map_api \<Rightarrow> chunk_io \<Rightarrow> MapStorage \<Rightarrow> MapAddress \<Rightarrow>
    MapEntryActions \<Rightarrow> MessageId \<Rightarrow> EndUser \<Rightarrow> world \<Rightarrow> NodeDuty result \<times> world" where
  "map_edit_entries E M A io st address actions msg_id origin w =
     map_edit_chunk E A io st address origin msg_id (\<lambda>data. mutate_entries M data actions (end_user_id origin)) w"

fun map_write :: "externals \<Rightarrow> map_ext \<Rightarrow> map_api \<Rightarrow> chunk_io \<Rightarrow> MapStorage \<Rightarrow> MapWrite \<Rightarrow> MessageId \<Rightarrow> EndUser \<Rightarrow>
    world \<Rightarrow> NodeDuty result \<times> world" where
  "map_write E M A io st (NewMap data) msg_id origin w = map_create E M A io st data msg_id origin w"
| "map_write E M A io st (DeleteMap address) msg_id origin w = map_delete E M A io st address msg_id origin w"
| "map_write E M A io st (SetUserPermissions address user perms ver) msg_id origin w =
     map_set_user_permissions E M A io st address user perms ver msg_id origin w"
| "map_write E M A io st (DelUserPermissions address user ver) msg_id origin w =
     map_delete_user_permissions E M A io st address user ver msg_id origin w"
| "map_write E M A io st (EditMap address changes) msg_id origin w =
     map_edit_entries E M A io st address changes msg_id origin w"

section \<open>What the writes do\<close>

text \<open>
  What is relied on: a map is stored under its address, which no operation on it changes.
\<close>

definition map_ext_ok :: "map_ext \<Rightarrow> map_api \<Rightarrow> bool" where
  "map_ext_ok M A \<longleftrightarrow> chunk_id A = map_chunk_id M \<and> (\<forall>m. map_address M m = map_chunk_id M m) \<and>
     (\<forall>m m' u p v. ext_set_user_permissions M m u p v = Inr m' \<longrightarrow> map_address M m' = map_address M m) \<and>
     (\<forall>m m' u v. ext_del_user_permissions M m u v = Inr m' \<longrightarrow> map_address M m' = map_address M m) \<and>
     (\<forall>m m' cs k. mutate_entries M m cs k = Inr m' \<longrightarrow> map_address M m' = map_address M m)"

definition maps_ok :: "map_ext \<Rightarrow> map_api \<Rightarrow> MapStorage \<Rightarrow> world \<Rightarrow> bool" where
  "maps_ok M A st w \<longleftrightarrow> map_ext_ok M A \<and> store_ok A (ms_chunks st) w"

text \<open>The map at an address, whoever may read it.\<close>

definition stored_at :: "('c, 'i) chunk_api \<Rightarrow> ChunkStore \<Rightarrow> world \<Rightarrow> 'i \<Rightarrow> 'c option" where
  "stored_at A cs w i = (case get A ReadOk cs i w of Inl _ \<Rightarrow> None | Inr c \<Rightarrow> Some c)"

lemma stored_at_Some: "stored_at A cs w i = Some c \<longleftrightarrow> get A ReadOk cs i w = Inr c"
  by (simp add: stored_at_def split: sum.splits)

lemma get_chunk_id: "get A io cs i w = Inr c \<Longrightarrow> chunk_id A c = i"
  by (auto simp: get_def split: sum.splits option.splits if_splits)

lemma stored_put_other:
  "put A io cs c w = (r, w') \<Longrightarrow> store_ok A cs w \<Longrightarrow> i \<noteq> chunk_id A c \<Longrightarrow> stored_at A cs w' i = stored_at A cs w i"
  by (simp add: stored_at_def put_get_other)

lemma stored_delete_other:
  "delete A io cs j w = (r, w') \<Longrightarrow> store_ok A cs w \<Longrightarrow> i \<noteq> j \<Longrightarrow> stored_at A cs w' i = stored_at A cs w i"
  by (simp add: stored_at_def delete_get_other)

lemma stored_put_same:
  "put A io cs c w = (Inr (), w') \<Longrightarrow> store_ok A cs w \<Longrightarrow> stored_at A cs w' = (stored_at A cs w)(chunk_id A c := Some c)"
  by (rule ext) (simp add: stored_put_other, simp add: stored_at_def put_get_same)

lemma stored_delete_same:
  assumes "delete A io cs i w = (Inr (), w')" and "store_ok A cs w" and "metadata_ok io"
  shows "stored_at A cs w' = (stored_at A cs w)(i := None)"
  using stored_delete_other [OF assms(1,2)] delete_get_same [OF assms] by (auto simp: fun_eq_iff) (simp add: stored_at_def)

lemma not_has_stored: "\<not> has A True cs i w \<Longrightarrow> stored_at A cs w i = None"
  using get_imp_has by (fastforce simp: stored_at_def split: sum.splits)

text \<open>The change a write asks for, as a function of the stored map.\<close>

fun map_mutation :: "map_ext \<Rightarrow> MapWrite \<Rightarrow> PublicKey \<Rightarrow> (MapAddress \<times> (Map \<Rightarrow> DtError + Map)) option" where
  "map_mutation M (SetUserPermissions a user perms ver) k =
     Some (a, \<lambda>m. and_then (check_permissions M m ManagePermissions k) (\<lambda>_. ext_set_user_permissions M m user perms ver))"
| "map_mutation M (DelUserPermissions a user ver) k =
     Some (a, \<lambda>m. and_then (check_permissions M m ManagePermissions k) (\<lambda>_. ext_del_user_permissions M m user ver))"
| "map_mutation M (EditMap a changes) k = Some (a, \<lambda>m. mutate_entries M m changes k)"
| "map_mutation M (NewMap data) k = None"
| "map_mutation M (DeleteMap a) k = None"

lemma map_ext_okD:
  assumes "map_ext_ok M A"
  shows "ext_set_user_permissions M m u p v = Inr m' \<Longrightarrow> chunk_id A m' = chunk_id A m"
    and "ext_del_user_permissions M m u v = Inr m' \<Longrightarrow> chunk_id A m' = chunk_id A m"
    and "mutate_entries M m changes k = Inr m' \<Longrightarrow> chunk_id A m' = chunk_id A m"
    and "map_address M m = chunk_id A m"
  using assms unfolding map_ext_ok_def by metis+

lemma map_mutation_id:
  assumes "map_ext_ok M A" and "map_mutation M wr k = Some (a, f)" and "f m = Inr m'"
  shows "chunk_id A m' = chunk_id A m"
  using assms(2,3) map_ext_okD [OF assms(1)] by (cases wr) (auto simp: and_then_Inr_iff)

lemma map_write_mutation:
  "map_mutation M wr (end_user_id origin) = Some (a, f) \<Longrightarrow>
    map_write E M A io st wr msg_id origin w = map_edit_chunk E A io st a origin msg_id f w"
  by (cases wr) (auto simp: map_set_user_permissions_def map_delete_user_permissions_def map_edit_entries_def)

text \<open>Each write either leaves the store alone, or is one put or one delete of the store of chunks.\<close>

lemma map_write_cases:
  assumes ext: "map_ext_ok M A" and step: "map_write E M A io st wr msg_id origin w = (r, w')"
  obtains (refused) e where "w' = w" "r = map_ok_or_error E (Inl e) msg_id origin"
  | (created) m e where "wr = NewMap m" "\<not> has A (c_meta io) (ms_chunks st) (chunk_id A m) w"
    "put A (c_put io) (ms_chunks st) m w = (e, w')" "r = map_ok_or_error E e msg_id origin"
  | (deleted) a m e where "wr = DeleteMap a" "get A ReadOk (ms_chunks st) a w = Inr m"
    "is_ok (check_is_owner M m (end_user_id origin))"
    "delete A (c_delete io) (ms_chunks st) a w = (e, w')" "r = map_ok_or_error E e msg_id origin"
  | (edited) a f m m' e where "map_mutation M wr (end_user_id origin) = Some (a, f)"
    "get A ReadOk (ms_chunks st) a w = Inr m" "f m = Inr m'" "chunk_id A m' = a"
    "put A (c_put io) (ms_chunks st) m' w = (e, w')" "r = map_ok_or_error E e msg_id origin"
proof (cases "map_mutation M wr (end_user_id origin)")
  case (Some p)
  obtain a f where p: "p = (a, f)" by (cases p)
  note mut = Some [unfolded p]
  have st: "map_edit_chunk E A io st a origin msg_id f w = (r, w')"
    using step map_write_mutation [OF mut] by simp
  show ?thesis
  proof (cases "get A (c_read io) (ms_chunks st) a w")
    case (Inl e)
    with st show ?thesis by (intro refused [of e]) (simp_all add: map_edit_chunk_def)
  next
    case (Inr m)
    show ?thesis
    proof (cases "f m")
      case fm: (Inl e)
      with Inr st show ?thesis by (intro refused [of "NetworkData e"]) (simp_all add: map_edit_chunk_def)
    next
      case fm: (Inr m')
      have "chunk_id A m' = a" using map_mutation_id [OF ext mut fm] get_chunk_id [OF Inr] by simp
      with mut fm Inr st get_any_read [OF Inr] show ?thesis
        by (intro edited [of a f m m' "fst (put A (c_put io) (ms_chunks st) m' w)"]) (auto simp: map_edit_chunk_def Let_def prod_eq_iff)
    qed
  qed
next
  case None
  then consider m where "wr = NewMap m" | a where "wr = DeleteMap a" by (cases wr) auto
  then show ?thesis
  proof cases
    case 1
    with step ext show ?thesis
      by (cases "has A (c_meta io) (ms_chunks st) (chunk_id A m) w")
        (auto simp: map_create_def Let_def map_ext_ok_def prod_eq_iff
          intro: refused [of DataExists] created [of m "fst (put A (c_put io) (ms_chunks st) m w)"])
  next
    case 2
    show ?thesis
    proof (cases "get A (c_read io) (ms_chunks st) a w")
      case (Inl e)
      with 2 step show ?thesis by (intro refused [of e]) (simp_all add: map_delete_def)
    next
      case (Inr m)
      with 2 step get_any_read [OF Inr] show ?thesis
        by (cases "check_is_owner M m (end_user_id origin)")
          (auto simp: map_delete_def Let_def prod_eq_iff
            intro: refused [of "NetworkData (DtAccessDenied (end_user_id origin))"]
              deleted [of a m "fst (delete A (c_delete io) (ms_chunks st) a w)"])
    qed
  qed
qed

lemma map_write_maps_ok:
  assumes "maps_ok M A st w"
  shows "maps_ok M A st (snd (map_write E M A io st wr msg_id origin w))"
proof -
  have ext: "map_ext_ok M A" and ok: "store_ok A (ms_chunks st) w" using assms by (simp_all add: maps_ok_def)
  obtain r w' where step: "map_write E M A io st wr msg_id origin w = (r, w')" by (metis surj_pair)
  from ext step have "store_ok A (ms_chunks st) w'"
    by (cases rule: map_write_cases) (simp_all add: ok put_store_ok [OF _ ok] delete_store_ok [OF _ ok])
  with step ext show ?thesis by (simp add: maps_ok_def)
qed

text \<open>A request, with the way its file accesses go.\<close>

type_synonym map_request = "chunk_io \<times> MapWrite \<times> MessageId \<times> EndUser"

definition map_serve :: "externals \<Rightarrow> map_ext \<Rightarrow> map_api \<Rightarrow> MapStorage \<Rightarrow> map_request \<Rightarrow> world \<Rightarrow> NodeDuty result \<times> world" where
  "map_serve E M A st q w = (case q of (io, wr, msg_id, origin) \<Rightarrow> map_write E M A io st wr msg_id origin w)"

text \<open>
  The requests that are entitled to change a given map: its owner's delete, and an edit that the map
  itself accepts from the user who asks.
\<close>

definition may_change :: "map_ext \<Rightarrow> map_request \<Rightarrow> MapAddress \<Rightarrow> Map \<Rightarrow> bool" where
  "may_change M q a m = (case q of (io, wr, msg_id, origin) \<Rightarrow>
     wr = DeleteMap a \<and> is_ok (check_is_owner M m (end_user_id origin)) \<or>
     (\<exists>f. map_mutation M wr (end_user_id origin) = Some (a, f) \<and> is_ok (f m)))"

text \<open>
  The requests that need no entitlement, since \<^verbatim>\<open>has\<close> takes a file whose metadata cannot be read for
  absent: to create a map at an address whose look-up fails.
\<close>

definition creates_unseen :: "map_ext \<Rightarrow> map_request \<Rightarrow> MapAddress \<Rightarrow> bool" where
  "creates_unseen M q a = (case q of (io, wr, msg_id, origin) \<Rightarrow>
     \<not> c_meta io \<and> (case wr of NewMap m \<Rightarrow> map_address M m = a | _ \<Rightarrow> False))"

lemma map_serve_guard:
  assumes ok: "maps_ok M A st w" and at: "stored_at A (ms_chunks st) w a = Some m"
    and no: "\<not> may_change M q a m" and seen: "\<not> creates_unseen M q a"
  shows "stored_at A (ms_chunks st) (snd (map_serve E M A st q w)) a = Some m"
proof -
  have ext: "map_ext_ok M A" and st: "store_ok A (ms_chunks st) w" using ok by (simp_all add: maps_ok_def)
  obtain io wr msg_id origin where q: "q = (io, wr, msg_id, origin)" by (cases q) auto
  obtain r w' where step: "map_write E M A io st wr msg_id origin w = (r, w')" by (metis surj_pair)
  have at': "get A ReadOk (ms_chunks st) a w = Inr m" using at by (simp add: stored_at_Some)
  from ext step have "stored_at A (ms_chunks st) w' a = Some m"
  proof (cases rule: map_write_cases)
    case (refused e)
    with at show ?thesis by simp
  next
    case (created m1 e)
    have "c_meta io \<or> a \<noteq> chunk_id A m1" using seen created(1) map_ext_okD(4) [OF ext] by (auto simp: creates_unseen_def q)
    with created get_imp_has [OF at'] have "a \<noteq> chunk_id A m1" by metis
    with stored_put_other [OF created(3) st] at show ?thesis by simp
  next
    case (deleted b m1 e)
    have "a \<noteq> b" using no deleted(1-3) at' by (auto simp: may_change_def q)
    with stored_delete_other [OF deleted(4) st] at show ?thesis by simp
  next
    case (edited b f m1 m2 e)
    have "a \<noteq> b" using no edited(1-3) at' by (auto simp: may_change_def q)
    with stored_put_other [OF edited(5) st] edited(4) at show ?thesis by simp
  qed
  with step show ?thesis by (simp add: map_serve_def q)
qed

interpretation maps: guarded_store "map_serve E M A st" "stored_at A (ms_chunks st)" "maps_ok M A st"
  "\<lambda>q a m. may_change M q a m \<or> creates_unseen M q a" for E M A st
  by unfold_locales
    (auto simp: map_serve_guard, auto simp: map_serve_def map_write_maps_ok split: prod.splits)

section \<open>Properties\<close>

text \<open>
  C10. Maps change only with permission: under any sequence of write commands, from whomever and
  whichever file accesses fail, a stored map that is no longer what it was has been changed by a
  command that was entitled to it: its owner's delete, or an edit the map's own permissions grant
  to the sender. There is one exception, for which the sender needs no permission: a command to
  create a map at the same address while the metadata of the existing file cannot be read, so
  that the file is taken for absent and overwritten.
\<close>

theorem maps_change_only_when_permitted:
  assumes "maps_ok M A st w" and "stored_at A (ms_chunks st) w a = Some m"
    and "run_steps (map_serve E M A st) qs w = (rs, w')" and "stored_at A (ms_chunks st) w' a \<noteq> Some m"
  shows "\<exists>q \<in> set qs. may_change M q a m \<or> creates_unseen M q a"
  using maps.run_changed [OF assms(1,2), of E qs] assms(3,4) by simp

text \<open>
  The abstract specification of a successful write: the stored maps as a function.
\<close>

definition map_spec :: "map_ext \<Rightarrow> MapWrite \<Rightarrow> PublicKey \<Rightarrow> (MapAddress \<Rightarrow> Map option) \<Rightarrow> (MapAddress \<Rightarrow> Map option) \<Rightarrow> bool" where
  "map_spec M wr k before after \<longleftrightarrow> (case wr of
     NewMap m \<Rightarrow> before (map_address M m) = None \<and> after = before(map_address M m \<mapsto> m)
   | DeleteMap a \<Rightarrow> (\<exists>m. before a = Some m \<and> is_ok (check_is_owner M m k)) \<and> after = before(a := None)
   | _ \<Rightarrow> (\<exists>a f m m'. map_mutation M wr k = Some (a, f) \<and> before a = Some m \<and> f m = Inr m' \<and> after = before(a \<mapsto> m')))"

text \<open>
  C29. A write that reports success has done what it should: a new map is stored at its address,
  which was free; a deleted map was its owner's and is gone; an edited map is the result of
  the edit on the map that was stored; and every other map is unchanged. This holds whichever file
  accesses fail, with two exceptions: when the metadata of the file cannot be read, a new map is
  stored although its address may have been taken, and the delete of the owner's map reports
  success and changes no map.
\<close>

theorem map_write_refines:
  assumes "maps_ok M A st w" and "map_write E M A io st wr msg_id origin w = (Inr NoOp, w')"
    and "before = stored_at A (ms_chunks st) w" and "after = stored_at A (ms_chunks st) w'"
  shows "map_spec M wr (end_user_id origin) before after \<or>
    \<not> c_meta io \<and> (\<exists>m. wr = NewMap m \<and> after = before(map_address M m \<mapsto> m)) \<or>
    \<not> metadata_ok (c_delete io) \<and>
      (\<exists>a m. wr = DeleteMap a \<and> before a = Some m \<and> is_ok (check_is_owner M m (end_user_id origin)) \<and> after = before)"
proof -
  have ext: "map_ext_ok M A" and st: "store_ok A (ms_chunks st) w" using assms(1) by (simp_all add: maps_ok_def)
  have okE: "e = Inr ()" if "Inr NoOp = map_ok_or_error E e msg_id origin" for e
    using that by (cases e) (auto simp: map_ok_or_error_def and_then_def split: sum.splits)
  from ext assms(2) show ?thesis
  proof (cases rule: map_write_cases)
    case (refused e)
    with okE [of "Inl e"] show ?thesis by simp
  next
    case (created m e)
    then have after: "after = before(map_address M m \<mapsto> m)"
      using stored_put_same [of A _ "ms_chunks st" m w w'] okE [OF created(4)] st assms(3,4) by (simp add: map_ext_okD(4) [OF ext])
    have "before (map_address M m) = None" if "c_meta io"
      using not_has_stored [of A "ms_chunks st" "chunk_id A m" w] created(2) that assms(3) by (simp add: map_ext_okD(4) [OF ext])
    with after created(1) show ?thesis by (auto simp: map_spec_def)
  next
    case (deleted a m e)
    then have del: "delete A (c_delete io) (ms_chunks st) a w = (Inr (), w')" using okE by simp
    have own: "before a = Some m" using deleted(2) assms(3) by (simp add: stored_at_Some)
    show ?thesis
    proof (cases "metadata_ok (c_delete io)")
      case True
      with stored_delete_same [OF del st] own deleted assms(3,4) show ?thesis by (auto simp: map_spec_def)
    next
      case False
      with delete_unseen_same [OF del] own deleted assms(3,4) show ?thesis by auto
    qed
  next
    case (edited a f m m' e)
    then have "put A (c_put io) (ms_chunks st) m' w = (Inr (), w')" using okE by simp
    from stored_put_same [OF this st] edited assms(3,4) show ?thesis
      by (cases wr) (auto simp: map_spec_def stored_at_Some)
  qed
qed

text \<open>The map a query is about.\<close>

fun map_read_address :: "MapRead \<Rightarrow> MapAddress" where
  "map_read_address (GetMapAt a) = a"
| "map_read_address (GetValue a key) = a"
| "map_read_address (GetShell a) = a"
| "map_read_address (GetVersion a) = a"
| "map_read_address (ListEntries a) = a"
| "map_read_address (ListKeys a) = a"
| "map_read_address (ListValues a) = a"
| "map_read_address (ListPermissions a) = a"
| "map_read_address (ListUserPermissions a user) = a"

lemma map_read_cong:
  assumes "map_get_chunk M A io st (map_read_address rd) origin MapRead w1 =
    map_get_chunk M A io st (map_read_address rd) origin MapRead w2"
  shows "map_read E M A io st rd msg_id origin w1 = map_read E M A io st rd msg_id origin w2"
  using assms
  by (cases rd) (simp_all add: map_get_def map_get_value_def map_get_shell_def map_get_version_def map_list_entries_def
      map_list_keys_def map_list_values_def map_list_permissions_def map_list_user_permissions_def)

lemma get_faulty:
  "get A ReadOk cs i w = Inr c \<Longrightarrow>
    get A io cs i w = (case io of ReadOk \<Rightarrow> Inr c | OpenErr \<Rightarrow> Inl NoSuchChunk | ReadErr \<Rightarrow> Inl Io)"
  by (cases io) (auto simp: get_def split: sum.splits option.splits if_splits)

text \<open>
  C30. What a user may not read the user cannot tell apart: if two maps both deny a user to read
  with the same error, then the replies to any of the nine queries are the same, whichever of the
  two is stored.
\<close>

theorem unreadable_maps_indistinguishable:
  assumes "stored_at A (ms_chunks st) w1 (map_read_address rd) = Some m1"
    and "stored_at A (ms_chunks st) w2 (map_read_address rd) = Some m2"
    and "check_permissions M m1 MapRead (end_user_id origin) = Inl e"
    and "check_permissions M m2 MapRead (end_user_id origin) = Inl e"
  shows "map_read E M A io st rd msg_id origin w1 = map_read E M A io st rd msg_id origin w2"
  using assms
  by (intro map_read_cong) (simp add: map_get_chunk_def stored_at_Some get_faulty split: read_io.split)

section \<open>Witnesses\<close>

text \<open>
  Maps of one digit at addresses below twenty-five, edited by the user of key 1 and read by nobody else.
\<close>

fun digit_edit :: "Map \<Rightarrow> nat \<Rightarrow> PublicKey \<Rightarrow> DtError + Map" where
  "digit_edit (SeqMap n) c k = (if k = Ed25519 1 then Inr (SeqMap (10 * (n div 10) + c mod 10)) else Inl (DtAccessDenied k))"
| "digit_edit (UnseqMap n) c k = Inl DtInvalidOperation"

definition owner_only :: "PublicKey \<Rightarrow> DtError + unit" where
  "owner_only k = (if k = Ed25519 1 then Inr () else Inl (DtAccessDenied k))"

definition digit_maps :: map_ext where
  "digit_maps = \<lparr>map_address = (\<lambda>m. case m of SeqMap n \<Rightarrow> MapAddress (n div 10) | UnseqMap n \<Rightarrow> MapAddress n),
     seq_map_address = (\<lambda>n. MapAddress (n div 10)), unseq_map_address = MapAddress,
     check_permissions = (\<lambda>m a k. owner_only k), check_is_owner = (\<lambda>m k. owner_only k),
     ext_set_user_permissions = (\<lambda>m u p v. Inl DtInvalidOperation), ext_del_user_permissions = (\<lambda>m u v. Inl DtInvalidOperation),
     mutate_entries = digit_edit, shell = (\<lambda>m. m), version = (\<lambda>m. 0),
     seq_value = (\<lambda>n k. Some (n mod 10)), unseq_value = (\<lambda>n k. None), map_keys = (\<lambda>m. []),
     seq_values = (\<lambda>n. n mod 10), unseq_values = (\<lambda>n. 0), seq_entries = (\<lambda>n. n mod 10), unseq_entries = (\<lambda>n. 0),
     permissions = (\<lambda>m. 0), user_permissions = (\<lambda>m u. Inr 0)\<rparr>"

fun digit_serialise :: "Map \<Rightarrow> bytes option" where
  "digit_serialise (SeqMap n) = (if n < 250 then Some [of_nat n] else None)"
| "digit_serialise (UnseqMap n) = None"

fun digit_serialise_id :: "MapAddress \<Rightarrow> bytes option" where
  "digit_serialise_id (MapAddress n) = (if n < 250 then Some [of_nat n] else None)"

definition digit_api :: map_api where
  "digit_api = \<lparr>serialise = digit_serialise,
     deserialise = (\<lambda>b. case b of [x] \<Rightarrow> Some (SeqMap (unat x)) | _ \<Rightarrow> None),
     chunk_id = map_chunk_id digit_maps, serialise_id = digit_serialise_id,
     deserialise_id = (\<lambda>b. case b of [x] \<Rightarrow> Some (MapAddress (unat x)) | _ \<Rightarrow> None),
     hex_encode = hex_of, hex_decode = of_hex, u64_code = le_codec\<rparr>"

lemma digit_api_ok: "api_ok digit_api"
proof -
  have "unat (of_nat n :: u8) = n" if "n < 250" for n using that by (intro unat_of_nat_eq) simp
  then show ?thesis
    unfolding api_ok_def digit_api_def
    by (auto simp: le_codec_ok of_hex_of dest: of_hex_digits elim!: digit_serialise.elims digit_serialise_id.elims split: if_splits)
qed

lemma digit_ext_ok: "map_ext_ok digit_maps digit_api"
  unfolding map_ext_ok_def
  by (auto simp: digit_maps_def digit_api_def fun_eq_iff elim!: digit_edit.elims split: if_splits Map.split)

definition map_store :: MapStorage where
  "map_store = \<lparr>ms_chunks = store_a\<rparr>"

text \<open>A world in which the map 3 is stored at address 1.\<close>

definition world_m :: "u8 \<Rightarrow> world" where
  "world_m v = world_a\<lparr>disk := (([''a''], ''01''), [v]) # disk world_a\<rparr>"

lemma world_m_ok: "maps_ok digit_maps digit_api map_store (world_m v)"
  using world_a_sound
  by (simp add: maps_ok_def digit_ext_ok map_store_def sound_store_def store_ok_def digit_api_ok world_m_def)

lemma world_m_stored: "stored_at digit_api (ms_chunks map_store) (world_m 13) (MapAddress 1) = Some (SeqMap 13)"
  "stored_at digit_api (ms_chunks map_store) (world_m 17) (MapAddress 1) = Some (SeqMap 17)"
  by (simp_all add: stored_at_def get_def file_path_def digit_api_def map_store_def store_a_def world_m_def world_a_def
      hex_1 digit_maps_def)

theorem unreadable_maps_indistinguishable_witness:
  "map_read example_ext digit_maps digit_api io_fine map_store (ListValues (MapAddress 1)) 4 mallory (world_m 13) =
   map_read example_ext digit_maps digit_api io_fine map_store (ListValues (MapAddress 1)) 4 mallory (world_m 17)"
  by (rule unreadable_maps_indistinguishable [where ?m1.0 = "SeqMap 13" and ?m2.0 = "SeqMap 17" and e = "DtAccessDenied (Ed25519 2)"])
    (use world_m_stored in \<open>simp_all add: digit_maps_def owner_only_def mallory_def\<close>)

definition map_edit_run :: "NodeDuty result list \<times> world" where
  "map_edit_run = run_steps (map_serve example_ext digit_maps digit_api map_store)
     [(io_fine, EditMap (MapAddress 1) 9, 1, alice)] (world_m 13)"

lemma map_edit_put:
  "map_write example_ext digit_maps digit_api io_fine map_store (EditMap (MapAddress 1) 9) 1 alice (world_m 13) =
    (let p = put digit_api put_fine store_a (SeqMap 19) (world_m 13) in (map_ok_or_error example_ext (fst p) 1 alice, snd p))"
proof -
  have "get digit_api ReadOk store_a (MapAddress 1) (world_m 13) = Inr (SeqMap 13)"
    using world_m_stored(1) by (simp add: stored_at_Some map_store_def)
  then show ?thesis
    by (simp add: map_edit_entries_def map_edit_chunk_def io_fine_def map_store_def digit_maps_def alice_def Let_def)
qed

lemma map_edit_done:
  "put digit_api put_fine store_a (SeqMap 19) (world_m 13) = (Inr (), snd map_edit_run)"
  "map_write example_ext digit_maps digit_api io_fine map_store (EditMap (MapAddress 1) 9) 1 alice (world_m 13) =
    (Inr NoOp, snd map_edit_run)"
proof -
  have "fst (put digit_api put_fine store_a (SeqMap 19) (world_m 13)) = Inr ()"
    by (simp add: file_path_def digit_api_def store_a_def world_m_def world_a_def hex_1 digit_maps_def put_def put_fine_def
        delete_fine_def Let_def do_delete_def increase_def decrease_def checked_add_def write_local_to_file_def
        saturating_sub_def USED_SPACE_FILENAME_def)
  moreover have "snd (put digit_api put_fine store_a (SeqMap 19) (world_m 13)) = snd map_edit_run"
    using map_edit_put by (simp add: map_edit_run_def map_serve_def Let_def)
  ultimately show "put digit_api put_fine store_a (SeqMap 19) (world_m 13) = (Inr (), snd map_edit_run)"
    by (simp add: prod_eq_iff)
  with map_edit_put show "map_write example_ext digit_maps digit_api io_fine map_store (EditMap (MapAddress 1) 9) 1 alice
      (world_m 13) = (Inr NoOp, snd map_edit_run)"
    by (simp add: map_ok_or_error_def)
qed

lemma map_edit_stored: "stored_at digit_api (ms_chunks map_store) (snd map_edit_run) (MapAddress 1) = Some (SeqMap 19)"
proof -
  have "store_ok digit_api store_a (world_m 13)" using world_m_ok by (simp add: maps_ok_def map_store_def)
  moreover have "chunk_id digit_api (SeqMap 19) = MapAddress 1" by (simp add: digit_api_def digit_maps_def)
  ultimately show ?thesis using stored_put_same [OF map_edit_done(1)] by (simp add: map_store_def)
qed

theorem map_write_refines_witness:
  "map_spec digit_maps (EditMap (MapAddress 1) 9) (Ed25519 1)
     (stored_at digit_api (ms_chunks map_store) (world_m 13)) (stored_at digit_api (ms_chunks map_store) (snd map_edit_run))"
  using map_write_refines [OF world_m_ok map_edit_done(2) refl refl] by (simp add: io_fine_def delete_fine_def alice_def)

theorem maps_change_only_when_permitted_witness:
  "may_change digit_maps (io_fine, EditMap (MapAddress 1) 9, 1, alice) (MapAddress 1) (SeqMap 13)"
  using maps_change_only_when_permitted [OF world_m_ok world_m_stored(1), of example_ext
      "[(io_fine, EditMap (MapAddress 1) 9, 1, alice)]" "fst map_edit_run" "snd map_edit_run"] map_edit_stored
  by (simp add: map_edit_run_def creates_unseen_def io_fine_def)

text \<open>
  The exception is real: a user without any permission replaces the map of another one, if the
  look-up fails.
\<close>

lemma map_overwritten_unseen:
  "\<exists>w'. map_write example_ext digit_maps digit_api (io_fine\<lparr>c_meta := False\<rparr>) map_store (NewMap (SeqMap 19)) 1 mallory (world_m 13) =
      (Inr NoOp, w') \<and> stored_at digit_api (ms_chunks map_store) w' (MapAddress 1) = Some (SeqMap 19)"
  using map_edit_stored
  by (simp add: map_create_def has_def file_path_def digit_api_def map_store_def io_fine_def split: option.split)
    (simp add: map_edit_done(1) [unfolded digit_api_def] map_ok_or_error_def Let_def)

end
