(* ===== verification/Sequence_Storage.thy ===== *)
theory Sequence_Storage
  imports Map_Storage
begin

text \<open>
  The elders' storage of sequences (\<^verbatim>\<open>src/src/metadata/sequence_storage.rs\<close>), a client of the
  store of chunks like the storage of maps. The sequences themselves
  (\<^verbatim>\<open>sn_data_types::Sequence\<close>) are a parameter.
\<close>

section \<open>Sequences\<close>

datatype (plugins only: code size) SequenceAction = SequenceRead | SequenceAppend | SequenceAdmin

record seq_ext =
  seq_address :: "Sequence \<Rightarrow> SequenceAddress"
  seq_is_public :: "Sequence \<Rightarrow> bool"
  check_permission :: "Sequence \<Rightarrow> SequenceAction \<Rightarrow> PublicKey option \<Rightarrow> DtError + unit"
  public_policy :: "Sequence \<Rightarrow> DtError + SequencePolicy"
  private_policy :: "Sequence \<Rightarrow> PublicKey option \<Rightarrow> DtError + SequencePolicy"
  in_range :: "Sequence \<Rightarrow> SequenceIndex \<Rightarrow> SequenceIndex \<Rightarrow> PublicKey option \<Rightarrow> DtError + SequenceEntries option"
  last_entry :: "Sequence \<Rightarrow> PublicKey option \<Rightarrow> DtError + SequenceEntry option"
  seq_len :: "Sequence \<Rightarrow> PublicKey option \<Rightarrow> DtError + u64"
  seq_permissions :: "Sequence \<Rightarrow> SequenceUser \<Rightarrow> PublicKey option \<Rightarrow> DtError + SequencePermissions"
  apply_op :: "Sequence \<Rightarrow> SequenceOp \<Rightarrow> DtError + Sequence"

type_synonym sequence_api = "(Sequence, SequenceAddress) chunk_api"

text \<open>\<^verbatim>\<open>impl Chunk for Sequence\<close>.\<close>

definition sequence_chunk_id :: "seq_ext \<Rightarrow> Sequence \<Rightarrow> SequenceAddress" where
  "sequence_chunk_id Q s = seq_address Q s"

record SequenceStorage =
  ss_chunks :: ChunkStore

definition sequence_storage_new :: "sequence_api \<Rightarrow> root_io \<Rightarrow> add_io \<Rightarrow> dir \<Rightarrow> world \<Rightarrow> SequenceStorage result \<times> world" where
  "sequence_storage_new A rio aio path w = (case new A SequenceKind rio aio path w of
     (Inl e, w') \<Rightarrow> (Inl e, w')
   | (Inr cs, w') \<Rightarrow> (Inr \<lparr>ss_chunks = cs\<rparr>, w'))"

section \<open>Reading\<close>

definition seq_get_chunk :: "seq_ext \<Rightarrow> sequence_api \<Rightarrow> chunk_io \<Rightarrow> SequenceStorage \<Rightarrow> SequenceAddress \<Rightarrow> SequenceAction \<Rightarrow>
    EndUser \<Rightarrow> world \<Rightarrow> Sequence result" where
  "seq_get_chunk Q A io st address action origin w = and_then (get A (c_read io) (ss_chunks st) address w) (\<lambda>data.
     and_then (map_err NetworkData (check_permission Q data action (Some (end_user_id origin)))) (\<lambda>_. Inr data))"

definition seq_get :: "externals \<Rightarrow> seq_ext \<Rightarrow> sequence_api \<Rightarrow> chunk_io \<Rightarrow> SequenceStorage \<Rightarrow> SequenceAddress \<Rightarrow> MessageId \<Rightarrow>
    EndUser \<Rightarrow> world \<Rightarrow> NodeDuty result" where
  "seq_get E Q A io st address msg_id origin w =
     map_reply E GetSequenceResponse (seq_get_chunk Q A io st address SequenceRead origin w) msg_id origin"

definition seq_get_range :: "externals \<Rightarrow> seq_ext \<Rightarrow> sequence_api \<Rightarrow> chunk_io \<Rightarrow> SequenceStorage \<Rightarrow> SequenceAddress \<Rightarrow>
    SequenceIndex \<Rightarrow> SequenceIndex \<Rightarrow> MessageId \<Rightarrow> EndUser \<Rightarrow> world \<Rightarrow> NodeDuty result" where
  "seq_get_range E Q A io st address from to msg_id origin w =
     map_reply E GetSequenceRangeResponse (and_then (seq_get_chunk Q A io st address SequenceRead origin w) (\<lambda>sequence.
       and_then (map_err NetworkData (in_range Q sequence from to (Some (end_user_id origin))))
         (ok_or (NetworkData DtNoSuchEntry)))) msg_id origin"

definition seq_get_last_entry :: "externals \<Rightarrow> seq_ext \<Rightarrow> sequence_api \<Rightarrow> chunk_io \<Rightarrow> SequenceStorage \<Rightarrow> SequenceAddress \<Rightarrow>
    MessageId \<Rightarrow> EndUser \<Rightarrow> world \<Rightarrow> NodeDuty result" where
  "seq_get_last_entry E Q A io st address msg_id origin w =
     map_reply E GetSequenceLastEntryResponse (and_then (seq_get_chunk Q A io st address SequenceRead origin w) (\<lambda>sequence.
       and_then (map_err NetworkData (last_entry Q sequence (Some (end_user_id origin)))) (\<lambda>last. case last of
         Some entry \<Rightarrow> and_then (map_err NetworkData (seq_len Q sequence (Some (end_user_id origin)))) (\<lambda>n. Inr (n - 1, entry))
       | None \<Rightarrow> Inl (NetworkData DtNoSuchEntry)))) msg_id origin"

definition seq_get_owner :: "externals \<Rightarrow> seq_ext \<Rightarrow> sequence_api \<Rightarrow> chunk_io \<Rightarrow> SequenceStorage \<Rightarrow> SequenceAddress \<Rightarrow>
    MessageId \<Rightarrow> EndUser \<Rightarrow> world \<Rightarrow> NodeDuty result" where
  "seq_get_owner E Q A io st address msg_id origin w =
     map_reply E GetSequenceOwnerResponse (and_then (seq_get_chunk Q A io st address SequenceRead origin w) (\<lambda>sequence.
       if seq_is_public Q sequence
       then and_then (map_err NetworkData (public_policy Q sequence)) (\<lambda>policy. Inr (policy_owner policy))
       else and_then (map_err NetworkData (private_policy Q sequence (Some (end_user_id origin))))
         (\<lambda>policy. Inr (policy_owner policy)))) msg_id origin"

definition seq_get_user_permissions :: "externals \<Rightarrow> seq_ext \<Rightarrow> sequence_api \<Rightarrow> chunk_io \<Rightarrow> SequenceStorage \<Rightarrow> SequenceAddress \<Rightarrow>
    SequenceUser \<Rightarrow> MessageId \<Rightarrow> EndUser \<Rightarrow> world \<Rightarrow> NodeDuty result" where
  "seq_get_user_permissions E Q A io st address user msg_id origin w =
     map_reply E GetSequenceUserPermissionsResponse (and_then (seq_get_chunk Q A io st address SequenceRead origin w)
       (\<lambda>sequence. map_err NetworkData (seq_permissions Q sequence user (Some (end_user_id origin))))) msg_id origin"

definition seq_get_public_policy :: "externals \<Rightarrow> seq_ext \<Rightarrow> sequence_api \<Rightarrow> chunk_io \<Rightarrow> SequenceStorage \<Rightarrow> SequenceAddress \<Rightarrow>
    MessageId \<Rightarrow> EndUser \<Rightarrow> world \<Rightarrow> NodeDuty result" where
  "seq_get_public_policy E Q A io st address msg_id origin w =
     map_reply E GetSequencePublicPolicyResponse (and_then (seq_get_chunk Q A io st address SequenceRead origin w) (\<lambda>sequence.
       if seq_is_public Q sequence then map_err NetworkData (public_policy Q sequence)
       else Inl (NetworkData DtCrdtUnexpectedState))) msg_id origin"

definition seq_get_private_policy :: "externals \<Rightarrow> seq_ext \<Rightarrow> sequence_api \<Rightarrow> chunk_io \<Rightarrow> SequenceStorage \<Rightarrow> SequenceAddress \<Rightarrow>
    MessageId \<Rightarrow> EndUser \<Rightarrow> world \<Rightarrow> NodeDuty result" where
  "seq_get_private_policy E Q A io st address msg_id origin w =
     map_reply E GetSequencePrivatePolicyResponse (and_then (seq_get_chunk Q A io st address SequenceRead origin w) (\<lambda>sequence.
       if \<not> seq_is_public Q sequence then map_err NetworkData (private_policy Q sequence (Some (end_user_id origin)))
       else Inl (NetworkData DtCrdtUnexpectedState))) msg_id origin"

fun sequence_read :: "externals \<Rightarrow> seq_ext \<Rightarrow> sequence_api \<Rightarrow> chunk_io \<Rightarrow> SequenceStorage \<Rightarrow> SequenceRead \<Rightarrow> MessageId \<Rightarrow>
    EndUser \<Rightarrow> world \<Rightarrow> NodeDuty result" where
  "sequence_read E Q A io st (GetSeq address) msg_id origin w = seq_get E Q A io st address msg_id origin w"
| "sequence_read E Q A io st (GetRange address from to) msg_id origin w =
     seq_get_range E Q A io st address from to msg_id origin w"
| "sequence_read E Q A io st (GetLastEntry address) msg_id origin w = seq_get_last_entry E Q A io st address msg_id origin w"
| "sequence_read E Q A io st (GetOwner address) msg_id origin w = seq_get_owner E Q A io st address msg_id origin w"
| "sequence_read E Q A io st (GetUserPermissions address user) msg_id origin w =
     seq_get_user_permissions E Q A io st address user msg_id origin w"
| "sequence_read E Q A io st (GetPublicPolicy address) msg_id origin w =
     seq_get_public_policy E Q A io st address msg_id origin w"
| "sequence_read E Q A io st (GetPrivatePolicy address) msg_id origin w =
     seq_get_private_policy E Q A io st address msg_id origin w"

section \<open>Writing\<close>

text \<open>Unlike everywhere else, the error goes to the section of the user's name.\<close>

definition seq_ok_or_error :: "externals \<Rightarrow> unit result \<Rightarrow> MessageId \<Rightarrow> EndUser \<Rightarrow> NodeDuty result" where
  "seq_ok_or_error E result msg_id origin = (case result of
     Inr _ \<Rightarrow> Inr NoOp
   | Inl error \<Rightarrow> and_then (convert_to_error_message (texts E) error)
       (\<lambda>m. Inr (cmd_error_to E (CmdErrorData m) msg_id (DstSection (end_user_name E origin)))))"

definition seq_store :: "externals \<Rightarrow> seq_ext \<Rightarrow> sequence_api \<Rightarrow> chunk_io \<Rightarrow> SequenceStorage \<Rightarrow> Sequence \<Rightarrow> MessageId \<Rightarrow>
    EndUser \<Rightarrow> world \<Rightarrow> NodeDuty result \<times> world" where
  "seq_store E Q A io st data msg_id origin w =
     (let res = (if has A (c_meta io) (ss_chunks st) (seq_address Q data) w then (Inl DataExists, w)
                 else put A (c_put io) (ss_chunks st) data w)
      in (seq_ok_or_error E (fst res) msg_id origin, snd res))"

definition DELETE_UNSUPPORTED :: string where
  "DELETE_UNSUPPORTED = ''Sequence::check_permission() doesn't support Delete yet in safe-nd''"

definition seq_delete :: "externals \<Rightarrow> seq_ext \<Rightarrow> sequence_api \<Rightarrow> chunk_io \<Rightarrow> SequenceStorage \<Rightarrow> SequenceAddress \<Rightarrow> MessageId \<Rightarrow>
    EndUser \<Rightarrow> world \<Rightarrow> NodeDuty result \<times> world" where
  "seq_delete E Q A io st address msg_id origin w =
     (let checked = and_then (get A (c_read io) (ss_chunks st) address w) (\<lambda>sequence.
            if seq_address_is_public (seq_address Q sequence) then Inl (InvalidMessage msg_id DELETE_UNSUPPORTED)
            else and_then (map_err NetworkData (private_policy Q sequence (Some (end_user_id origin)))) (\<lambda>policy.
              if end_user_id origin \<noteq> policy_owner policy then Inl (InvalidOwners (end_user_id origin)) else Inr ()));
          res = (case checked of
            Inr _ \<Rightarrow> delete A (c_delete io) (ss_chunks st) address w
          | Inl error \<Rightarrow> (Inl error, w))
      in (seq_ok_or_error E (fst res) msg_id origin, snd res))"

definition seq_edit_chunk :: "seq_ext \<Rightarrow> sequence_api \<Rightarrow> chunk_io \<Rightarrow> SequenceStorage \<Rightarrow> SequenceAddress \<Rightarrow> SequenceAction \<Rightarrow>
    EndUser \<Rightarrow> (Sequence \<Rightarrow> Sequence result) \<Rightarrow> world \<Rightarrow> unit result \<times> world" where
  "seq_edit_chunk Q A io st address action origin write_fn w =
     (case and_then (seq_get_chunk Q A io st address action origin w) write_fn of
       Inl e \<Rightarrow> (Inl e, w)
     | Inr sequence \<Rightarrow> put A (c_put io) (ss_chunks st) sequence w)"

definition seq_edit :: "externals \<Rightarrow> seq_ext \<Rightarrow> sequence_api \<Rightarrow> chunk_io \<Rightarrow> SequenceStorage \<Rightarrow> SequenceOp \<Rightarrow> MessageId \<Rightarrow>
    EndUser \<Rightarrow> world \<Rightarrow> NodeDuty result \<times> world" where
  "seq_edit E Q A io st write_op msg_id origin w =
     (let res = seq_edit_chunk Q A io st (op_address write_op) SequenceAppend origin
            (\<lambda>sequence. map_err NetworkData (apply_op Q sequence write_op)) w
      in (seq_ok_or_error E (fst res) msg_id origin, snd res))"

fun sequence_write :: "externals \<Rightarrow> seq_ext \<Rightarrow> sequence_api \<Rightarrow> chunk_io \<Rightarrow> SequenceStorage \<Rightarrow> SequenceWrite \<Rightarrow> MessageId \<Rightarrow>
    EndUser \<Rightarrow> world \<Rightarrow> NodeDuty result \<times> world" where
  "sequence_write E Q A io st (NewSeq data) msg_id origin w = seq_store E Q A io st data msg_id origin w"
| "sequence_write E Q A io st (EditSeq operation) msg_id origin w = seq_edit E Q A io st operation msg_id origin w"
| "sequence_write E Q A io st (DeleteSeq address) msg_id origin w = seq_delete E Q A io st address msg_id origin w"

section \<open>What the writes do\<close>

definition seq_ext_ok :: "seq_ext \<Rightarrow> sequence_api \<Rightarrow> bool" where
  "seq_ext_ok Q A \<longleftrightarrow> chunk_id A = sequence_chunk_id Q \<and>
     (\<forall>s op s'. apply_op Q s op = Inr s' \<longrightarrow> seq_address Q s' = seq_address Q s)"

definition sequences_ok :: "seq_ext \<Rightarrow> sequence_api \<Rightarrow> SequenceStorage \<Rightarrow> world \<Rightarrow> bool" where
  "sequences_ok Q A st w \<longleftrightarrow> seq_ext_ok Q A \<and> store_ok A (ss_chunks st) w"

text \<open>The owner of a private sequence, as its policy names it to a user.\<close>

definition owns_sequence :: "seq_ext \<Rightarrow> Sequence \<Rightarrow> PublicKey \<Rightarrow> bool" where
  "owns_sequence Q s k \<longleftrightarrow> \<not> seq_address_is_public (seq_address Q s) \<and>
     (\<exists>policy. private_policy Q s (Some k) = Inr policy \<and> policy_owner policy = k)"

definition may_append :: "seq_ext \<Rightarrow> Sequence \<Rightarrow> SequenceOp \<Rightarrow> PublicKey \<Rightarrow> Sequence \<Rightarrow> bool" where
  "may_append Q s op k s' \<longleftrightarrow> check_permission Q s SequenceAppend (Some k) = Inr () \<and> apply_op Q s op = Inr s'"

lemma sequence_write_cases:
  assumes ext: "seq_ext_ok Q A" and step: "sequence_write E Q A io st wr msg_id origin w = (r, w')"
  obtains (refused) e where "w' = w" "r = seq_ok_or_error E (Inl e) msg_id origin"
  | (created) s e where "wr = NewSeq s" "\<not> has A (c_meta io) (ss_chunks st) (chunk_id A s) w"
    "put A (c_put io) (ss_chunks st) s w = (e, w')" "r = seq_ok_or_error E e msg_id origin"
  | (deleted) a s e where "wr = DeleteSeq a" "get A ReadOk (ss_chunks st) a w = Inr s" "owns_sequence Q s (end_user_id origin)"
    "delete A (c_delete io) (ss_chunks st) a w = (e, w')" "r = seq_ok_or_error E e msg_id origin"
  | (edited) op s s' e where "wr = EditSeq op" "get A ReadOk (ss_chunks st) (op_address op) w = Inr s"
    "may_append Q s op (end_user_id origin) s'" "chunk_id A s' = op_address op"
    "put A (c_put io) (ss_chunks st) s' w = (e, w')" "r = seq_ok_or_error E e msg_id origin"
proof (cases wr)
  case (NewSeq s)
  with step ext show ?thesis
    by (cases "has A (c_meta io) (ss_chunks st) (chunk_id A s) w")
      (auto simp: seq_store_def Let_def seq_ext_ok_def sequence_chunk_id_def prod_eq_iff
        intro: refused [of DataExists] created [of s "fst (put A (c_put io) (ss_chunks st) s w)"])
next
  case (EditSeq op)
  let ?f = "\<lambda>s. map_err NetworkData (apply_op Q s op)"
  show ?thesis
  proof (cases "and_then (seq_get_chunk Q A io st (op_address op) SequenceAppend origin w) ?f")
    case (Inl e)
    with EditSeq step show ?thesis by (intro refused [of e]) (simp_all add: seq_edit_def seq_edit_chunk_def)
  next
    case (Inr s')
    then obtain s where get: "get A (c_read io) (ss_chunks st) (op_address op) w = Inr s"
      and may: "may_append Q s op (end_user_id origin) s'"
      by (auto simp: seq_get_chunk_def and_then_Inr_iff may_append_def)
    have "chunk_id A s' = op_address op"
      using get_chunk_id [OF get] may ext by (auto simp: seq_ext_ok_def sequence_chunk_id_def may_append_def)
    with EditSeq step Inr get_any_read [OF get] may show ?thesis
      by (intro edited [of op s s' "fst (put A (c_put io) (ss_chunks st) s' w)"])
        (auto simp: seq_edit_def seq_edit_chunk_def Let_def prod_eq_iff)
  qed
next
  case (DeleteSeq a)
  show ?thesis
  proof (cases "get A (c_read io) (ss_chunks st) a w")
    case (Inl e)
    with DeleteSeq step show ?thesis by (intro refused [of e]) (simp_all add: seq_delete_def)
  next
    case (Inr s)
    show ?thesis
    proof (cases "owns_sequence Q s (end_user_id origin)")
      case True
      with DeleteSeq step Inr get_any_read [OF Inr] show ?thesis
        by (intro deleted [of a s "fst (delete A (c_delete io) (ss_chunks st) a w)"])
          (auto simp: seq_delete_def Let_def prod_eq_iff owns_sequence_def)
    next
      case False
      with DeleteSeq step Inr show ?thesis
        by (cases "private_policy Q s (Some (end_user_id origin))")
          (auto simp: seq_delete_def Let_def owns_sequence_def split: if_splits intro: refused)
    qed
  qed
qed

lemma sequence_write_ok:
  assumes "sequences_ok Q A st w"
  shows "sequences_ok Q A st (snd (sequence_write E Q A io st wr msg_id origin w))"
proof -
  have ext: "seq_ext_ok Q A" and ok: "store_ok A (ss_chunks st) w" using assms by (simp_all add: sequences_ok_def)
  obtain r w' where step: "sequence_write E Q A io st wr msg_id origin w = (r, w')" by (metis surj_pair)
  from ext step have "store_ok A (ss_chunks st) w'"
    by (cases rule: sequence_write_cases) (simp_all add: ok put_store_ok [OF _ ok] delete_store_ok [OF _ ok])
  with step ext show ?thesis by (simp add: sequences_ok_def)
qed

type_synonym sequence_request = "chunk_io \<times> SequenceWrite \<times> MessageId \<times> EndUser"

definition sequence_serve :: "externals \<Rightarrow> seq_ext \<Rightarrow> sequence_api \<Rightarrow> SequenceStorage \<Rightarrow> sequence_request \<Rightarrow> world \<Rightarrow>
    NodeDuty result \<times> world" where
  "sequence_serve E Q A st q w = (case q of (io, wr, msg_id, origin) \<Rightarrow> sequence_write E Q A io st wr msg_id origin w)"

text \<open>
  The requests that are entitled to change a given sequence, and those that need no entitlement,
  since their look-up of an existing file fails.
\<close>

definition may_change_sequence :: "seq_ext \<Rightarrow> sequence_request \<Rightarrow> SequenceAddress \<Rightarrow> Sequence \<Rightarrow> bool" where
  "may_change_sequence Q q a s = (case q of (io, wr, msg_id, origin) \<Rightarrow>
     wr = DeleteSeq a \<and> owns_sequence Q s (end_user_id origin) \<or>
     (\<exists>op s'. wr = EditSeq op \<and> op_address op = a \<and> may_append Q s op (end_user_id origin) s'))"

definition stores_unseen :: "seq_ext \<Rightarrow> sequence_request \<Rightarrow> SequenceAddress \<Rightarrow> bool" where
  "stores_unseen Q q a = (case q of (io, wr, msg_id, origin) \<Rightarrow>
     \<not> c_meta io \<and> (case wr of NewSeq s \<Rightarrow> seq_address Q s = a | _ \<Rightarrow> False))"

lemma seq_ext_address: "seq_ext_ok Q A \<Longrightarrow> seq_address Q s = chunk_id A s"
  by (simp add: seq_ext_ok_def sequence_chunk_id_def)

lemma sequence_serve_guard:
  assumes ok: "sequences_ok Q A st w" and at: "stored_at A (ss_chunks st) w a = Some s"
    and no: "\<not> may_change_sequence Q q a s" and seen: "\<not> stores_unseen Q q a"
  shows "stored_at A (ss_chunks st) (snd (sequence_serve E Q A st q w)) a = Some s"
proof -
  have ext: "seq_ext_ok Q A" and st: "store_ok A (ss_chunks st) w" using ok by (simp_all add: sequences_ok_def)
  obtain io wr msg_id origin where q: "q = (io, wr, msg_id, origin)" by (cases q) auto
  obtain r w' where step: "sequence_write E Q A io st wr msg_id origin w = (r, w')" by (metis surj_pair)
  have at': "get A ReadOk (ss_chunks st) a w = Inr s" using at by (simp add: stored_at_Some)
  from ext step have "stored_at A (ss_chunks st) w' a = Some s"
  proof (cases rule: sequence_write_cases)
    case (refused e)
    with at show ?thesis by simp
  next
    case (created s1 e)
    have "c_meta io \<or> a \<noteq> chunk_id A s1" using seen created(1) seq_ext_address [OF ext] by (auto simp: stores_unseen_def q)
    with created get_imp_has [OF at'] have "a \<noteq> chunk_id A s1" by metis
    with stored_put_other [OF created(3) st] at show ?thesis by simp
  next
    case (deleted b s1 e)
    have "a \<noteq> b" using no deleted(1-3) at' by (auto simp: may_change_sequence_def q)
    with stored_delete_other [OF deleted(4) st] at show ?thesis by simp
  next
    case (edited op s1 s2 e)
    have "a \<noteq> op_address op" using no edited(1-3) at' by (auto simp: may_change_sequence_def q)
    with stored_put_other [OF edited(5) st] edited(4) at show ?thesis by simp
  qed
  with step show ?thesis by (simp add: sequence_serve_def q)
qed

interpretation sequences: guarded_store "sequence_serve E Q A st" "stored_at A (ss_chunks st)" "sequences_ok Q A st"
  "\<lambda>q a s. may_change_sequence Q q a s \<or> stores_unseen Q q a" for E Q A st
  by unfold_locales
    (auto simp: sequence_serve_guard, auto simp: sequence_serve_def sequence_write_ok split: prod.splits)

section \<open>Properties\<close>

text \<open>
  C31. Sequences change only with permission: under any sequence of write commands, from whomever and
  whichever file accesses fail, a stored sequence that is no longer what it was has been changed
  by its owner's delete, if it is private, or by an append that its permissions grant the sender.
  There is one exception, for which the sender needs no permission: a command to store a sequence
  at the same address while the metadata of the existing file cannot be read.
\<close>

theorem sequences_change_only_when_permitted:
  assumes "sequences_ok Q A st w" and "stored_at A (ss_chunks st) w a = Some s"
    and "run_steps (sequence_serve E Q A st) qs w = (rs, w')" and "stored_at A (ss_chunks st) w' a \<noteq> Some s"
  shows "\<exists>q \<in> set qs. may_change_sequence Q q a s \<or> stores_unseen Q q a"
  using sequences.run_changed [OF assms(1,2), of E qs] assms(3,4) by simp

text \<open>The abstract specification of a successful write: the stored sequences as a function.\<close>

fun sequence_spec :: "seq_ext \<Rightarrow> SequenceWrite \<Rightarrow> PublicKey \<Rightarrow> (SequenceAddress \<Rightarrow> Sequence option) \<Rightarrow>
    (SequenceAddress \<Rightarrow> Sequence option) \<Rightarrow> bool" where
  "sequence_spec Q (NewSeq s) k before after \<longleftrightarrow>
     before (seq_address Q s) = None \<and> after = before(seq_address Q s \<mapsto> s)"
| "sequence_spec Q (DeleteSeq a) k before after \<longleftrightarrow>
     (\<exists>s. before a = Some s \<and> owns_sequence Q s k) \<and> after = before(a := None)"
| "sequence_spec Q (EditSeq op) k before after \<longleftrightarrow>
     (\<exists>s s'. before (op_address op) = Some s \<and> may_append Q s op k s' \<and> after = before(op_address op \<mapsto> s'))"

fun sequence_target :: "seq_ext \<Rightarrow> SequenceWrite \<Rightarrow> SequenceAddress" where
  "sequence_target Q (NewSeq s) = seq_address Q s"
| "sequence_target Q (DeleteSeq a) = a"
| "sequence_target Q (EditSeq op) = op_address op"

text \<open>
  C32. A write to a sequence that reports success has done what it should: a new sequence is stored
  at its address, which was free; a deleted one was private and its owner's, and is gone; an
  edited one is the result of an append that the stored sequence permits; and every other sequence
  is unchanged. This holds whichever file accesses fail, with two exceptions: when the metadata
  of the file cannot be read, a new sequence is stored although its address may have been taken,
  and the owner's delete reports success and changes no sequence. A write that does not report
  success leaves every sequence unchanged but the one it is about.
\<close>

theorem sequence_write_refines:
  assumes "sequences_ok Q A st w" and "sequence_write E Q A io st wr msg_id origin w = (r, w')"
    and "before = stored_at A (ss_chunks st) w" and "after = stored_at A (ss_chunks st) w'"
  shows "(r = Inr NoOp \<longrightarrow> sequence_spec Q wr (end_user_id origin) before after \<or>
      \<not> c_meta io \<and> (\<exists>s. wr = NewSeq s \<and> after = before(seq_address Q s \<mapsto> s)) \<or>
      \<not> metadata_ok (c_delete io) \<and>
        (\<exists>a s. wr = DeleteSeq a \<and> before a = Some s \<and> owns_sequence Q s (end_user_id origin) \<and> after = before)) \<and>
    (\<forall>a. a \<noteq> sequence_target Q wr \<longrightarrow> after a = before a)"
proof -
  have ext: "seq_ext_ok Q A" and st: "store_ok A (ss_chunks st) w" using assms(1) by (simp_all add: sequences_ok_def)
  have okE: "e = Inr ()" if "Inr NoOp = seq_ok_or_error E e msg_id origin" for e
    using that by (cases e) (auto simp: seq_ok_or_error_def and_then_def split: sum.splits)
  from ext assms(2) show ?thesis
  proof (cases rule: sequence_write_cases)
    case (refused e)
    with okE [of "Inl e"] assms(3,4) show ?thesis by auto
  next
    case (created s e)
    then have "after = before(seq_address Q s \<mapsto> s)" if "r = Inr NoOp"
      using stored_put_same [of A _ "ss_chunks st" s w w'] okE that st assms(3,4) by (simp add: seq_ext_address [OF ext])
    moreover have "before (seq_address Q s) = None" if "c_meta io"
      using not_has_stored created(2) that assms(3) by (simp add: seq_ext_address [OF ext])
    ultimately show ?thesis
      using created(1) stored_put_other [OF created(3) st] assms(3,4) by (auto simp: seq_ext_address [OF ext])
  next
    case (deleted a s e)
    have own: "before a = Some s" using deleted(2) assms(3) by (simp add: stored_at_Some)
    have "after = (if metadata_ok (c_delete io) then before(a := None) else before)" if "r = Inr NoOp"
      using stored_delete_same [of A _ "ss_chunks st" a w w'] delete_unseen_same [of A _ "ss_chunks st" a w w'] deleted(4,5)
        okE that st assms(3,4) by auto
    then show ?thesis
      using own deleted(1,3) stored_delete_other [OF deleted(4) st] assms(3,4) by auto
  next
    case (edited op s s' e)
    have "before (op_address op) = Some s" using edited(2) assms(3) by (simp add: stored_at_Some)
    moreover have "after = before(op_address op \<mapsto> s')" if "r = Inr NoOp"
      using stored_put_same [of A _ "ss_chunks st" s' w w'] edited(4-6) okE that st assms(3,4) by auto
    ultimately show ?thesis
      using edited(1,3,4) stored_put_other [OF edited(5) st] assms(3,4) by auto
  qed
qed

text \<open>
  A refused delete is answered to the section of the sender's name and not to the sender, unlike for
  any other type of data.
\<close>

lemma non_owner_delete_answered_to_section:
  assumes "stored_at A (ss_chunks st) w a = Some s" and "c_read io = ReadOk"
    and "\<not> seq_address_is_public (seq_address Q s)" and "private_policy Q s (Some (end_user_id origin)) = Inr policy"
    and "policy_owner policy \<noteq> end_user_id origin"
  shows "sequence_write E Q A io st (DeleteSeq a) msg_id origin w =
    (Inr (cmd_error_to E (CmdErrorData (EmInvalidOwners (end_user_id origin))) msg_id (DstSection (end_user_name E origin))), w)"
  using assms by (simp add: stored_at_Some seq_delete_def seq_ok_or_error_def convert_to_error_message_def)

text \<open>
  The delete of a public sequence ends in an internal error, whoever asks: the sequence is kept,
  and the sender gets no reply at all, since the error has no message for clients.
\<close>

theorem public_sequence_delete_unanswered:
  assumes "stored_at A (ss_chunks st) w a = Some s" and "seq_address_is_public (seq_address Q s)" and "c_read io = ReadOk"
  shows "sequence_write E Q A io st (DeleteSeq a) msg_id origin w =
    (Inl (NoErrorMapping (to_string (texts E) (InvalidMessage msg_id DELETE_UNSUPPORTED))), w)"
  using assms by (simp add: stored_at_Some seq_delete_def seq_ok_or_error_def convert_to_error_message_def)

section \<open>Witnesses\<close>

text \<open>Sequences of one digit; addresses below ten are public, others private and owned by the user of key 1.\<close>

definition digit_seq_address :: "nat \<Rightarrow> SequenceAddress" where
  "digit_seq_address n = (if n < 10 then SeqPublicAddr (of_nat n) 0 else SeqPrivateAddr (of_nat n) 0)"

definition digit_seqs :: seq_ext where
  "digit_seqs = \<lparr>seq_address = (\<lambda>s. case s of Sequence n \<Rightarrow> digit_seq_address (n div 10)),
     seq_is_public = (\<lambda>s. case s of Sequence n \<Rightarrow> n < 100),
     check_permission = (\<lambda>s a k. case k of Some k \<Rightarrow> owner_only k | None \<Rightarrow> Inl DtInvalidOperation),
     public_policy = (\<lambda>s. Inr \<lparr>policy_owner = Ed25519 1, policy_permissions = 0\<rparr>),
     private_policy = (\<lambda>s k. Inr \<lparr>policy_owner = Ed25519 1, policy_permissions = 0\<rparr>),
     in_range = (\<lambda>s i j k. Inr None), last_entry = (\<lambda>s k. Inr (Some [])), seq_len = (\<lambda>s k. Inr 1),
     seq_permissions = (\<lambda>s u k. Inr 0),
     apply_op = (\<lambda>s op. case s of Sequence n \<Rightarrow> Inr (Sequence (10 * (n div 10) + length (op_entry op) mod 10)))\<rparr>"

fun digit_seq_serialise :: "Sequence \<Rightarrow> bytes option" where
  "digit_seq_serialise (Sequence n) = (if n < 250 then Some [of_nat n] else None)"

fun digit_seq_serialise_id :: "SequenceAddress \<Rightarrow> bytes option" where
  "digit_seq_serialise_id (SeqPublicAddr n t) = (if n < 256 \<and> t = 0 then Some [0, ucast n] else None)"
| "digit_seq_serialise_id (SeqPrivateAddr n t) = (if n < 256 \<and> t = 0 then Some [1, ucast n] else None)"

definition digit_seq_deserialise_id :: "bytes \<Rightarrow> SequenceAddress option" where
  "digit_seq_deserialise_id b = (case b of
     [k, n] \<Rightarrow> if k = 0 then Some (SeqPublicAddr (ucast n) 0) else Some (SeqPrivateAddr (ucast n) 0)
   | _ \<Rightarrow> None)"

definition digit_seq_api :: sequence_api where
  "digit_seq_api = \<lparr>serialise = digit_seq_serialise,
     deserialise = (\<lambda>b. case b of [x] \<Rightarrow> Some (Sequence (unat x)) | _ \<Rightarrow> None),
     chunk_id = sequence_chunk_id digit_seqs, serialise_id = digit_seq_serialise_id,
     deserialise_id = digit_seq_deserialise_id, hex_encode = hex_of, hex_decode = of_hex, u64_code = le_codec\<rparr>"

lemma digit_seq_api_ok: "api_ok digit_seq_api"
proof -
  have "unat (of_nat n :: u8) = n" if "n < 250" for n using that by (intro unat_of_nat_eq) simp
  moreover have "digit_seq_deserialise_id b = Some i" if "digit_seq_serialise_id i = Some b" for b i
    using that by (cases i) (auto simp: digit_seq_deserialise_id_def ucast_small split: if_splits)
  ultimately show ?thesis
    unfolding api_ok_def digit_seq_api_def
    by (auto simp: le_codec_ok of_hex_of dest: of_hex_digits elim!: digit_seq_serialise.elims split: if_splits)
qed

lemma digit_seq_ext_ok: "seq_ext_ok digit_seqs digit_seq_api"
  by (auto simp: seq_ext_ok_def digit_seq_api_def) (auto simp: digit_seqs_def split: Sequence.splits)

definition sequence_store :: SequenceStorage where
  "sequence_store = \<lparr>ss_chunks = store_a\<rparr>"

text \<open>The public sequence 3 at address 1, the private sequence 3 at address 15.\<close>

definition world_q :: world where
  "world_q = world_a\<lparr>disk := (([''a''], ''0001''), [13]) # (([''a''], ''010f''), [153]) # disk world_a\<rparr>"

lemma world_q_ok: "sequences_ok digit_seqs digit_seq_api sequence_store world_q"
  using world_a_sound
  by (simp add: sequences_ok_def digit_seq_ext_ok sequence_store_def sound_store_def store_ok_def digit_seq_api_ok world_q_def)

lemma hex_seq: "hex_of [0, 1] = ''0001''" "hex_of [1, 15] = ''010f''" "to_digit 15 = CHR ''f''"
  by code_simp+

lemma world_q_stored:
  "stored_at digit_seq_api (ss_chunks sequence_store) world_q (SeqPublicAddr 1 0) = Some (Sequence 13)"
  "stored_at digit_seq_api (ss_chunks sequence_store) world_q (SeqPrivateAddr 15 0) = Some (Sequence 153)"
  by (simp_all add: stored_at_def get_def file_path_def digit_seq_api_def sequence_store_def store_a_def world_q_def
      world_a_def hex_seq digit_seqs_def sequence_chunk_id_def digit_seq_address_def)

theorem public_sequence_delete_unanswered_witness:
  "sequence_write example_ext digit_seqs digit_seq_api io_fine sequence_store (DeleteSeq (SeqPublicAddr 1 0)) 3 alice world_q =
    (Inl (NoErrorMapping (to_string (texts example_ext) (InvalidMessage 3 DELETE_UNSUPPORTED))), world_q)"
  by (rule public_sequence_delete_unanswered [OF world_q_stored(1)])
    (simp_all add: digit_seqs_def digit_seq_address_def io_fine_def)

definition sequence_run :: "NodeDuty result list \<times> world" where
  "sequence_run = run_steps (sequence_serve example_ext digit_seqs digit_seq_api sequence_store)
     [(io_fine, DeleteSeq (SeqPrivateAddr 15 0), 1, alice)] world_q"

lemma sequence_run_deletes:
  "delete digit_seq_api delete_fine store_a (SeqPrivateAddr 15 0) world_q = (Inr (), snd sequence_run)"
  "sequence_write example_ext digit_seqs digit_seq_api io_fine sequence_store (DeleteSeq (SeqPrivateAddr 15 0)) 1 alice world_q =
    (Inr NoOp, snd sequence_run)"
proof -
  let ?del = "delete digit_seq_api delete_fine store_a (SeqPrivateAddr 15 0) world_q"
  have "get digit_seq_api ReadOk store_a (SeqPrivateAddr 15 0) world_q = Inr (Sequence 153)"
    using world_q_stored(2) by (simp add: stored_at_Some sequence_store_def)
  then have step: "sequence_write example_ext digit_seqs digit_seq_api io_fine sequence_store (DeleteSeq (SeqPrivateAddr 15 0)) 1
      alice world_q = (seq_ok_or_error example_ext (fst ?del) 1 alice, snd ?del)"
    by (simp add: seq_delete_def sequence_store_def io_fine_def alice_def Let_def)
      (simp add: digit_seqs_def digit_seq_address_def)
  have ok: "fst ?del = Inr ()"
    by (simp add: delete_def file_path_def digit_seq_api_def hex_seq do_delete_def delete_fine_def store_a_def world_q_def
        world_a_def decrease_def write_local_to_file_def saturating_sub_def Let_def)
  have run: "snd sequence_run = snd ?del" using step by (simp add: sequence_run_def sequence_serve_def)
  with ok show "?del = (Inr (), snd sequence_run)" by (simp add: prod_eq_iff)
  show "sequence_write example_ext digit_seqs digit_seq_api io_fine sequence_store (DeleteSeq (SeqPrivateAddr 15 0)) 1 alice world_q =
      (Inr NoOp, snd sequence_run)"
    using step ok run by (simp add: seq_ok_or_error_def)
qed

theorem sequence_write_refines_witness:
  "stored_at digit_seq_api (ss_chunks sequence_store) (snd sequence_run) =
    (stored_at digit_seq_api (ss_chunks sequence_store) world_q)(SeqPrivateAddr 15 0 := None)"
  using sequence_write_refines [OF world_q_ok sequence_run_deletes(2) refl refl] by (simp add: io_fine_def delete_fine_def)

theorem sequences_change_only_when_permitted_witness:
  "may_change_sequence digit_seqs (io_fine, DeleteSeq (SeqPrivateAddr 15 0), 1, alice) (SeqPrivateAddr 15 0) (Sequence 153)"
proof -
  have "store_ok digit_seq_api store_a world_q" using world_q_ok by (simp add: sequences_ok_def sequence_store_def)
  from delete_get_same [OF sequence_run_deletes(1) this]
  have "stored_at digit_seq_api (ss_chunks sequence_store) (snd sequence_run) (SeqPrivateAddr 15 0) \<noteq> Some (Sequence 153)"
    by (simp add: stored_at_def sequence_store_def delete_fine_def)
  from sequences_change_only_when_permitted [OF world_q_ok world_q_stored(2) _ this, of example_ext
      "[(io_fine, DeleteSeq (SeqPrivateAddr 15 0), 1, alice)]" "fst sequence_run"]
  show ?thesis by (simp add: sequence_run_def stores_unseen_def)
qed

end
