(* ===== verification/Metadata.thy ===== *)
theory Metadata
  imports Blob_Register_Correct Sequence_Storage
begin

text \<open>
  The metadata module of an elder (\<^verbatim>\<open>src/src/metadata/mod.rs\<close>, \<^verbatim>\<open>elder_stores.rs\<close>, \<^verbatim>\<open>reading.rs\<close>,
  \<^verbatim>\<open>writing.rs\<close>): the register of blobs, the storage of maps and the storage of sequences, and the
  dispatch of commands and queries to them. The two storages share the disk and the record of
  used space.
\<close>

record ('m, 'h) ElderStores =
  blob_register :: "('m, 'h) holder_dbs"
  map_storage :: MapStorage
  sequence_storage :: SequenceStorage

text \<open>The parameters of the three stores.\<close>

record ('m, 'h) metadata_api =
  md_register :: "('m, 'h) register_api"
  md_maps :: map_ext
  md_map_chunks :: map_api
  md_seqs :: seq_ext
  md_seq_chunks :: sequence_api

definition metadata_new :: "('m, 'h) metadata_api \<Rightarrow> root_io \<times> add_io \<Rightarrow> root_io \<times> add_io \<Rightarrow> dir \<Rightarrow> ('m, 'h) holder_dbs \<Rightarrow>
    world \<Rightarrow> ('m, 'h) ElderStores result \<times> world" where
  "metadata_new P mio sio path dbs w = (case map_storage_new (md_map_chunks P) (fst mio) (snd mio) path w of
     (Inl e, w1) \<Rightarrow> (Inl e, w1)
   | (Inr maps, w1) \<Rightarrow> (case sequence_storage_new (md_seq_chunks P) (fst sio) (snd sio) path w1 of
       (Inl e, w2) \<Rightarrow> (Inl e, w2)
     | (Inr seqs, w2) \<Rightarrow> (Inr \<lparr>blob_register = dbs, map_storage = maps, sequence_storage = seqs\<rparr>, w2)))"

fun metadata_read :: "externals \<Rightarrow> ('m, 'h) metadata_api \<Rightarrow> chunk_io \<Rightarrow> DataQuery \<Rightarrow> MessageId \<Rightarrow> EndUser \<Rightarrow>
    ('m, 'h) ElderStores \<Rightarrow> world \<Rightarrow> NodeDuty result" where
  "metadata_read E P io (BlobQuery rd) msg_id origin stores w =
     blob_reg_read E (md_register P) rd msg_id origin (blob_register stores)"
| "metadata_read E P io (MapQuery rd) msg_id origin stores w =
     map_read E (md_maps P) (md_map_chunks P) io (map_storage stores) rd msg_id origin w"
| "metadata_read E P io (SequenceQuery rd) msg_id origin stores w =
     sequence_read E (md_seqs P) (md_seq_chunks P) io (sequence_storage stores) rd msg_id origin w"

fun metadata_write :: "externals \<Rightarrow> ('m, 'h) metadata_api \<Rightarrow> chunk_io \<Rightarrow> DataCmd \<Rightarrow> MessageId \<Rightarrow> EndUser \<Rightarrow>
    ('m, 'h) ElderStores \<times> world \<Rightarrow> NodeDuty result \<times> ('m, 'h) ElderStores \<times> world" where
  "metadata_write E P io (BlobCmd wr) msg_id origin (stores, w) =
     (let res = blob_reg_write E (md_register P) wr msg_id origin (blob_register stores)
      in (fst res, stores\<lparr>blob_register := snd res\<rparr>, w))"
| "metadata_write E P io (MapCmd wr) msg_id origin (stores, w) =
     (let res = map_write E (md_maps P) (md_map_chunks P) io (map_storage stores) wr msg_id origin w
      in (fst res, stores, snd res))"
| "metadata_write E P io (SequenceCmd wr) msg_id origin (stores, w) =
     (let res = sequence_write E (md_seqs P) (md_seq_chunks P) io (sequence_storage stores) wr msg_id origin w
      in (fst res, stores, snd res))"

definition trigger_chunk_replication :: "externals \<Rightarrow> ('m, 'h) metadata_api \<Rightarrow> XorName \<Rightarrow>
    ('m, 'h) ElderStores \<Rightarrow> NodeDuties result \<times> ('m, 'h) ElderStores" where
  "trigger_chunk_replication E P node stores =
     (let res = replicate_chunks E (md_register P) node (blob_register stores)
      in (fst res, stores\<lparr>blob_register := snd res\<rparr>))"

section \<open>One store does not touch the other\<close>

text \<open>
  An operation on one store of chunks leaves every other directory alone and keeps the other
  stores registered.
\<close>

definition elsewhere :: "ChunkStore \<Rightarrow> world \<Rightarrow> world \<Rightarrow> bool" where
  "elsewhere cs w w' \<longleftrightarrow> records w' = records w \<and>
     (\<forall>p. fst p \<noteq> cs_dir cs \<longrightarrow> fs_read (disk w') p = fs_read (disk w) p)"

lemma elsewhere_refl [simp]: "elsewhere cs w w"
  by (simp add: elsewhere_def)

lemma file_path_dir: "file_path A cs i = Inr p \<Longrightarrow> fst p = cs_dir cs"
  by (auto simp: file_path_Inr_iff)

lemma do_delete_records: "do_delete A io cs p w = (r, w') \<Longrightarrow> records w' = records w"
  by (auto simp: do_delete_def split: option.splits if_splits sum.splits prod.splits dest: decrease_frame(1))

lemma put_records: "put A io cs c w = (r, w') \<Longrightarrow> records w' = records w"
  by (erule put_cases) (auto dest!: do_delete_records increase_frame(1) decrease_frame(1))

lemma elsewhere_put:
  assumes "put A io cs c w = (r, w')" and "store_ok A cs w"
  shows "elsewhere cs w w'"
  unfolding elsewhere_def
  using put_records [OF assms(1)] put_read_frame [OF assms] file_path_dir [of A cs "chunk_id A c"] by fastforce

lemma elsewhere_delete:
  assumes "delete A io cs i w = (r, w')" and "store_ok A cs w"
  shows "elsewhere cs w w'"
proof (cases "file_path A cs i")
  case (Inl e)
  with assms(1) show ?thesis by (simp add: delete_def)
next
  case (Inr p)
  with assms(1) have del: "do_delete A io cs p w = (r, w')" by (simp add: delete_def)
  have "q \<noteq> p \<and> q \<noteq> (cs_dir cs, USED_SPACE_FILENAME)" if "fst q \<noteq> cs_dir cs" for q
    using that file_path_dir [OF Inr] by auto
  with do_delete_records [OF del] do_delete_frame(2) [OF del assms(2)] show ?thesis
    by (simp add: elsewhere_def)
qed

lemma elsewhere_stored:
  assumes "elsewhere cs w w'" and "cs_dir cs \<noteq> cs_dir other"
  shows "stored_at A other w' = stored_at A other w"
    and "records w' (cs_id other) = records w (cs_id other)"
proof -
  have "get A ReadOk other i w' = get A ReadOk other i w" for i
    using assms file_path_dir [of A other i] by (intro get_cong_read) (auto simp: elsewhere_def)
  then show "stored_at A other w' = stored_at A other w" by (simp add: stored_at_def fun_eq_iff)
  show "records w' (cs_id other) = records w (cs_id other)" using assms by (simp add: elsewhere_def)
qed

lemma map_write_elsewhere:
  assumes "maps_ok M A st w" and "map_write E M A io st wr msg_id origin w = (r, w')"
  shows "elsewhere (ms_chunks st) w w'"
proof -
  have ext: "map_ext_ok M A" and ok: "store_ok A (ms_chunks st) w" using assms(1) by (simp_all add: maps_ok_def)
  from ext assms(2) show ?thesis
    by (cases rule: map_write_cases) (simp_all add: elsewhere_put [OF _ ok] elsewhere_delete [OF _ ok])
qed

lemma sequence_write_elsewhere:
  assumes "sequences_ok Q A st w" and "sequence_write E Q A io st wr msg_id origin w = (r, w')"
  shows "elsewhere (ss_chunks st) w w'"
proof -
  have ext: "seq_ext_ok Q A" and ok: "store_ok A (ss_chunks st) w" using assms(1) by (simp_all add: sequences_ok_def)
  from ext assms(2) show ?thesis
    by (cases rule: sequence_write_cases) (simp_all add: elsewhere_put [OF _ ok] elsewhere_delete [OF _ ok])
qed

section \<open>The invariant of the module\<close>

definition md_wf :: "('m, 'h) metadata_api \<Rightarrow> ('m, 'h) ElderStores \<Rightarrow> world \<Rightarrow> bool" where
  "md_wf P stores w \<longleftrightarrow> maps_ok (md_maps P) (md_map_chunks P) (map_storage stores) w \<and>
     sequences_ok (md_seqs P) (md_seq_chunks P) (sequence_storage stores) w \<and>
     cs_dir (ms_chunks (map_storage stores)) \<noteq> cs_dir (ss_chunks (sequence_storage stores))"

text \<open>What each of the three stores holds.\<close>

definition contents :: "('m, 'h) metadata_api \<Rightarrow> ('m, 'h) ElderStores \<times> world \<Rightarrow>
    ('m, 'h) holder_dbs \<times> (MapAddress \<Rightarrow> Map option) \<times> (SequenceAddress \<Rightarrow> Sequence option)" where
  "contents P sw = (blob_register (fst sw),
     stored_at (md_map_chunks P) (ms_chunks (map_storage (fst sw))) (snd sw),
     stored_at (md_seq_chunks P) (ss_chunks (sequence_storage (fst sw))) (snd sw))"

lemma store_ok_elsewhere:
  "elsewhere cs w w' \<Longrightarrow> cs_dir cs \<noteq> cs_dir other \<Longrightarrow> store_ok A other w \<Longrightarrow> store_ok B cs w' \<Longrightarrow> store_ok A other w'"
  using elsewhere_stored(2) [of cs w w' other] by (simp add: store_ok_def)

text \<open>
  C33. The three data types are isolated from each other: a command about one of them changes neither
  the register of blobs nor what is stored of the other types, although maps and sequences share
  the disk and the space record; and every command keeps the module well-formed.
\<close>

theorem data_types_isolated:
  assumes "md_wf P stores w" and "metadata_write E P io cmd msg_id origin (stores, w) = (r, stores', w')"
  shows "md_wf P stores' w' \<and> (case cmd of
     BlobCmd _ \<Rightarrow> snd (contents P (stores', w')) = snd (contents P (stores, w)) \<and> w' = w
   | MapCmd _ \<Rightarrow> fst (contents P (stores', w')) = fst (contents P (stores, w)) \<and>
       snd (snd (contents P (stores', w'))) = snd (snd (contents P (stores, w)))
   | SequenceCmd _ \<Rightarrow> fst (contents P (stores', w')) = fst (contents P (stores, w)) \<and>
       fst (snd (contents P (stores', w'))) = fst (snd (contents P (stores, w))))"
proof (cases cmd)
  case (BlobCmd wr)
  with assms show ?thesis by (auto simp: Let_def contents_def md_wf_def)
next
  case (MapCmd wr)
  with assms(2) have st: "stores' = stores"
    and step: "map_write E (md_maps P) (md_map_chunks P) io (map_storage stores) wr msg_id origin w = (r, w')"
    by (auto simp: Let_def)
  have ok: "maps_ok (md_maps P) (md_map_chunks P) (map_storage stores) w"
    and dir: "cs_dir (ms_chunks (map_storage stores)) \<noteq> cs_dir (ss_chunks (sequence_storage stores))"
    using assms(1) by (simp_all add: md_wf_def)
  have ok': "maps_ok (md_maps P) (md_map_chunks P) (map_storage stores) w'"
    using map_write_maps_ok [OF ok, of E io wr msg_id origin] step by simp
  note e = map_write_elsewhere [OF ok step]
  have "store_ok (md_seq_chunks P) (ss_chunks (sequence_storage stores)) w'"
    by (rule store_ok_elsewhere [OF e dir]) (use assms(1) ok' in \<open>auto simp: md_wf_def sequences_ok_def maps_ok_def\<close>)
  with ok' assms(1) MapCmd st elsewhere_stored(1) [OF e dir] show ?thesis
    by (simp add: contents_def md_wf_def sequences_ok_def)
next
  case (SequenceCmd wr)
  with assms(2) have st: "stores' = stores"
    and step: "sequence_write E (md_seqs P) (md_seq_chunks P) io (sequence_storage stores) wr msg_id origin w = (r, w')"
    by (auto simp: Let_def)
  have ok: "sequences_ok (md_seqs P) (md_seq_chunks P) (sequence_storage stores) w"
    and dir: "cs_dir (ss_chunks (sequence_storage stores)) \<noteq> cs_dir (ms_chunks (map_storage stores))"
    using assms(1) by (auto simp: md_wf_def)
  have ok': "sequences_ok (md_seqs P) (md_seq_chunks P) (sequence_storage stores) w'"
    using sequence_write_ok [OF ok, of E io wr msg_id origin] step by simp
  note e = sequence_write_elsewhere [OF ok step]
  have "store_ok (md_map_chunks P) (ms_chunks (map_storage stores)) w'"
    by (rule store_ok_elsewhere [OF e dir]) (use assms(1) ok' in \<open>auto simp: md_wf_def sequences_ok_def maps_ok_def\<close>)
  with ok' assms(1) SequenceCmd st elsewhere_stored(1) [OF e dir] show ?thesis
    by (simp add: contents_def md_wf_def maps_ok_def)
qed

section \<open>Witness\<close>

definition toy_api :: "(string \<Rightarrow> ChunkMetadata option, string \<Rightarrow> HolderMetadata option) metadata_api" where
  "toy_api = \<lparr>md_register = toy_register [1, 2], md_maps = digit_maps, md_map_chunks = digit_api,
     md_seqs = digit_seqs, md_seq_chunks = digit_seq_api\<rparr>"

definition toy_stores :: "(string \<Rightarrow> ChunkMetadata option, string \<Rightarrow> HolderMetadata option) ElderStores" where
  "toy_stores = \<lparr>blob_register = toy_dbs, map_storage = map_store,
     sequence_storage = \<lparr>ss_chunks = \<lparr>cs_dir = [''b''], cs_id = 1\<rparr>\<rparr>\<rparr>"

definition world_two :: world where
  "world_two = \<lparr>disk = [(([''a''], USED_SPACE_FILENAME), le_bytes 0), (([''b''], USED_SPACE_FILENAME), le_bytes 1),
       (([''b''], ''0001''), [13])],
     space = \<lparr>max_capacity = 10, total_value = 1,
       local_stores = [(0, \<lparr>local_value = 0, local_record = ([''a''], USED_SPACE_FILENAME)\<rparr>),
         (1, \<lparr>local_value = 1, local_record = ([''b''], USED_SPACE_FILENAME)\<rparr>)], next_id = 2\<rparr>\<rparr>"

lemma world_two_wf: "md_wf toy_api toy_stores world_two"
  by (simp add: md_wf_def maps_ok_def sequences_ok_def store_ok_def toy_api_def toy_stores_def map_store_def store_a_def
      world_two_def digit_ext_ok digit_seq_ext_ok digit_api_ok digit_seq_api_ok records_def space_wf_def)

theorem data_types_isolated_witness:
  "snd (snd (contents toy_api (snd (metadata_write example_ext toy_api io_fine (MapCmd (NewMap (SeqMap 19))) 1 alice (toy_stores, world_two)))))
     (SeqPublicAddr 1 0) = Some (Sequence 13)"
proof -
  have "stored_at digit_seq_api \<lparr>cs_dir = [''b''], cs_id = 1\<rparr> world_two (SeqPublicAddr 1 0) = Some (Sequence 13)"
    by (simp add: stored_at_def get_def file_path_def digit_seq_api_def world_two_def hex_seq digit_seqs_def
        sequence_chunk_id_def digit_seq_address_def USED_SPACE_FILENAME_def)
  then show ?thesis
    using data_types_isolated [OF world_two_wf, of example_ext io_fine "MapCmd (NewMap (SeqMap 19))" 1 alice]
    by (cases "metadata_write example_ext toy_api io_fine (MapCmd (NewMap (SeqMap 19))) 1 alice (toy_stores, world_two)")
      (simp add: contents_def toy_api_def toy_stores_def)
qed

end
