(* ===== verification/Transfer_Store.thy ===== *)
theory Transfer_Store
  imports Blob_Register Used_Space
begin

text \<open>
  The store of the events of one wallet (\<^verbatim>\<open>src/src/transfers/store.rs\<close>) and the opening of its
  database (\<^verbatim>\<open>src/src/utils.rs\<close>). Events are numbered by the decimal form of their position. The
  database (\<^verbatim>\<open>PickleDb\<close> with automatic dump) is a parameter: a handle \<open>'db\<close> in memory, written
  through to the disk \<open>'d\<close>; what is relied on is \<open>events_db_ok\<close>. What a file holds (\<open>ev_content\<close>) and
  whether it can be loaded (\<open>load_bin\<close>) are different things; that no load of an existing
  database fails is a condition of its own, \<open>databases_load\<close>. A store of events as such is the locale
  \<open>event_log\<close>.
\<close>

section \<open>The database\<close>

record ('db, 'd, 'e) events_db =
  ev_get :: "'db \<Rightarrow> string \<Rightarrow> 'e option"
  ev_get_all :: "'db \<Rightarrow> string list"
  ev_total_keys :: "'db \<Rightarrow> nat"
  ev_exists :: "'db \<Rightarrow> string \<Rightarrow> bool"
  ev_set :: "string \<Rightarrow> 'e \<Rightarrow> 'db \<Rightarrow> 'd \<Rightarrow> bool \<times> 'db \<times> 'd"
  load_bin :: "dir \<Rightarrow> string \<Rightarrow> 'd \<Rightarrow> 'db option"
  new_bin :: "dir \<Rightarrow> string \<Rightarrow> 'db"
  dump :: "'db \<Rightarrow> 'd \<Rightarrow> bool \<times> 'd"
  create_dir_all :: "dir \<Rightarrow> 'd \<Rightarrow> bool \<times> 'd"
  ev_file :: "'db \<Rightarrow> dir \<times> string"
  ev_content :: "dir \<Rightarrow> string \<Rightarrow> 'd \<Rightarrow> 'db option"

text \<open>\<^verbatim>\<open>utils::new_auto_dump_db\<close>: any failure to load is taken for a missing database.\<close>

definition new_auto_dump_db :: "('db, 'd, 'e) events_db \<Rightarrow> dir \<Rightarrow> string \<Rightarrow> 'd \<Rightarrow> 'db result \<times> 'd" where
  "new_auto_dump_db D db_dir db_name d = (case load_bin D db_dir db_name d of
     Some db \<Rightarrow> (Inr db, d)
   | None \<Rightarrow> (case create_dir_all D db_dir d of
       (False, d1) \<Rightarrow> (Inl Io, d1)
     | (True, d1) \<Rightarrow> (case dump D (new_bin D db_dir db_name) d1 of
         (False, d2) \<Rightarrow> (Inl PickleDb, d2)
       | (True, d2) \<Rightarrow> (ok_or PickleDb (load_bin D db_dir db_name d2), d2))))"

section \<open>The store of a wallet\<close>

definition TRANSFERS_DIR_NAME :: string where
  "TRANSFERS_DIR_NAME = ''transfers''"

definition DB_EXTENSION :: string where
  "DB_EXTENSION = ''.db''"

record 'db TransferStore =
  ts_id :: XorName
  ts_db :: 'db

text \<open>The serialisation of names and the root directory are fixed for a node.\<close>

record ('db, 'd, 'e) transfer_api =
  ta_db :: "('db, 'd, 'e) events_db"
  ta_name_bytes :: "XorName \<Rightarrow> bytes option"
  ta_hex :: "bytes \<Rightarrow> string"
  ta_debug :: "'e \<Rightarrow> string"

definition transfer_store_new :: "('db, 'd, 'e) transfer_api \<Rightarrow> XorName \<Rightarrow> dir \<Rightarrow> 'd \<Rightarrow> 'db TransferStore result \<times> 'd" where
  "transfer_store_new T name root_dir d = (case to_db_key (ta_name_bytes T) (ta_hex T) name of
     Inl e \<Rightarrow> (Inl e, d)
   | Inr key \<Rightarrow> (case new_auto_dump_db (ta_db T) (root_dir @ [TRANSFERS_DIR_NAME]) (key @ DB_EXTENSION) d of
       (Inl e, d1) \<Rightarrow> (Inl e, d1)
     | (Inr db, d1) \<Rightarrow> (Inr \<lparr>ts_id = name, ts_db = db\<rparr>, d1)))"

text \<open>\<^verbatim>\<open>str::parse::<usize>\<close>: an optional plus sign, decimal digits, no overflow.\<close>

definition parse_usize :: "string \<Rightarrow> nat option" where
  "parse_usize s = (case dec_parse (if s \<noteq> [] \<and> hd s = CHR ''+'' then tl s else s) of
     None \<Rightarrow> None
   | Some n \<Rightarrow> if n < 2 ^ 64 then Some n else None)"

definition get_all :: "('db, 'd, 'e) transfer_api \<Rightarrow> 'db TransferStore \<Rightarrow> 'e list" where
  "get_all T st =
     (let events = List.map_filter (\<lambda>key. case ev_get (ta_db T) (ts_db st) key of
            Some v \<Rightarrow> (case parse_usize key of Some k \<Rightarrow> Some (k, v) | None \<Rightarrow> None)
          | None \<Rightarrow> None) (ev_get_all (ta_db T) (ts_db st))
      in map snd (sort_key fst events))"

definition try_insert :: "('db, 'd, 'e) transfer_api \<Rightarrow> 'e \<Rightarrow> 'db TransferStore \<Rightarrow> 'd \<Rightarrow>
    unit result \<times> 'db TransferStore \<times> 'd" where
  "try_insert T event st d =
     (let key = dec_string (ev_total_keys (ta_db T) (ts_db st)) in
      if ev_exists (ta_db T) (ts_db st) key
      then (Inl (Logic (''Key exists: '' @ key @ ''. Event: '' @ ta_debug T event)), st, d)
      else (case ev_set (ta_db T) key event (ts_db st) d of
          (True, db, d1) \<Rightarrow> (Inr (), st\<lparr>ts_db := db\<rparr>, d1)
        | (False, db, d1) \<Rightarrow> (Inl PickleDb, st\<lparr>ts_db := db\<rparr>, d1)))"

section \<open>What the store relies on\<close>

text \<open>
  The database is a map with distinct keys in any order; a new one is empty; a write (which
  replaces the file as a whole) either succeeds, in memory and on disk, or changes nothing; a file
  holds what the last write through a handle of it has left. Loading a file may fail, whatever it
  holds; when it succeeds, it yields what the file holds.
\<close>

definition events_db_ok :: "('db, 'd, 'e) events_db \<Rightarrow> bool" where
  "events_db_ok D \<longleftrightarrow>
     (\<forall>db. distinct (ev_get_all D db) \<and> ev_total_keys D db = length (ev_get_all D db)) \<and>
     (\<forall>db k. ev_exists D db k \<longleftrightarrow> k \<in> set (ev_get_all D db)) \<and>
     (\<forall>db k. ev_get D db k \<noteq> None \<longleftrightarrow> k \<in> set (ev_get_all D db)) \<and>
     (\<forall>p n. ev_get_all D (new_bin D p n) = []) \<and>
     (\<forall>k e db d db' d'. ev_set D k e db d = (True, db', d') \<longrightarrow>
        (\<forall>j. ev_get D db' j = (if j = k then Some e else ev_get D db j)) \<and>
        set (ev_get_all D db') = insert k (set (ev_get_all D db))) \<and>
     (\<forall>k e db d db' d'. ev_set D k e db d = (False, db', d') \<longrightarrow> db' = db \<and> d' = d) \<and>
     (\<forall>p n. ev_file D (new_bin D p n) = (p, n)) \<and>
     (\<forall>p n d db. ev_content D p n d = Some db \<longrightarrow> ev_file D db = (p, n)) \<and>
     (\<forall>p n d db. load_bin D p n d = Some db \<longrightarrow> ev_content D p n d = Some db) \<and>
     (\<forall>k e db d db' d'. ev_set D k e db d = (True, db', d') \<longrightarrow> ev_file D db' = ev_file D db \<and>
        (\<forall>p n. ev_content D p n d' = (if (p, n) = ev_file D db then Some db' else ev_content D p n d))) \<and>
     (\<forall>p d ok d'. create_dir_all D p d = (ok, d') \<longrightarrow> (\<forall>q n. ev_content D q n d' = ev_content D q n d)) \<and>
     (\<forall>db d d'. dump D db d = (False, d') \<longrightarrow> (\<forall>q n. ev_content D q n d' = ev_content D q n d)) \<and>
     (\<forall>db d d'. dump D db d = (True, d') \<longrightarrow>
        (\<forall>p n. ev_content D p n d' = (if (p, n) = ev_file D db then Some db else ev_content D p n d)))"

text \<open>No load of a database that exists fails.\<close>

definition databases_load :: "('db, 'd, 'e) events_db \<Rightarrow> bool" where
  "databases_load D \<longleftrightarrow> (\<forall>p n d. ev_content D p n d \<noteq> None \<longrightarrow> load_bin D p n d \<noteq> None)"

text \<open>A store is in order if its keys are the decimal numbers from zero on.\<close>

definition in_order :: "('db, 'd, 'e) transfer_api \<Rightarrow> 'db TransferStore \<Rightarrow> bool" where
  "in_order T st \<longleftrightarrow> (\<exists>n \<le> 2 ^ 64. set (ev_get_all (ta_db T) (ts_db st)) = dec_string ` {..<n})"

lemma in_orderI: "set (ev_get_all (ta_db T) (ts_db st)) = dec_string ` {..<n} \<Longrightarrow> n \<le> 2 ^ 64 \<Longrightarrow> in_order T st"
  unfolding in_order_def by blast

lemma events_db_okD:
  assumes "events_db_ok D"
  shows "distinct (ev_get_all D db)" and "ev_total_keys D db = length (ev_get_all D db)"
    and "ev_exists D db k \<longleftrightarrow> k \<in> set (ev_get_all D db)"
    and "ev_get D db k \<noteq> None \<longleftrightarrow> k \<in> set (ev_get_all D db)"
    and "ev_get_all D (new_bin D p m) = []"
    and "ev_set D k e db d = (True, db', d') \<Longrightarrow> ev_get D db' j = (if j = k then Some e else ev_get D db j)"
    and "ev_set D k e db d = (True, db', d') \<Longrightarrow> set (ev_get_all D db') = insert k (set (ev_get_all D db))"
    and "ev_set D k e db d = (False, db', d') \<Longrightarrow> db' = db \<and> d' = d"
  using assms unfolding events_db_ok_def by metis+

lemma events_db_ok_disk:
  assumes "events_db_ok D"
  shows "ev_file D (new_bin D p m) = (p, m)" and "ev_content D p m d = Some db \<Longrightarrow> ev_file D db = (p, m)"
    and "ev_set D k e db d = (True, db', d') \<Longrightarrow> ev_file D db' = ev_file D db"
    and "ev_set D k e db d = (True, db', d') \<Longrightarrow>
      ev_content D p m d' = (if (p, m) = ev_file D db then Some db' else ev_content D p m d)"
    and "create_dir_all D p d = (ok, d') \<Longrightarrow> ev_content D q m d' = ev_content D q m d"
    and "dump D db d = (True, d') \<Longrightarrow> ev_content D p m d' = (if (p, m) = ev_file D db then Some db else ev_content D p m d)"
    and "dump D db d = (False, d') \<Longrightarrow> ev_content D q m d' = ev_content D q m d"
    and "load_bin D p m d = Some db \<Longrightarrow> ev_content D p m d = Some db"
  using assms unfolding events_db_ok_def by metis+

lemma load_is_content: "events_db_ok D \<Longrightarrow> databases_load D \<Longrightarrow> load_bin D = ev_content D"
  using events_db_ok_disk(8) unfolding databases_load_def fun_eq_iff by (metis not_None_eq)

text \<open>
  Without \<open>databases_load\<close> events are lost: a failing load of a database that exists is answered by
  overwriting it with an empty one.
\<close>

lemma failed_load_erases:
  assumes "events_db_ok D" and "load_bin D p n d = None"
    and "create_dir_all D p d = (True, d1)" and "dump D (new_bin D p n) d1 = (True, d2)"
  shows "snd (new_auto_dump_db D p n d) = d2" and "ev_content D p n d2 = Some (new_bin D p n)"
    and "ev_get_all D (new_bin D p n) = []"
  using assms events_db_okD(5) [OF assms(1)] events_db_ok_disk(1,6) [OF assms(1)]
  by (auto simp: new_auto_dump_db_def)

lemma hd_dec_string: "hd (dec_string n) \<noteq> CHR ''+''"
proof -
  have "digit_char k \<noteq> CHR ''+''" if "k < 10" for k
  proof
    assume "digit_char k = CHR ''+''"
    then have "digit_value (digit_char k) = digit_value CHR ''+''" by simp
    then show False using digit_value_char [OF that] by (simp add: digit_value_def)
  qed
  then show ?thesis
  proof (induction n rule: dec_string.induct)
    case (1 n)
    then show ?case by (subst dec_string.simps) (auto simp: hd_append)
  qed
qed

lemma parse_usize_dec [simp]: "n < 2 ^ 64 \<Longrightarrow> parse_usize (dec_string n) = Some n"
  using hd_dec_string [of n] by (simp add: parse_usize_def)

lemma in_order_total:
  assumes "events_db_ok (ta_db T)" and "set (ev_get_all (ta_db T) (ts_db st)) = dec_string ` {..<n}"
  shows "ev_total_keys (ta_db T) (ts_db st) = n"
proof -
  have "length (ev_get_all (ta_db T) (ts_db st)) = card (set (ev_get_all (ta_db T) (ts_db st)))"
    by (simp add: distinct_card events_db_okD(1) [OF assms(1)])
  also have "\<dots> = n" unfolding assms(2) by (simp add: card_image inj_on_def)
  finally show ?thesis by (simp add: events_db_okD(2) [OF assms(1)])
qed

lemma filter_the_one: "distinct zs \<Longrightarrow> k \<in> set zs \<Longrightarrow> filter (\<lambda>x. x = k) zs = [k]"
  by (induction zs) (auto simp: filter_empty_conv)

lemma sort_key_unique:
  assumes "mset ys = mset xs" and "sorted (map f ys)" and "distinct (map f ys)"
  shows "sort_key f xs = ys"
proof (rule properties_for_sort_key [OF assms(1) _ assms(2)])
  fix k
  assume k: "k \<in> set ys"
  have inj: "inj_on f (set ys)" using assms(3) by (simp add: distinct_map)
  have "distinct ys" using assms(3) by (simp add: distinct_map)
  have "distinct xs" using \<open>distinct ys\<close> assms(1) by (metis mset_eq_imp_distinct_iff)
  have set: "set xs = set ys" using assms(1) by (metis mset_eq_setD)
  have "filter (\<lambda>x. f k = f x) zs = [k]" if "distinct zs" "set zs = set ys" for zs
  proof -
    have "filter (\<lambda>x. f k = f x) zs = filter (\<lambda>x. x = k) zs"
      using that inj k by (intro filter_cong) (auto dest: inj_onD)
    also have "\<dots> = [k]" using that k by (simp add: filter_the_one)
    finally show ?thesis .
  qed
  with \<open>distinct ys\<close> \<open>distinct xs\<close> set show "filter (\<lambda>x. f k = f x) ys = filter (\<lambda>x. f k = f x) xs" by simp
qed

lemma map_filter_map: "List.map_filter f (map g xs) = List.map_filter (\<lambda>x. f (g x)) xs"
  by (induction xs) (auto simp: List.map_filter_def)

lemma map_filter_total: "(\<And>x. x \<in> set xs \<Longrightarrow> f x = Some (g x)) \<Longrightarrow> List.map_filter f xs = map g xs"
  by (induction xs) (auto simp: List.map_filter_def)

lemma mset_map_filter: "mset xs = mset ys \<Longrightarrow> mset (List.map_filter f xs) = mset (List.map_filter f ys)"
  unfolding List.map_filter_def by (metis mset_filter mset_map)

text \<open>The events of a store that is in order are the values of its keys, counted up.\<close>

lemma get_all_in_order:
  assumes D: "events_db_ok (ta_db T)" and keys: "set (ev_get_all (ta_db T) (ts_db st)) = dec_string ` {..<n}"
    and n: "n \<le> 2 ^ 64"
  shows "get_all T st = map (\<lambda>i. the (ev_get (ta_db T) (ts_db st) (dec_string i))) [0..<n]"
proof -
  let ?f = "\<lambda>key. case ev_get (ta_db T) (ts_db st) key of
      Some v \<Rightarrow> (case parse_usize key of Some k \<Rightarrow> Some (k, v) | None \<Rightarrow> None) | None \<Rightarrow> None"
  let ?v = "\<lambda>i. the (ev_get (ta_db T) (ts_db st) (dec_string i))"
  have val: "?f (dec_string i) = Some (i, ?v i)" if "i < n" for i
  proof -
    have "dec_string i \<in> set (ev_get_all (ta_db T) (ts_db st))" using that keys by auto
    then have "ev_get (ta_db T) (ts_db st) (dec_string i) \<noteq> None" using events_db_okD(4) [OF D] by blast
    with that n show ?thesis by auto
  qed
  have "distinct (map dec_string [0..<n])" by (simp add: distinct_map inj_on_def)
  moreover have "set (map dec_string [0..<n]) = set (ev_get_all (ta_db T) (ts_db st))" using keys by auto
  ultimately have "mset (map dec_string [0..<n]) = mset (ev_get_all (ta_db T) (ts_db st))"
    using events_db_okD(1) [OF D] by (metis set_eq_iff_mset_eq_distinct)
  then have "mset (map (\<lambda>i. (i, ?v i)) [0..<n]) = mset (List.map_filter ?f (ev_get_all (ta_db T) (ts_db st)))"
    using mset_map_filter [of "map dec_string [0..<n]" _ ?f] map_filter_total [of "[0..<n]" "\<lambda>i. ?f (dec_string i)" "\<lambda>i. (i, ?v i)"] val
    unfolding map_filter_map by auto
  from sort_key_unique [OF this, of fst] show ?thesis
    by (simp add: get_all_def Let_def comp_def)
qed

text \<open>Inserting an event appends it, also past the tenth.\<close>

lemma try_insert_effect:
  assumes D: "events_db_ok (ta_db T)" and ord: "in_order T st" and room: "length (get_all T st) < 2 ^ 64"
    and step: "try_insert T e st d = (r, st', d')"
  shows "r = Inr () \<or> r = Inl PickleDb" and "in_order T st'"
    and "get_all T st' = (if r = Inr () then get_all T st @ [e] else get_all T st)"
proof -
  obtain n where n: "n \<le> 2 ^ 64" and keys: "set (ev_get_all (ta_db T) (ts_db st)) = dec_string ` {..<n}"
    using ord by (auto simp: in_order_def)
  have tot: "ev_total_keys (ta_db T) (ts_db st) = n" by (rule in_order_total [OF D keys])
  note old = get_all_in_order [OF D keys n]
  have lt: "n < 2 ^ 64" using room by (simp add: old)
  have new: "\<not> ev_exists (ta_db T) (ts_db st) (dec_string n)"
    using keys by (auto simp: events_db_okD(3) [OF D])
  obtain ok db d1 where set: "ev_set (ta_db T) (dec_string n) e (ts_db st) d = (ok, db, d1)" by (metis surj_pair)
  have res: "r = (if ok then Inr () else Inl PickleDb) \<and> st' = st\<lparr>ts_db := db\<rparr> \<and> d' = d1"
    using step new set tot by (cases ok) (auto simp: try_insert_def Let_def)
  then show "r = Inr () \<or> r = Inl PickleDb" by simp
  have both: "in_order T st' \<and> get_all T st' = (if r = Inr () then get_all T st @ [e] else get_all T st)"
  proof (cases ok)
    case True
    have set': "ev_set (ta_db T) (dec_string n) e (ts_db st) d = (True, db, d1)" using set True by simp
    have "set (ev_get_all (ta_db T) db) = insert (dec_string n) (dec_string ` {..<n})"
      by (simp add: events_db_okD(7) [OF D set'] keys)
    also have "\<dots> = dec_string ` {..<Suc n}" by (simp add: lessThan_Suc)
    finally have keys': "set (ev_get_all (ta_db T) (ts_db st')) = dec_string ` {..<Suc n}" using res by simp
    have "get_all T st' = map (\<lambda>i. the (ev_get (ta_db T) db (dec_string i))) [0..<Suc n]"
      using get_all_in_order [OF D keys'] lt res by simp
    also have "\<dots> = map (\<lambda>i. the (ev_get (ta_db T) (ts_db st) (dec_string i))) [0..<n] @ [e]"
      by (simp add: events_db_okD(6) [OF D set'])
    finally show ?thesis using in_orderI [OF keys'] lt res True old by auto
  next
    case False
    have set': "ev_set (ta_db T) (dec_string n) e (ts_db st) d = (False, db, d1)" using set False by simp
    have "st' = st" using events_db_okD(8) [OF D set'] res by simp
    with ord res False show ?thesis by simp
  qed
  then show "in_order T st'" and "get_all T st' = (if r = Inr () then get_all T st @ [e] else get_all T st)" by simp_all
qed

text \<open>Where an insertion leaves the disk.\<close>

lemma try_insert_disk:
  assumes D: "events_db_ok (ta_db T)" and step: "try_insert T e st d = (r, st', d')"
  shows "ts_id st' = ts_id st" and "ev_file (ta_db T) (ts_db st') = ev_file (ta_db T) (ts_db st)"
    and "(p, m) \<noteq> ev_file (ta_db T) (ts_db st) \<Longrightarrow> ev_content (ta_db T) p m d' = ev_content (ta_db T) p m d"
    and "ev_content (ta_db T) p m d = Some (ts_db st) \<Longrightarrow> ev_content (ta_db T) p m d' = Some (ts_db st')"
proof -
  let ?k = "dec_string (ev_total_keys (ta_db T) (ts_db st))"
  have "ts_id st' = ts_id st \<and> ev_file (ta_db T) (ts_db st') = ev_file (ta_db T) (ts_db st) \<and>
    ((p, m) \<noteq> ev_file (ta_db T) (ts_db st) \<longrightarrow> ev_content (ta_db T) p m d' = ev_content (ta_db T) p m d) \<and>
    (ev_content (ta_db T) p m d = Some (ts_db st) \<longrightarrow> ev_content (ta_db T) p m d' = Some (ts_db st'))"
  proof (cases "ev_exists (ta_db T) (ts_db st) ?k")
    case True
    with step show ?thesis by (simp add: try_insert_def)
  next
    case False
    obtain ok db d1 where set: "ev_set (ta_db T) ?k e (ts_db st) d = (ok, db, d1)" by (metis surj_pair)
    with step False have eq: "st' = st\<lparr>ts_db := db\<rparr>" "d' = d1" by (cases ok; simp add: try_insert_def Let_def)+
    show ?thesis
    proof (cases ok)
      case True
      then have set': "ev_set (ta_db T) ?k e (ts_db st) d = (True, db, d1)" using set by simp
      show ?thesis
        using events_db_ok_disk(2) [OF D, of p m d "ts_db st"] events_db_ok_disk(3,4) [OF D set'] by (auto simp: eq)
    next
      case False
      then have "db = ts_db st \<and> d1 = d" using set events_db_okD(8) [OF D] by auto
      then show ?thesis by (simp add: eq)
    qed
  qed
  then show "ts_id st' = ts_id st" and "ev_file (ta_db T) (ts_db st') = ev_file (ta_db T) (ts_db st)"
    and "(p, m) \<noteq> ev_file (ta_db T) (ts_db st) \<Longrightarrow> ev_content (ta_db T) p m d' = ev_content (ta_db T) p m d"
    and "ev_content (ta_db T) p m d = Some (ts_db st) \<Longrightarrow> ev_content (ta_db T) p m d' = Some (ts_db st')"
    by simp_all
qed

lemma new_store_in_order:
  assumes "events_db_ok (ta_db T)" and "ev_get_all (ta_db T) (ts_db st) = []"
  shows "in_order T st" and "get_all T st = []"
  using assms get_all_in_order [of T st 0] by (auto simp: in_order_def intro: exI [of _ 0])

section \<open>An append-only log\<close>

text \<open>
  The interface of a store of events to its clients: what was inserted is read back, in the
  order of insertion.
\<close>

locale event_log =
  fixes events :: "'s \<Rightarrow> 'e list"
    and append :: "'e \<Rightarrow> 's \<Rightarrow> unit result \<times> 's"
    and usable :: "'s \<Rightarrow> bool"
    and bound :: nat
  assumes usable_append: "usable s \<Longrightarrow> length (events s) < bound \<Longrightarrow> usable (snd (append e s))"
    and events_append: "usable s \<Longrightarrow> length (events s) < bound \<Longrightarrow>
      events (snd (append e s)) = (if fst (append e s) = Inr () then events s @ [e] else events s)"
begin

lemma append_all:
  assumes "usable s" and "length (events s) + length es \<le> bound" and "try_fold append es s = (Inr (), s')"
  shows "usable s' \<and> events s' = events s @ es"
  using assms
proof (induction es arbitrary: s)
  case (Cons e es)
  from Cons.prems(3) obtain s1 where s1: "append e s = (Inr (), s1)" and rest: "try_fold append es s1 = (Inr (), s')"
    by (rule try_fold_Cons_OkD)
  have len: "length (events s) < bound" using Cons.prems(2) by simp
  have "usable s1" "events s1 = events s @ [e]"
    using usable_append [OF Cons.prems(1) len, of e] events_append [OF Cons.prems(1) len, of e] s1 by simp_all
  with Cons.IH [OF _ _ rest] Cons.prems(2) show ?case by simp
qed simp

lemma append_none:
  assumes "usable s" and "length (events s) < bound" and "append e s = (Inl err, s')"
  shows "usable s' \<and> events s' = events s"
  using assms usable_append [of s e] events_append [of s e] by simp

end

definition log_insert :: "('db, 'd, 'e) transfer_api \<Rightarrow> 'e \<Rightarrow> 'db TransferStore \<times> 'd \<Rightarrow> unit result \<times> 'db TransferStore \<times> 'd" where
  "log_insert T e s = try_insert T e (fst s) (snd s)"

interpretation wallet_log: event_log "\<lambda>s. get_all T (fst s)" "log_insert T"
  "\<lambda>s. events_db_ok (ta_db T) \<and> in_order T (fst s)" "2 ^ 64" for T :: "('db, 'd, 'e) transfer_api"
proof
  fix s :: "'db TransferStore \<times> 'd" and e :: 'e
  assume "events_db_ok (ta_db T) \<and> in_order T (fst s)" and len: "length (get_all T (fst s)) < 2 ^ 64"
  then have D: "events_db_ok (ta_db T)" and ord: "in_order T (fst s)" by simp_all
  obtain r st' d' where step: "try_insert T e (fst s) (snd s) = (r, st', d')" by (metis surj_pair)
  note ef = try_insert_effect [OF D ord len step]
  show "events_db_ok (ta_db T) \<and> in_order T (fst (snd (log_insert T e s)))"
    using D ef(2) by (simp add: log_insert_def step)
  show "get_all T (fst (snd (log_insert T e s))) =
      (if fst (log_insert T e s) = Inr () then get_all T (fst s) @ [e] else get_all T (fst s))"
    using ef(3) by (simp add: log_insert_def step)
qed

text \<open>
  The history of a wallet is kept in order: whatever events are inserted one after the other
  into an empty store, reading the store returns exactly these events in the order of insertion,
  also beyond the tenth, where the order of the textual keys is a different one.
\<close>

theorem history_in_insertion_order:
  assumes "events_db_ok (ta_db T)" and "ev_get_all (ta_db T) (ts_db st) = []" and "length es \<le> 2 ^ 64"
    and "try_fold (log_insert T) es (st, d) = (Inr (), st', d')"
  shows "get_all T st' = es"
  using wallet_log.append_all [of T "(st, d)" es "(st', d')"] new_store_in_order [OF assms(1,2)] assms(1,3,4) by simp

section \<open>Witness\<close>

text \<open>A database of association lists.\<close>

type_synonym 'e list_db = "(dir \<times> string) \<times> (string \<times> 'e) list"
type_synonym 'e list_disk = "dir \<times> string \<Rightarrow> (string \<times> 'e) list option"

definition list_events :: "('e list_db, 'e list_disk, 'e) events_db" where
  "list_events = \<lparr>ev_get = (\<lambda>db. map_of (snd db)), ev_get_all = (\<lambda>db. remdups (map fst (snd db))),
     ev_total_keys = (\<lambda>db. length (remdups (map fst (snd db)))), ev_exists = (\<lambda>db k. k \<in> fst ` set (snd db)),
     ev_set = (\<lambda>k e db d. let l = (k, e) # snd db in (True, (fst db, l), d(fst db := Some l))),
     load_bin = (\<lambda>p n d. map_option (Pair (p, n)) (d (p, n))), new_bin = (\<lambda>p n. ((p, n), [])),
     dump = (\<lambda>db d. (True, d(fst db := Some (snd db)))), create_dir_all = (\<lambda>p d. (True, d)), ev_file = fst,
     ev_content = (\<lambda>p n d. map_option (Pair (p, n)) (d (p, n)))\<rparr>"

lemma list_events_ok: "events_db_ok list_events" "databases_load list_events"
  by (auto simp: events_db_ok_def list_events_def Let_def map_of_eq_None_iff) (simp add: databases_load_def list_events_def)

text \<open>A disk whose files are there but cannot be read for the moment.\<close>

definition unreadable_events :: "('e list_db, 'e list_disk, 'e) events_db" where
  "unreadable_events = list_events\<lparr>load_bin := \<lambda>p n d. None\<rparr>"

lemma unreadable_events_lost:
  "events_db_ok unreadable_events"
  "ev_content unreadable_events p n (snd (new_auto_dump_db unreadable_events p n d)) = Some ((p, n), [])"
proof -
  show "events_db_ok unreadable_events"
    by (auto simp: events_db_ok_def unreadable_events_def list_events_def Let_def map_of_eq_None_iff)
  show "ev_content unreadable_events p n (snd (new_auto_dump_db unreadable_events p n d)) = Some ((p, n), [])"
    by (simp add: new_auto_dump_db_def unreadable_events_def list_events_def)
qed

definition list_api :: "('e \<Rightarrow> string) \<Rightarrow> ('e list_db, 'e list_disk, 'e) transfer_api" where
  "list_api debug = \<lparr>ta_db = list_events, ta_name_bytes = (\<lambda>n. Some (replicate (unat n) 1)), ta_hex = map (\<lambda>b. char_of (unat b)),
     ta_debug = debug\<rparr>"

definition empty_store :: "'e list_db TransferStore" where
  "empty_store = \<lparr>ts_id = 0, ts_db = (([], ''0.db''), [])\<rparr>"

lemma list_inserts:
  assumes "in_order (list_api f) st" and "length (get_all (list_api f) st) + length es \<le> 2 ^ 64"
  shows "\<exists>st' d'. try_fold (log_insert (list_api f)) es (st, d) = (Inr (), st', d')"
  using assms
proof (induction es arbitrary: st d)
  case (Cons e es)
  have D: "events_db_ok (ta_db (list_api f))" by (simp add: list_api_def list_events_ok)
  obtain r st1 d1 where step: "try_insert (list_api f) e st d = (r, st1, d1)" by (metis surj_pair)
  have len: "length (get_all (list_api f) st) < 2 ^ 64" using Cons.prems(2) by simp
  note ef = try_insert_effect [OF D Cons.prems(1) len step]
  have "r \<noteq> Inl PickleDb" using step by (auto simp: try_insert_def list_api_def list_events_def Let_def split: if_splits)
  with ef(1) have r: "r = Inr ()" by simp
  have "length (get_all (list_api f) st1) + length es \<le> 2 ^ 64" using ef(3) r Cons.prems(2) by simp
  from Cons.IH [OF ef(2) this, of d1] step r show ?case by (simp add: log_insert_def)
qed simp

text \<open>Twelve events, so that the keys pass from one digit to two.\<close>

theorem history_in_insertion_order_witness:
  "\<exists>st' d'. try_fold (log_insert (list_api dec_string)) [0..<12] (empty_store, \<lambda>_. None) = (Inr (), st', d') \<and>
     get_all (list_api dec_string) st' = [0..<12]"
proof -
  have e: "ev_get_all (ta_db (list_api dec_string)) (ts_db empty_store) = []"
    by (simp add: list_api_def list_events_def empty_store_def)
  have D: "events_db_ok (ta_db (list_api dec_string))" by (simp add: list_api_def list_events_ok)
  obtain st' d' where run: "try_fold (log_insert (list_api dec_string)) [0..<12] (empty_store, \<lambda>_. None) = (Inr (), st', d')"
    using list_inserts [OF new_store_in_order(1) [OF D e], of "[0..<12]" "\<lambda>_. None"] new_store_in_order(2) [OF D e] by auto
  with history_in_insertion_order [OF D e _ run] show ?thesis by simp
qed

end
