(* ===== verification/Replicas.thy ===== *)
theory Replicas
  imports Transfer_Store
begin

text \<open>
  The replicas of the wallets a section is responsible for (\<^verbatim>\<open>src/src/transfers/replicas.rs\<close>,
  \<^verbatim>\<open>replica_signing.rs\<close>, \<^verbatim>\<open>get_replicas.rs\<close>): one store of events per wallet, commands that load a
  wallet from its events, validate against it and append at most one event. The wallet itself
  (\<^verbatim>\<open>sn_transfers::WalletReplica\<close>) is a parameter. Access to a wallet is serialised by its lock,
  so that commands are steps on the state; a dropped future has no effect.
\<close>

section \<open>State and parameters\<close>

record ReplicaInfo =
  ri_id :: nat
  ri_key_index :: nat
  ri_peer_replicas :: PublicKeySet
  ri_section_chain :: "nat list"
  ri_signing :: Routing

text \<open>\<^verbatim>\<open>sn_transfers::WalletReplica\<close>.\<close>

record 'w wallet_api =
  from_history :: "PublicKey \<Rightarrow> ReplicaInfo \<Rightarrow> ReplicaEvent list \<Rightarrow> TransfersError + 'w"
  w_balance :: "'w \<Rightarrow> Token"
  w_validate :: "'w \<Rightarrow> SignedDebit \<Rightarrow> SignedCredit \<Rightarrow> TransfersError + unit"
  w_register :: "'w \<Rightarrow> TransferAgreementProof \<Rightarrow> TransfersError + TransferAgreementProof option"
  w_receive_propagated :: "'w \<Rightarrow> CreditAgreementProof \<Rightarrow> TransfersError + unit option"
  w_apply :: "'w \<Rightarrow> ReplicaEvent \<Rightarrow> TransfersError + 'w"
  w_credit_without_proof :: "'w \<Rightarrow> Credit \<Rightarrow> TransfersError + 'w"
  w_debit_without_proof :: "'w \<Rightarrow> Debit \<Rightarrow> TransfersError + 'w"
  w_test_validate_transfer :: "'w \<Rightarrow> SignedDebit \<Rightarrow> SignedCredit \<Rightarrow> TransfersError + unit"

record ('db, 'd, 'w) replica_api =
  ra_store :: "('db, 'd, ReplicaEvent) transfer_api"
  ra_wallet :: "'w wallet_api"
  ser_signed_debit :: "SignedDebit \<Rightarrow> bytes option"
  ser_signed_credit :: "SignedCredit \<Rightarrow> bytes option"
  ser_credit_proof :: "CreditAgreementProof \<Rightarrow> bytes option"
  transfer_credit :: "Transfer \<Rightarrow> DtError + Credit"

record ('db, 'd) Replicas =
  rp_root_dir :: dir
  rp_info :: ReplicaInfo
  rp_locks :: "(PublicKey, 'db TransferStore) btree_map"
  rp_disk :: 'd

section \<open>Signing\<close>

definition sign_validated_debit :: "('db, 'd, 'w) replica_api \<Rightarrow> Routing \<Rightarrow> SignedDebit \<Rightarrow> SignatureShare result" where
  "sign_validated_debit R N debit = sign_as_elder N (ser_signed_debit R) debit"

definition sign_validated_credit :: "('db, 'd, 'w) replica_api \<Rightarrow> Routing \<Rightarrow> SignedCredit \<Rightarrow> SignatureShare result" where
  "sign_validated_credit R N credit = sign_as_elder N (ser_signed_credit R) credit"

definition sign_credit_proof :: "('db, 'd, 'w) replica_api \<Rightarrow> Routing \<Rightarrow> CreditAgreementProof \<Rightarrow> SignatureShare result" where
  "sign_credit_proof R N cp = sign_as_elder N (ser_credit_proof R) cp"

definition sign_transfer :: "('db, 'd, 'w) replica_api \<Rightarrow> Routing \<Rightarrow> SignedTransfer \<Rightarrow> (SignatureShare \<times> SignatureShare) result" where
  "sign_transfer R N t = and_then (sign_validated_debit R N (st_debit t)) (\<lambda>replica_debit_sig.
     and_then (sign_validated_credit R N (st_credit t)) (\<lambda>replica_credit_sig.
       Inr (replica_debit_sig, replica_credit_sig)))"

definition signing_replicas_pk_set :: "Routing \<Rightarrow> PublicKeySet result" where
  "signing_replicas_pk_set N = our_public_key_set N"

definition known_replicas :: "Routing \<Rightarrow> XorName \<Rightarrow> nat \<Rightarrow> bool" where
  "known_replicas N wallet_name section_key = (case matching_section N wallet_name of
     Some key \<Rightarrow> key = section_key
   | None \<Rightarrow> False)"

definition replica_info :: "Routing \<Rightarrow> ReplicaInfo result" where
  "replica_info N = and_then (our_public_key_share N) (\<lambda>pk.
     and_then (case pk of BlsShare i \<Rightarrow> Inr i | _ \<Rightarrow> Inl ProvidedPkIsNotBlsShare) (\<lambda>i.
     and_then (our_index N) (\<lambda>key_index.
     and_then (our_public_key_set N) (\<lambda>peer_replicas.
       Inr \<lparr>ri_id = i, ri_key_index = key_index, ri_peer_replicas = peer_replicas,
         ri_section_chain = rt_section_chain N, ri_signing = N\<rparr>))))"

section \<open>Stores of wallets\<close>

definition NO_LOCK :: string where
  "NO_LOCK = ''Key does not exist among locks.''"

definition load_key_lock :: "PublicKey \<Rightarrow> ('db, 'd) Replicas \<Rightarrow> 'db TransferStore result" where
  "load_key_lock pk s = ok_or (Logic NO_LOCK) (btm_get (rp_locks s) pk)"

text \<open>\<^verbatim>\<open>TransferStore::new(id.into(), &self.root_dir)\<close>.\<close>

definition open_store :: "externals \<Rightarrow> ('db, 'd, 'w) replica_api \<Rightarrow> PublicKey \<Rightarrow> ('db, 'd) Replicas \<Rightarrow>
    'db TransferStore result \<times> ('db, 'd) Replicas" where
  "open_store E R pk s =
     (let res = transfer_store_new (ra_store R) (xor_name_of_key E pk) (rp_root_dir s) (rp_disk s)
      in (fst res, s\<lparr>rp_disk := snd res\<rparr>))"

definition add_lock :: "PublicKey \<Rightarrow> 'db TransferStore \<Rightarrow> ('db, 'd) Replicas \<Rightarrow> ('db, 'd) Replicas" where
  "add_lock pk st s = s\<lparr>rp_locks := btm_insert pk st (rp_locks s)\<rparr>"

definition get_load_or_create_store :: "externals \<Rightarrow> ('db, 'd, 'w) replica_api \<Rightarrow> PublicKey \<Rightarrow> ('db, 'd) Replicas \<Rightarrow>
    'db TransferStore result \<times> ('db, 'd) Replicas" where
  "get_load_or_create_store E R pk s = (case load_key_lock pk s of
     Inr lock \<Rightarrow> (Inr lock, s)
   | Inl _ \<Rightarrow> (case (case open_store E R pk s of
         (Inr st, s1) \<Rightarrow> (Inr st, s1)
       | (Inl _, s1) \<Rightarrow> open_store E R pk s1) of
       (Inl e, s2) \<Rightarrow> (Inl e, s2)
     | (Inr st, s2) \<Rightarrow> (Inr st, add_lock pk st s2)))"

text \<open>Inserting into a store while its lock is held.\<close>

definition insert_locked :: "('db, 'd, 'w) replica_api \<Rightarrow> PublicKey \<Rightarrow> 'db TransferStore \<Rightarrow> ReplicaEvent \<Rightarrow>
    ('db, 'd) Replicas \<Rightarrow> unit result \<times> ('db, 'd) Replicas" where
  "insert_locked R pk st event s =
     (let res = try_insert (ra_store R) event st (rp_disk s)
      in (fst res, (add_lock pk (fst (snd res)) s)\<lparr>rp_disk := snd (snd res)\<rparr>))"

definition load_wallet :: "('db, 'd, 'w) replica_api \<Rightarrow> 'db TransferStore \<Rightarrow> PublicKey \<Rightarrow> ('db, 'd) Replicas \<Rightarrow> 'w result" where
  "load_wallet R st pk s = map_err TransferError (from_history (ra_wallet R) pk (rp_info s) (get_all (ra_store R) st))"

definition exists_in_chain :: "nat \<Rightarrow> ('db, 'd) Replicas \<Rightarrow> bool" where
  "exists_in_chain key s \<longleftrightarrow> list_ex (\<lambda>key_in_chain. key_in_chain = key) (ri_section_chain (rp_info s))"

section \<open>Setting up\<close>

text \<open>The body shared by \<^verbatim>\<open>setup\<close> and \<^verbatim>\<open>initiate\<close>: get or create the store, then insert.\<close>

definition append_event :: "externals \<Rightarrow> ('db, 'd, 'w) replica_api \<Rightarrow> PublicKey \<Rightarrow> ReplicaEvent \<Rightarrow> ('db, 'd) Replicas \<Rightarrow>
    unit result \<times> ('db, 'd) Replicas" where
  "append_event E R pk event s = (case get_load_or_create_store E R pk s of
     (Inl e, s1) \<Rightarrow> (Inl e, s1)
   | (Inr st, s1) \<Rightarrow> insert_locked R pk st event s1)"

definition SINGLE_ACTOR :: string where
  "SINGLE_ACTOR = ''ActorHistory must contain only transfers of a single actor.''"

definition setup_wallet :: "externals \<Rightarrow> ('db, 'd, 'w) replica_api \<Rightarrow> PublicKey \<times> ActorHistory \<Rightarrow> ('db, 'd) Replicas \<Rightarrow>
    unit result \<times> ('db, 'd) Replicas" where
  "setup_wallet E R entry s = (case entry of (node, wallet) \<Rightarrow>
     if \<not> (list_all (\<lambda>c. node = cap_recipient c) (credits wallet) \<and> list_all (\<lambda>d. node = tap_sender d) (debits wallet))
     then (Inl (InvalidOperation SINGLE_ACTOR), s)
     else (case try_fold (\<lambda>c. append_event E R (cap_recipient c) (TransferPropagated c)) (credits wallet) s of
         (Inl e, s1) \<Rightarrow> (Inl e, s1)
       | (Inr _, s1) \<Rightarrow> try_fold (\<lambda>d. append_event E R (tap_sender d) (TransferRegistered d)) (debits wallet) s1))"

definition replicas_setup :: "externals \<Rightarrow> ('db, 'd, 'w) replica_api \<Rightarrow> (PublicKey, ActorHistory) btree_map \<Rightarrow> ('db, 'd) Replicas \<Rightarrow>
    unit result \<times> ('db, 'd) Replicas" where
  "replicas_setup E R user_wallets s =
     (if user_wallets = [] then (Inr (), s) else try_fold (setup_wallet E R) user_wallets s)"

definition replicas_new :: "externals \<Rightarrow> ('db, 'd, 'w) replica_api \<Rightarrow> dir \<Rightarrow> ReplicaInfo \<Rightarrow> (PublicKey, ActorHistory) btree_map \<Rightarrow>
    'd \<Rightarrow> ('db, 'd) Replicas result \<times> 'd" where
  "replicas_new E R root_dir info user_wallets d =
     (case replicas_setup E R user_wallets \<lparr>rp_root_dir = root_dir, rp_info = info, rp_locks = [], rp_disk = d\<rparr> of
       (Inl e, s) \<Rightarrow> (Inl e, rp_disk s)
     | (Inr _, s) \<Rightarrow> (Inr s, rp_disk s))"

definition transfer_replicas :: "externals \<Rightarrow> ('db, 'd, 'w) replica_api \<Rightarrow> dir \<Rightarrow> Routing \<Rightarrow> (PublicKey, ActorHistory) btree_map \<Rightarrow>
    'd \<Rightarrow> ('db, 'd) Replicas result \<times> 'd" where
  "transfer_replicas E R root_dir N user_wallets d = (case replica_info N of
     Inl e \<Rightarrow> (Inl e, d)
   | Inr info \<Rightarrow> replicas_new E R root_dir info user_wallets d)"

text \<open>The future that \<^verbatim>\<open>merge\<close> creates is dropped without being polled.\<close>

definition replicas_merge :: "(PublicKey, ActorHistory) btree_map \<Rightarrow> ('db, 'd) Replicas \<Rightarrow> ('db, 'd) Replicas" where
  "replicas_merge user_wallets s = s"

fun event_owner :: "ReplicaEvent \<Rightarrow> PublicKey" where
  "event_owner (TransferValidationProposed k) = k"
| "event_owner (TransferValidatedEv e) = tv_sender e"
| "event_owner (TransferRegistered p) = tap_sender p"
| "event_owner (TransferPropagated p) = cap_recipient p"

definition initiate :: "externals \<Rightarrow> ('db, 'd, 'w) replica_api \<Rightarrow> ReplicaEvent list \<Rightarrow> ('db, 'd) Replicas \<Rightarrow>
    unit result \<times> ('db, 'd) Replicas" where
  "initiate E R events s = (if events = [] then (Inr (), s)
     else try_fold (\<lambda>e. append_event E R (event_owner e) e) events s)"

section \<open>Queries\<close>

definition replica_balance :: "externals \<Rightarrow> ('db, 'd, 'w) replica_api \<Rightarrow> PublicKey \<Rightarrow> ('db, 'd) Replicas \<Rightarrow>
    Token result \<times> ('db, 'd) Replicas" where
  "replica_balance E R pk s = (case open_store E R pk s of
     (Inl _, s1) \<Rightarrow> (Inr 0, s1)
   | (Inr st, s1) \<Rightarrow> (and_then (load_wallet R st pk s1) (\<lambda>w. Inr (w_balance (ra_wallet R) w)), s1))"

definition managed_amount :: "externals \<Rightarrow> ('db, 'd, 'w) replica_api \<Rightarrow> ('db, 'd) Replicas \<Rightarrow>
    Token result \<times> ('db, 'd) Replicas" where
  "managed_amount E R s =
     (case try_fold (\<lambda>key acc. case replica_balance E R key (snd acc) of
           (Inl e, s1) \<Rightarrow> (Inl e, fst acc, s1)
         | (Inr b, s1) \<Rightarrow> (Inr (), fst acc + b, s1)) (map fst (rp_locks s)) (0, s) of
       (Inl e, acc) \<Rightarrow> (Inl e, snd acc)
     | (Inr _, acc) \<Rightarrow> (Inr (fst acc), snd acc))"

text \<open>\<^verbatim>\<open>itertools::unique_by\<close>: the first element of each key.\<close>

fun unique_by :: "('a \<Rightarrow> 'k) \<Rightarrow> 'a list \<Rightarrow> 'a list" where
  "unique_by f [] = []"
| "unique_by f (x # xs) = x # filter (\<lambda>y. f y \<noteq> f x) (unique_by f xs)"

definition get_credits :: "ReplicaEvent list \<Rightarrow> CreditAgreementProof list" where
  "get_credits events = unique_by cap_id
     (List.map_filter (\<lambda>e. case e of TransferPropagated p \<Rightarrow> Some p | _ \<Rightarrow> None) events)"

definition get_debits :: "ReplicaEvent list \<Rightarrow> TransferAgreementProof list" where
  "get_debits events = sort_key (\<lambda>t. snd (tap_id t)) (unique_by tap_id
     (List.map_filter (\<lambda>e. case e of TransferRegistered p \<Rightarrow> Some p | _ \<Rightarrow> None) events))"

definition str_contains :: "string \<Rightarrow> string \<Rightarrow> bool" where
  "str_contains s pat \<longleftrightarrow> list_ex (\<lambda>i. take (length pat) (drop i s) = pat) [0..<Suc (length s)]"

definition history :: "externals \<Rightarrow> ('db, 'd, 'w) replica_api \<Rightarrow> PublicKey \<Rightarrow> ('db, 'd) Replicas \<Rightarrow>
    ActorHistory result \<times> ('db, 'd) Replicas" where
  "history E R pk s = (case open_store E R pk s of
     (Inl error, s1) \<Rightarrow>
       let err_string = to_string (texts E) error in
       if str_contains err_string ''No such file or directory'' \<or>
          str_contains err_string ''The system cannot find the file specified''
       then (Inr \<lparr>credits = [], debits = []\<rparr>, s1)
       else (Inl error, s1)
   | (Inr st, s1) \<Rightarrow>
       let events = get_all (ra_store R) st in
       if events = [] then (Inr \<lparr>credits = [], debits = []\<rparr>, s1)
       else (Inr \<lparr>credits = get_credits events, debits = get_debits events\<rparr>, s1))"

definition user_wallets :: "externals \<Rightarrow> ('db, 'd, 'w) replica_api \<Rightarrow> ('db, 'd) Replicas \<Rightarrow>
    (PublicKey, ActorHistory) btree_map \<times> ('db, 'd) Replicas" where
  "user_wallets E R s = fold (\<lambda>pk acc. case history E R pk (snd acc) of
       (Inr h, s1) \<Rightarrow> (btm_insert pk h (fst acc), s1)
     | (Inl _, s1) \<Rightarrow> (fst acc, s1)) (map fst (rp_locks s)) ([], s)"

definition all_events :: "externals \<Rightarrow> ('db, 'd, 'w) replica_api \<Rightarrow> ('db, 'd) Replicas \<Rightarrow>
    ReplicaEvent list result \<times> ('db, 'd) Replicas" where
  "all_events E R s =
     (let res = fold (\<lambda>pk acc. case open_store E R pk (snd acc) of
          (Inr st, s1) \<Rightarrow> (fst acc @ get_all (ra_store R) st, s1)
        | (Inl _, s1) \<Rightarrow> (fst acc, s1)) (map fst (rp_locks s)) ([], s)
      in (Inr (fst res), snd res))"

definition replicas_pk_set :: "('db, 'd) Replicas \<Rightarrow> PublicKeySet" where
  "replicas_pk_set s = ri_peer_replicas (rp_info s)"

section \<open>Commands\<close>

definition update_replica_info :: "ReplicaInfo \<Rightarrow> ('db, 'd) Replicas \<Rightarrow> ('db, 'd) Replicas" where
  "update_replica_info info s = s\<lparr>rp_info := info\<rparr>"

definition keep_keys_of :: "externals \<Rightarrow> Prefix \<Rightarrow> ('db, 'd) Replicas \<Rightarrow> unit result \<times> ('db, 'd) Replicas" where
  "keep_keys_of E prefix s = try_fold (\<lambda>key s.
     if \<not> prefix_matches E prefix (xor_name_of_key E key)
     then (case load_key_lock key s of
         Inl e \<Rightarrow> (Inl e, s)
       | Inr _ \<Rightarrow> (Inr (), s\<lparr>rp_locks := btm_remove key (rp_locks s)\<rparr>))
     else (Inr (), s)) (map fst (rp_locks s)) s"

text \<open>First to disk, then to the wallet in memory: what the commands end with.\<close>

definition store_and_apply :: "('db, 'd, 'w) replica_api \<Rightarrow> PublicKey \<Rightarrow> 'db TransferStore \<Rightarrow> 'w \<Rightarrow> ReplicaEvent \<Rightarrow>
    ('db, 'd) Replicas \<Rightarrow> unit result \<times> ('db, 'd) Replicas" where
  "store_and_apply R pk st wallet event s = (case insert_locked R pk st event s of
     (Inl e, s1) \<Rightarrow> (Inl e, s1)
   | (Inr _, s1) \<Rightarrow> (and_then (map_err TransferError (w_apply (ra_wallet R) wallet event)) (\<lambda>_. Inr ()), s1))"

definition replica_validate :: "('db, 'd, 'w) replica_api \<Rightarrow> SignedTransfer \<Rightarrow> ('db, 'd) Replicas \<Rightarrow>
    TransferValidated result \<times> ('db, 'd) Replicas" where
  "replica_validate R t s =
     (let pk = st_sender t in
      case and_then (load_key_lock pk s) (\<lambda>st.
        and_then (load_wallet R st pk s) (\<lambda>wallet.
        and_then (map_err TransferError (w_validate (ra_wallet R) wallet (st_debit t) (st_credit t))) (\<lambda>_.
        and_then (sign_transfer R (ri_signing (rp_info s)) t) (\<lambda>sigs. Inr (st, wallet, sigs))))) of
        Inl e \<Rightarrow> (Inl e, s)
      | Inr (st, wallet, replica_debit_sig, replica_credit_sig) \<Rightarrow>
          let event = \<lparr>tv_signed_credit = st_credit t, tv_signed_debit = st_debit t,
                tv_replica_debit_sig = replica_debit_sig, tv_replica_credit_sig = replica_credit_sig,
                tv_replicas = ri_peer_replicas (rp_info s)\<rparr>;
              res = store_and_apply R pk st wallet (TransferValidatedEv event) s
          in (and_then (fst res) (\<lambda>_. Inr event), snd res))"

definition replica_register :: "bls_api \<Rightarrow> ('db, 'd, 'w) replica_api \<Rightarrow> TransferAgreementProof \<Rightarrow> ('db, 'd) Replicas \<Rightarrow>
    TransferAgreementProof result \<times> ('db, 'd) Replicas" where
  "replica_register B R transfer_proof s =
     (let pk = tap_sender transfer_proof in
      if \<not> exists_in_chain (public_key B (tap_debiting_replicas_keys transfer_proof)) s
      then (Inl (TransferError SectionKeyNeverExisted), s)
      else case and_then (load_key_lock pk s) (\<lambda>st.
        and_then (load_wallet R st pk s) (\<lambda>wallet.
        and_then (map_err TransferError (w_register (ra_wallet R) wallet transfer_proof)) (\<lambda>registered.
          Inr (st, wallet, registered)))) of
        Inl e \<Rightarrow> (Inl e, s)
      | Inr (st, wallet, None) \<Rightarrow> (Inl TransferAlreadyRegistered, s)
      | Inr (st, wallet, Some event) \<Rightarrow>
          let res = store_and_apply R pk st wallet (TransferRegistered event) s
          in (and_then (fst res) (\<lambda>_. Inr event), snd res))"

definition replica_receive_propagated :: "externals \<Rightarrow> ('db, 'd, 'w) replica_api \<Rightarrow> CreditAgreementProof \<Rightarrow> ('db, 'd) Replicas \<Rightarrow>
    CreditAgreementProof result \<times> ('db, 'd) Replicas" where
  "replica_receive_propagated E R cp s =
     (let pk = cap_recipient cp in
      case (case load_key_lock pk s of
          Inr st \<Rightarrow> (Inr st, s)
        | Inl _ \<Rightarrow> (case open_store E R pk s of
            (Inl e, s1) \<Rightarrow> (Inl e, s1)
          | (Inr st, s1) \<Rightarrow> (Inr st, add_lock pk st s1))) of
        (Inl e, s1) \<Rightarrow> (Inl e, s1)
      | (Inr st, s1) \<Rightarrow> (case load_wallet R st pk s1 of
          Inl e \<Rightarrow> (Inl e, s1)
        | Inr wallet \<Rightarrow> (case w_receive_propagated (ra_wallet R) wallet cp of
            Inl _ \<Rightarrow> (Inl (InvalidPropagatedTransfer cp), s1)
          | Inr None \<Rightarrow> (Inr cp, s1)
          | Inr (Some _) \<Rightarrow>
              let res = store_and_apply R pk st wallet (TransferPropagated cp) s1
              in (and_then (fst res) (\<lambda>_. Inr cp), snd res))))"

text \<open>Simulated payouts: the keys and the signature are random.\<close>

definition replica_credit_without_proof :: "externals \<Rightarrow> ('db, 'd, 'w) replica_api \<Rightarrow> Signature \<Rightarrow> PublicKeySet \<Rightarrow> Transfer \<Rightarrow>
    ('db, 'd) Replicas \<Rightarrow> NodeDuty result \<times> ('db, 'd) Replicas" where
  "replica_credit_without_proof E R sig replica_keys transfer s =
     (case map_err NetworkData (transfer_credit R transfer) of
       Inl e \<Rightarrow> (Inl e, s)
     | Inr credit \<Rightarrow> (case get_load_or_create_store E R (transfer_to transfer) s of
         (Inl e, s1) \<Rightarrow> (Inl e, s1)
       | (Inr st, s1) \<Rightarrow> (case and_then (load_wallet R st (transfer_to transfer) s1)
             (\<lambda>wallet. map_err TransferError (w_credit_without_proof (ra_wallet R) wallet credit)) of
           Inl e \<Rightarrow> (Inl e, s1)
         | Inr _ \<Rightarrow>
             let transfer_proof = \<lparr>tap_signed_credit = \<lparr>sc_credit = credit, sc_actor_signature = sig\<rparr>,
                   tap_signed_debit = \<lparr>sd_debit = transfer_debit transfer, sd_actor_signature = sig\<rparr>,
                   tap_debit_sig = sig, tap_credit_sig = sig, tap_debiting_replicas_keys = replica_keys\<rparr>;
                 res = insert_locked R (transfer_to transfer) st (TransferPropagated (credit_proof transfer_proof)) s1
             in (and_then (fst res) (\<lambda>_. Inr NoOp), snd res))))"

definition replica_debit_without_proof :: "('db, 'd, 'w) replica_api \<Rightarrow> Transfer \<Rightarrow> ('db, 'd) Replicas \<Rightarrow> NodeDuty result" where
  "replica_debit_without_proof R transfer s =
     (let pk = debit_actor (transfer_debit transfer) in
      and_then (load_key_lock pk s) (\<lambda>st. and_then (load_wallet R st pk s) (\<lambda>wallet.
        and_then (map_err TransferError (w_debit_without_proof (ra_wallet R) wallet (transfer_debit transfer))) (\<lambda>_. Inr NoOp))))"

definition replica_test_validate_transfer :: "('db, 'd, 'w) replica_api \<Rightarrow> SignedTransfer \<Rightarrow> ('db, 'd) Replicas \<Rightarrow>
    unit result \<times> ('db, 'd) Replicas" where
  "replica_test_validate_transfer R t s =
     (let pk = st_sender t in
      case and_then (load_key_lock pk s) (\<lambda>st. and_then (load_wallet R st pk s) (\<lambda>wallet.
        and_then (map_err TransferError (w_test_validate_transfer (ra_wallet R) wallet (st_debit t) (st_credit t))) (\<lambda>_.
        and_then (sign_transfer R (ri_signing (rp_info s)) t) (\<lambda>sigs. Inr (st, sigs))))) of
        Inl e \<Rightarrow> (Inl e, s)
      | Inr (st, sigs) \<Rightarrow> insert_locked R pk st (TransferValidatedEv
          \<lparr>tv_signed_credit = st_credit t, tv_signed_debit = st_debit t, tv_replica_debit_sig = fst sigs,
           tv_replica_credit_sig = snd sigs, tv_replicas = ri_peer_replicas (rp_info s)\<rparr>) s)"

end
