(* ===== verification/Replicas_Correct.thy ===== *)
theory Replicas_Correct
  imports Replicas
begin

text \<open>
  What the replicas of wallets guarantee: events are only ever appended, each command appends at
  most one event and only to the wallet it is about; propagation is idempotent; a new replica that
  is initiated from the events of another one has the same wallets; the reported history has no
  transfer twice and its debits in order.
\<close>

section \<open>The recorded events\<close>

definition wallet_file :: "externals \<Rightarrow> ('db, 'd, 'w) replica_api \<Rightarrow> PublicKey \<Rightarrow> string" where
  "wallet_file E R pk = (case to_db_key (ta_name_bytes (ra_store R)) (ta_hex (ra_store R)) (xor_name_of_key E pk) of
     Inl _ \<Rightarrow> [] | Inr key \<Rightarrow> key @ DB_EXTENSION)"

definition on_disk :: "externals \<Rightarrow> ('db, 'd, 'w) replica_api \<Rightarrow> PublicKey set \<Rightarrow> ('db, 'd) Replicas \<Rightarrow> PublicKey \<Rightarrow> 'db option" where
  "on_disk E R K s pk = (if pk \<in> K
     then ev_content (ta_db (ra_store R)) (rp_root_dir s @ [TRANSFERS_DIR_NAME]) (wallet_file E R pk) (rp_disk s) else None)"

definition db_events :: "('db, 'd, 'w) replica_api \<Rightarrow> 'db \<Rightarrow> ReplicaEvent list" where
  "db_events R db = get_all (ra_store R) \<lparr>ts_id = 0, ts_db = db\<rparr>"

text \<open>The events of a wallet, as they are on disk; \<open>K\<close> are the keys in use.\<close>

definition events_of :: "externals \<Rightarrow> ('db, 'd, 'w) replica_api \<Rightarrow> PublicKey set \<Rightarrow> ('db, 'd) Replicas \<Rightarrow> PublicKey \<Rightarrow> ReplicaEvent list" where
  "events_of E R K s pk = (case on_disk E R K s pk of None \<Rightarrow> [] | Some db \<Rightarrow> db_events R db)"

text \<open>
  What is relied on: the databases behave, no load of an existing one fails (otherwise its events
  are lost), and the keys in use (the set \<open>K\<close>) have names that can be serialised, different keys
  different ones.
\<close>

definition replica_api_ok :: "externals \<Rightarrow> ('db, 'd, 'w) replica_api \<Rightarrow> PublicKey set \<Rightarrow> bool" where
  "replica_api_ok E R K \<longleftrightarrow> events_db_ok (ta_db (ra_store R)) \<and> databases_load (ta_db (ra_store R)) \<and>
     (\<forall>pk \<in> K. is_ok (to_db_key (ta_name_bytes (ra_store R)) (ta_hex (ra_store R)) (xor_name_of_key E pk))) \<and>
     inj_on (wallet_file E R) K"

text \<open>
  The invariant: databases on disk are in order and hold events of their own wallet only; a
  locked store is the one on disk.
\<close>

definition db_fine :: "('db, 'd, 'w) replica_api \<Rightarrow> PublicKey \<Rightarrow> 'db \<Rightarrow> bool" where
  "db_fine R pk db \<longleftrightarrow> in_order (ra_store R) \<lparr>ts_id = 0, ts_db = db\<rparr> \<and> (\<forall>e \<in> set (db_events R db). event_owner e = pk)"

definition replicas_inv :: "externals \<Rightarrow> ('db, 'd, 'w) replica_api \<Rightarrow> PublicKey set \<Rightarrow> ('db, 'd) Replicas \<Rightarrow> bool" where
  "replicas_inv E R K s \<longleftrightarrow> btm_wf (rp_locks s) \<and>
     (\<forall>pk db. on_disk E R K s pk = Some db \<longrightarrow> db_fine R pk db) \<and>
     (\<forall>pk st. btm_get (rp_locks s) pk = Some st \<longrightarrow> on_disk E R K s pk = Some (ts_db st))"

lemma get_all_db: "get_all (ra_store R) st = db_events R (ts_db st)"
  by (simp add: get_all_def db_events_def)

lemma in_order_db: "in_order T st \<longleftrightarrow> in_order T \<lparr>ts_id = 0, ts_db = ts_db st\<rparr>"
  by (simp add: in_order_def)

lemma locked_events:
  "replicas_inv E R K s \<Longrightarrow> btm_get (rp_locks s) pk = Some st \<Longrightarrow> get_all (ra_store R) st = events_of E R K s pk"
  by (simp add: replicas_inv_def events_of_def get_all_db)

lemma events_of_empty_db:
  assumes "events_db_ok (ta_db (ra_store R))" and "ev_get_all (ta_db (ra_store R)) db = []"
  shows "db_events R db = []" and "in_order (ra_store R) \<lparr>ts_id = 0, ts_db = db\<rparr>"
  using new_store_in_order [OF assms(1), of "\<lparr>ts_id = 0, ts_db = db\<rparr>"] assms(2) by (simp_all add: db_events_def)

text \<open>Opening a store changes no wallet's events.\<close>

lemma new_auto_dump_db_effect:
  assumes D: "events_db_ok D" "databases_load D" and step: "new_auto_dump_db D p m d = (r, d')"
  shows "(q, k) \<noteq> (p, m) \<Longrightarrow> ev_content D q k d' = ev_content D q k d"
    and "ev_content D p m d' = ev_content D p m d \<or> ev_content D p m d = None \<and> ev_content D p m d' = Some (new_bin D p m)"
    and "r = Inr db \<Longrightarrow> ev_content D p m d' = Some db"
proof -
  note load = load_is_content [OF D]
  have "((q, k) \<noteq> (p, m) \<longrightarrow> ev_content D q k d' = ev_content D q k d) \<and>
    (ev_content D p m d' = ev_content D p m d \<or> ev_content D p m d = None \<and> ev_content D p m d' = Some (new_bin D p m)) \<and>
    (r = Inr db \<longrightarrow> ev_content D p m d' = Some db)"
  proof (cases "ev_content D p m d")
    case (Some db0)
    with step show ?thesis by (auto simp: new_auto_dump_db_def load)
  next
    case None
    obtain ok1 d1 where c: "create_dir_all D p d = (ok1, d1)" by (metis surj_pair)
    note cl = events_db_ok_disk(5) [OF D(1) c]
    obtain ok2 d2 where du: "dump D (new_bin D p m) d1 = (ok2, d2)" by (metis surj_pair)
    show ?thesis
    proof (cases "ok1 \<and> ok2")
      case True
      then have "dump D (new_bin D p m) d1 = (True, d2)" using du by simp
      note dl = events_db_ok_disk(6) [OF D(1) this]
      from True step None c du have "r = ok_or PickleDb (ev_content D p m d2)" "d' = d2"
        by (auto simp: new_auto_dump_db_def load)
      with None dl events_db_ok_disk(1) [OF D(1)] cl show ?thesis by auto
    next
      case False
      have "dump D (new_bin D p m) d1 = (False, d2) \<Longrightarrow> ev_content D q k d2 = ev_content D q k d1" for q k
        using events_db_ok_disk(7) [OF D(1)] by blast
      with False step None c du cl show ?thesis
        by (cases ok1; cases ok2) (auto simp: new_auto_dump_db_def load)
    qed
  qed
  then show "(q, k) \<noteq> (p, m) \<Longrightarrow> ev_content D q k d' = ev_content D q k d"
    and "ev_content D p m d' = ev_content D p m d \<or> ev_content D p m d = None \<and> ev_content D p m d' = Some (new_bin D p m)"
    and "r = Inr db \<Longrightarrow> ev_content D p m d' = Some db"
    by simp_all
qed

lemma open_store_effect:
  assumes A: "replica_api_ok E R K" and K: "pk \<in> K" and inv: "replicas_inv E R K s" and step: "open_store E R pk s = (r, s')"
  shows "replicas_inv E R K s'" and "events_of E R K s' = events_of E R K s"
    and "rp_locks s' = rp_locks s" and "rp_info s' = rp_info s" and "rp_root_dir s' = rp_root_dir s"
    and "r = Inr st \<Longrightarrow> on_disk E R K s' pk = Some (ts_db st)"
proof -
  let ?D = "ta_db (ra_store R)" and ?p = "rp_root_dir s @ [TRANSFERS_DIR_NAME]"
  have D: "events_db_ok ?D" "databases_load ?D" using A by (simp_all add: replica_api_ok_def)
  obtain key where key: "to_db_key (ta_name_bytes (ra_store R)) (ta_hex (ra_store R)) (xor_name_of_key E pk) = Inr key"
    using A K by (metis is_ok_simps(1) old.sum.exhaust replica_api_ok_def)
  then have fname: "wallet_file E R pk = key @ DB_EXTENSION" by (simp add: wallet_file_def)
  obtain q d' where db: "new_auto_dump_db ?D ?p (wallet_file E R pk) (rp_disk s) = (q, d')" by (metis surj_pair)
  note ef = new_auto_dump_db_effect [OF D db]
  have res: "s' = s\<lparr>rp_disk := d'\<rparr>" "r = map_sum id (\<lambda>db. \<lparr>ts_id = xor_name_of_key E pk, ts_db = db\<rparr>) q"
    using step db key by (cases q; simp add: open_store_def transfer_store_new_def fname Let_def)+
  have other: "on_disk E R K s' pk' = on_disk E R K s pk'" if "pk' \<noteq> pk" for pk'
    using that A K ef(1) [of ?p "wallet_file E R pk'"] by (auto simp: on_disk_def res replica_api_ok_def dest: inj_onD)
  have same: "on_disk E R K s' pk = on_disk E R K s pk \<or>
      on_disk E R K s pk = None \<and> on_disk E R K s' pk = Some (new_bin ?D ?p (wallet_file E R pk))"
    using ef(2) K by (simp add: on_disk_def res)
  note empty = events_of_empty_db [OF D(1) events_db_okD(5) [OF D(1), of ?p "wallet_file E R pk"]]
  show ev: "events_of E R K s' = events_of E R K s"
  proof
    show "events_of E R K s' pk' = events_of E R K s pk'" for pk'
      using other [of pk'] same empty(1) by (cases "pk' = pk") (auto simp: events_of_def)
  qed
  show "rp_locks s' = rp_locks s" "rp_info s' = rp_info s" "rp_root_dir s' = rp_root_dir s" by (simp_all add: res)
  show "r = Inr st \<Longrightarrow> on_disk E R K s' pk = Some (ts_db st)"
    using ef(3) K by (cases q) (auto simp: res on_disk_def)
  have "db_fine R pk (new_bin ?D ?p (wallet_file E R pk))" using empty by (simp add: db_fine_def)
  then have "db_fine R pk' db" if "on_disk E R K s' pk' = Some db" for pk' db
    using that other [of pk'] same inv unfolding replicas_inv_def by (cases "pk' = pk") (metis option.inject)+
  moreover have "on_disk E R K s' pk' = Some (ts_db st')" if "btm_get (rp_locks s') pk' = Some st'" for pk' st'
    using that other [of pk'] same inv by (cases "pk' = pk") (auto simp: replicas_inv_def res)
  ultimately show "replicas_inv E R K s'" using inv by (simp add: replicas_inv_def res(1))
qed

lemma on_disk_add_lock: "on_disk E R K (add_lock pk st s) = on_disk E R K s"
  by (simp add: fun_eq_iff on_disk_def add_lock_def)

lemma add_lock_inv:
  assumes "replicas_inv E R K s" and "on_disk E R K s pk = Some (ts_db st)"
  shows "replicas_inv E R K (add_lock pk st s)" and "events_of E R K (add_lock pk st s) = events_of E R K s"
  using assms unfolding replicas_inv_def events_of_def fun_eq_iff on_disk_add_lock by (auto simp: add_lock_def)

section \<open>Appending events\<close>

lemma ev_file_on_disk:
  "replica_api_ok E R K \<Longrightarrow> on_disk E R K s pk = Some db \<Longrightarrow>
    ev_file (ta_db (ra_store R)) db = (rp_root_dir s @ [TRANSFERS_DIR_NAME], wallet_file E R pk)"
  using events_db_ok_disk(2) by (fastforce simp: on_disk_def replica_api_ok_def split: if_splits)

lemma insert_locked_effect:
  assumes A: "replica_api_ok E R K" and inv: "replicas_inv E R K s" and lock: "btm_get (rp_locks s) pk = Some st"
    and own: "event_owner e = pk" and room: "length (events_of E R K s pk) < 2 ^ 64"
    and step: "insert_locked R pk st e s = (r, s')"
  shows "replicas_inv E R K s'" and "r = Inr () \<or> r = Inl PickleDb"
    and "events_of E R K s' = (if r = Inr () then (events_of E R K s)(pk := events_of E R K s pk @ [e]) else events_of E R K s)"
    and "rp_info s' = rp_info s" and "\<exists>st'. btm_get (rp_locks s') pk = Some st'"
    and "fst ` set (rp_locks s') = fst ` set (rp_locks s)"
proof -
  let ?D = "ta_db (ra_store R)" and ?p = "rp_root_dir s @ [TRANSFERS_DIR_NAME]"
  have D: "events_db_ok ?D" using A by (simp add: replica_api_ok_def)
  have disk: "on_disk E R K s pk = Some (ts_db st)" using inv lock by (simp add: replicas_inv_def)
  have fine: "db_fine R pk (ts_db st)" using inv disk by (simp add: replicas_inv_def)
  have ord: "in_order (ra_store R) st" using fine in_order_db [of "ra_store R" st] by (simp add: db_fine_def)
  have old: "get_all (ra_store R) st = events_of E R K s pk" by (rule locked_events [OF inv lock])
  obtain st' d' where ins: "try_insert (ra_store R) e st (rp_disk s) = (r, st', d')"
    using step by (auto simp: insert_locked_def Let_def prod_eq_iff)
  have s': "s' = (add_lock pk st' s)\<lparr>rp_disk := d'\<rparr>" using step ins by (simp add: insert_locked_def)
  note ef = try_insert_effect [OF D ord _ ins, unfolded old, OF room]
  note dk = try_insert_disk [OF D ins]
  show "r = Inr () \<or> r = Inl PickleDb" by (rule ef(1))
  show "rp_info s' = rp_info s" "\<exists>st'. btm_get (rp_locks s') pk = Some st'" by (simp_all add: s' add_lock_def)
  have "pk \<in> fst ` set (rp_locks s)" using lock btm_get_keys by fastforce
  then show "fst ` set (rp_locks s') = fst ` set (rp_locks s)" by (simp add: s' add_lock_def keys_btm_insert insert_absorb)
  have here: "on_disk E R K s' pk = Some (ts_db st')"
    using dk(4) disk by (simp add: on_disk_def s' add_lock_def split: if_splits)
  have other: "on_disk E R K s' pk' = on_disk E R K s pk'" if "pk' \<noteq> pk" for pk'
  proof -
    have "pk \<in> K" using disk by (simp add: on_disk_def split: if_splits)
    then have "(?p, wallet_file E R pk') \<noteq> ev_file ?D (ts_db st)" if "pk' \<in> K"
      using that \<open>pk' \<noteq> pk\<close> A ev_file_on_disk [OF A disk] by (auto simp: replica_api_ok_def dest: inj_onD)
    then show ?thesis using dk(3) by (simp add: on_disk_def s' add_lock_def)
  qed
  have new: "db_events R (ts_db st') = (if r = Inr () then events_of E R K s pk @ [e] else events_of E R K s pk)"
    using ef(3) get_all_db [of R st'] by simp
  show "events_of E R K s' = (if r = Inr () then (events_of E R K s)(pk := events_of E R K s pk @ [e]) else events_of E R K s)"
    by (rule ext) (use here other new in \<open>auto simp: events_of_def\<close>)
  have "\<forall>x \<in> set (events_of E R K s pk). event_owner x = pk"
    using fine disk by (simp add: db_fine_def events_of_def)
  then have "db_fine R pk (ts_db st')"
    using ef(2) in_order_db [of "ra_store R" st'] new own by (auto simp: db_fine_def)
  then have "db_fine R pk' db" if "on_disk E R K s' pk' = Some db" for pk' db
    using that other [of pk'] here inv unfolding replicas_inv_def by (cases "pk' = pk") (metis option.inject)+
  moreover have "on_disk E R K s' pk' = Some (ts_db x)" if "btm_get (rp_locks s') pk' = Some x" for pk' x
    using that other [of pk'] here inv by (cases "pk' = pk") (auto simp: replicas_inv_def s' add_lock_def)
  moreover have "btm_wf (rp_locks s')" using inv by (simp add: replicas_inv_def s' add_lock_def)
  ultimately show "replicas_inv E R K s'" by (simp add: replicas_inv_def)
qed

lemma get_load_or_create_effect:
  assumes A: "replica_api_ok E R K" and K: "pk \<in> K" and inv: "replicas_inv E R K s" and step: "get_load_or_create_store E R pk s = (r, s')"
  shows "replicas_inv E R K s'" and "events_of E R K s' = events_of E R K s" and "rp_info s' = rp_info s"
    and "r = Inr st \<Longrightarrow> btm_get (rp_locks s') pk = Some st"
proof -
  have "replicas_inv E R K s' \<and> events_of E R K s' = events_of E R K s \<and> rp_info s' = rp_info s \<and>
    (r = Inr st \<longrightarrow> btm_get (rp_locks s') pk = Some st)"
  proof (cases "load_key_lock pk s")
    case (Inr st0)
    with step inv show ?thesis by (auto simp: get_load_or_create_store_def load_key_lock_def)
  next
    case (Inl e)
    obtain r1 s1 where o1: "open_store E R pk s = (r1, s1)" by (metis surj_pair)
    note e1 = open_store_effect [OF A K inv o1]
    obtain r2 s2 where o2: "open_store E R pk s1 = (r2, s2)" by (metis surj_pair)
    note e2 = open_store_effect [OF A K e1(1) o2]
    define q where "q = (if is_ok r1 then (r1, s1) else (r2, s2))"
    have q: "replicas_inv E R K (snd q)" "events_of E R K (snd q) = events_of E R K s" "rp_info (snd q) = rp_info s"
      "fst q = Inr x \<Longrightarrow> on_disk E R K (snd q) pk = Some (ts_db x)" for x
      using e1 e2 by (auto simp: q_def)
    have "get_load_or_create_store E R pk s = (case q of (Inl e, s2) \<Rightarrow> (Inl e, s2) | (Inr st, s2) \<Rightarrow> (Inr st, add_lock pk st s2))"
      using Inl by (cases r1) (auto simp: get_load_or_create_store_def o1 o2 q_def)
    with step q add_lock_inv [of E R K "snd q" pk] show ?thesis
      by (cases q; cases "fst q") (auto simp: add_lock_def)
  qed
  then show "replicas_inv E R K s'" and "events_of E R K s' = events_of E R K s" and "rp_info s' = rp_info s"
    and "r = Inr st \<Longrightarrow> btm_get (rp_locks s') pk = Some st"
    by simp_all
qed

lemma append_event_effect:
  assumes A: "replica_api_ok E R K" and K: "pk \<in> K" and inv: "replicas_inv E R K s" and own: "event_owner e = pk"
    and room: "length (events_of E R K s pk) < 2 ^ 64" and step: "append_event E R pk e s = (r, s')"
  shows "replicas_inv E R K s'" and "rp_info s' = rp_info s"
    and "events_of E R K s' = (if r = Inr () then (events_of E R K s)(pk := events_of E R K s pk @ [e]) else events_of E R K s)"
proof -
  obtain r1 s1 where g: "get_load_or_create_store E R pk s = (r1, s1)" by (metis surj_pair)
  note ge = get_load_or_create_effect [OF A K inv g]
  have "replicas_inv E R K s' \<and> rp_info s' = rp_info s \<and>
    events_of E R K s' = (if r = Inr () then (events_of E R K s)(pk := events_of E R K s pk @ [e]) else events_of E R K s)"
  proof (cases r1)
    case (Inl x)
    with step g ge show ?thesis by (auto simp: append_event_def)
  next
    case (Inr st)
    have ins: "insert_locked R pk st e s1 = (r, s')" using step g Inr by (simp add: append_event_def)
    have room1: "length (events_of E R K s1 pk) < 2 ^ 64" using room ge(2) by simp
    note ie = insert_locked_effect [OF A ge(1) ge(4) [OF Inr] own room1 ins]
    show ?thesis using ie ge(2,3) by simp
  qed
  then show "replicas_inv E R K s'" and "rp_info s' = rp_info s"
    and "events_of E R K s' = (if r = Inr () then (events_of E R K s)(pk := events_of E R K s pk @ [e]) else events_of E R K s)"
    by simp_all
qed

lemma store_and_apply_effect:
  assumes A: "replica_api_ok E R K" and inv: "replicas_inv E R K s" and lock: "btm_get (rp_locks s) pk = Some st"
    and own: "event_owner e = pk" and room: "length (events_of E R K s pk) < 2 ^ 64"
    and step: "store_and_apply R pk st w e s = (r, s')"
  shows "replicas_inv E R K s'" and "rp_info s' = rp_info s" and "\<exists>st'. btm_get (rp_locks s') pk = Some st'"
    and "events_of E R K s' \<in> {events_of E R K s, (events_of E R K s)(pk := events_of E R K s pk @ [e])}"
    and "r = Inr () \<Longrightarrow> events_of E R K s' = (events_of E R K s)(pk := events_of E R K s pk @ [e])"
proof -
  obtain r1 where ins: "insert_locked R pk st e s = (r1, s')"
    and r: "r = Inr () \<Longrightarrow> r1 = Inr ()"
    using step by (auto simp: store_and_apply_def split: prod.splits sum.splits)
  note ie = insert_locked_effect [OF A inv lock own room ins]
  show "replicas_inv E R K s'" "rp_info s' = rp_info s" "\<exists>st'. btm_get (rp_locks s') pk = Some st'" by (rule ie)+
  show "events_of E R K s' \<in> {events_of E R K s, (events_of E R K s)(pk := events_of E R K s pk @ [e])}"
    using ie(3) by simp
  show "r = Inr () \<Longrightarrow> events_of E R K s' = (events_of E R K s)(pk := events_of E R K s pk @ [e])"
    using ie(3) r by simp
qed

section \<open>Commands\<close>

datatype (plugins only: code size) replica_cmd =
    CmdValidate SignedTransfer
  | CmdRegister TransferAgreementProof
  | CmdPropagate CreditAgreementProof

fun cmd_wallet :: "replica_cmd \<Rightarrow> PublicKey" where
  "cmd_wallet (CmdValidate t) = st_sender t"
| "cmd_wallet (CmdRegister p) = tap_sender p"
| "cmd_wallet (CmdPropagate c) = cap_recipient c"

text \<open>A command, with the event it reports.\<close>

fun exec_cmd :: "externals \<Rightarrow> bls_api \<Rightarrow> ('db, 'd, 'w) replica_api \<Rightarrow> replica_cmd \<Rightarrow> ('db, 'd) Replicas \<Rightarrow>
    ReplicaEvent result \<times> ('db, 'd) Replicas" where
  "exec_cmd E B R (CmdValidate t) s = (let res = replica_validate R t s in (map_sum id TransferValidatedEv (fst res), snd res))"
| "exec_cmd E B R (CmdRegister p) s = (let res = replica_register B R p s in (map_sum id TransferRegistered (fst res), snd res))"
| "exec_cmd E B R (CmdPropagate c) s =
     (let res = replica_receive_propagated E R c s in (map_sum id TransferPropagated (fst res), snd res))"

text \<open>A wallet reports as registered the transfer it was given.\<close>

definition wallet_ok :: "'w wallet_api \<Rightarrow> bool" where
  "wallet_ok W \<longleftrightarrow> (\<forall>w p q. w_register W w p = Inr (Some q) \<longrightarrow> q = p)"

text \<open>What a command may do to the recorded events.\<close>

definition appends :: "externals \<Rightarrow> ('db, 'd, 'w) replica_api \<Rightarrow> PublicKey set \<Rightarrow> PublicKey \<Rightarrow> ReplicaEvent list \<Rightarrow> ('db, 'd) Replicas \<Rightarrow>
    ('db, 'd) Replicas \<Rightarrow> bool" where
  "appends E R K pk evs s s' \<longleftrightarrow> replicas_inv E R K s' \<and> events_of E R K s' = (events_of E R K s)(pk := events_of E R K s pk @ evs)"

lemma appends_Nil: "replicas_inv E R K s' \<Longrightarrow> events_of E R K s' = events_of E R K s \<Longrightarrow> appends E R K pk [] s s'"
  by (simp add: appends_def)

lemma store_and_apply_appends:
  assumes A: "replica_api_ok E R K" and inv: "replicas_inv E R K s" and lock: "btm_get (rp_locks s) pk = Some st"
    and own: "event_owner e = pk" and room: "length (events_of E R K s pk) < 2 ^ 64"
    and step: "store_and_apply R pk st w e s = (r, s')"
  obtains evs where "appends E R K pk evs s s'" "length evs \<le> 1" "r = Inr () \<longrightarrow> evs = [e]"
proof -
  note sa = store_and_apply_effect [OF A inv lock own room step]
  show ?thesis
  proof (cases "r = Inr ()")
    case True
    with sa show ?thesis by (intro that [of "[e]"]) (simp_all add: appends_def)
  next
    case False
    with sa(1,4) show ?thesis by (auto simp: appends_def intro: that [of "[]"] that [of "[e]"])
  qed
qed

lemma load_key_lock_Inr: "load_key_lock pk s = Inr st \<longleftrightarrow> btm_get (rp_locks s) pk = Some st"
  by (simp add: load_key_lock_def)

lemma validate_appends:
  assumes A: "replica_api_ok E R K" and inv: "replicas_inv E R K s" and room: "length (events_of E R K s (st_sender t)) < 2 ^ 64"
    and step: "replica_validate R t s = (r, s')"
  shows "\<exists>evs. appends E R K (st_sender t) evs s s' \<and> length evs \<le> 1 \<and> (\<forall>e. r = Inr e \<longrightarrow> evs = [TransferValidatedEv e])"
proof -
  let ?x = "and_then (load_key_lock (st_sender t) s) (\<lambda>st. and_then (load_wallet R st (st_sender t) s) (\<lambda>wallet.
    and_then (map_err TransferError (w_validate (ra_wallet R) wallet (st_debit t) (st_credit t))) (\<lambda>_.
    and_then (sign_transfer R (ri_signing (rp_info s)) t) (\<lambda>sigs. Inr (st, wallet, sigs)))))"
  show ?thesis
  proof (cases ?x)
    case (Inl e)
    with step have "r = Inl e" "s' = s" by (auto simp: replica_validate_def Let_def)
    with inv show ?thesis by (intro exI [of _ "[]"]) (simp add: appends_def)
  next
    case (Inr q)
    obtain st w ds cs where q: "q = (st, w, ds, cs)" by (cases q) auto
    have lock: "btm_get (rp_locks s) (st_sender t) = Some st"
      using Inr q by (auto simp: and_then_Inr_iff load_key_lock_Inr)
    define ev where "ev = \<lparr>tv_signed_credit = st_credit t, tv_signed_debit = st_debit t, tv_replica_debit_sig = ds,
      tv_replica_credit_sig = cs, tv_replicas = ri_peer_replicas (rp_info s)\<rparr>"
    obtain r1 s1 where sa: "store_and_apply R (st_sender t) st w (TransferValidatedEv ev) s = (r1, s1)" by (metis surj_pair)
    have res: "r = and_then r1 (\<lambda>_. Inr ev)" "s' = s1"
      using step Inr sa by (simp_all add: replica_validate_def Let_def q ev_def)
    have own: "event_owner (TransferValidatedEv ev) = st_sender t" by (simp add: ev_def tv_sender_def st_sender_def)
    from store_and_apply_appends [OF A inv lock own room sa] obtain evs where
        "appends E R K (st_sender t) evs s s1" "length evs \<le> 1" "r1 = Inr () \<longrightarrow> evs = [TransferValidatedEv ev]" .
    with res show ?thesis by (intro exI [of _ evs]) (auto simp: and_then_Inr_iff)
  qed
qed

lemma register_appends:
  assumes A: "replica_api_ok E R K" and W: "wallet_ok (ra_wallet R)" and inv: "replicas_inv E R K s"
    and room: "length (events_of E R K s (tap_sender p)) < 2 ^ 64" and step: "replica_register B R p s = (r, s')"
  shows "\<exists>evs. appends E R K (tap_sender p) evs s s' \<and> length evs \<le> 1 \<and> (\<forall>e. r = Inr e \<longrightarrow> evs = [TransferRegistered e] \<and> e = p)"
proof (cases "exists_in_chain (public_key B (tap_debiting_replicas_keys p)) s")
  case False
  with step have "r = Inl (TransferError SectionKeyNeverExisted)" "s' = s" by (auto simp: replica_register_def Let_def)
  with inv show ?thesis by (intro exI [of _ "[]"]) (simp add: appends_def)
next
  case True
  let ?x = "and_then (load_key_lock (tap_sender p) s) (\<lambda>st. and_then (load_wallet R st (tap_sender p) s) (\<lambda>wallet.
    and_then (map_err TransferError (w_register (ra_wallet R) wallet p)) (\<lambda>registered. Inr (st, wallet, registered))))"
  show ?thesis
  proof (cases ?x)
    case (Inl e)
    with step True have "r = Inl e" "s' = s" by (auto simp: replica_register_def Let_def)
    with inv show ?thesis by (intro exI [of _ "[]"]) (simp add: appends_def)
  next
    case (Inr q)
    obtain st w reg where q: "q = (st, w, reg)" by (cases q) auto
    have lock: "btm_get (rp_locks s) (tap_sender p) = Some st" and wr: "w_register (ra_wallet R) w p = Inr reg"
      using Inr q by (auto simp: and_then_Inr_iff load_key_lock_Inr)
    show ?thesis
    proof (cases reg)
      case None
      with step True Inr q have "r = Inl TransferAlreadyRegistered" "s' = s" by (simp_all add: replica_register_def Let_def)
      with inv show ?thesis by (intro exI [of _ "[]"]) (simp add: appends_def)
    next
      case (Some ev)
      then have ev: "ev = p" using W wr by (simp add: wallet_ok_def)
      obtain r1 s1 where sa: "store_and_apply R (tap_sender p) st w (TransferRegistered p) s = (r1, s1)" by (metis surj_pair)
      have res: "r = and_then r1 (\<lambda>_. Inr p)" "s' = s1"
        using step True Inr sa Some ev by (simp_all add: replica_register_def Let_def q)
      have own: "event_owner (TransferRegistered p) = tap_sender p" by simp
      from store_and_apply_appends [OF A inv lock own room sa] obtain evs where
          "appends E R K (tap_sender p) evs s s1" "length evs \<le> 1" "r1 = Inr () \<longrightarrow> evs = [TransferRegistered p]" .
      with res show ?thesis by (intro exI [of _ evs]) (auto simp: and_then_Inr_iff)
    qed
  qed
qed

lemma load_wallet_events:
  "replicas_inv E R K s \<Longrightarrow> btm_get (rp_locks s) pk = Some st \<Longrightarrow>
    load_wallet R st pk s = map_err TransferError (from_history (ra_wallet R) pk (rp_info s) (events_of E R K s pk))"
  by (simp add: load_wallet_def locked_events)

text \<open>The store is locked, or opened and locked.\<close>

definition lock_or_open :: "externals \<Rightarrow> ('db, 'd, 'w) replica_api \<Rightarrow> PublicKey \<Rightarrow> ('db, 'd) Replicas \<Rightarrow>
    'db TransferStore result \<times> ('db, 'd) Replicas" where
  "lock_or_open E R pk s = (case load_key_lock pk s of
     Inr st \<Rightarrow> (Inr st, s)
   | Inl _ \<Rightarrow> (case open_store E R pk s of (Inl e, s1) \<Rightarrow> (Inl e, s1) | (Inr st, s1) \<Rightarrow> (Inr st, add_lock pk st s1)))"

lemma lock_or_open_effect:
  assumes A: "replica_api_ok E R K" and K: "pk \<in> K" and inv: "replicas_inv E R K s" and step: "lock_or_open E R pk s = (r, s')"
  shows "replicas_inv E R K s'" and "events_of E R K s' = events_of E R K s" and "rp_info s' = rp_info s"
    and "r = Inr st \<Longrightarrow> btm_get (rp_locks s') pk = Some st"
proof -
  obtain r1 s1 where o1: "open_store E R pk s = (r1, s1)" by (metis surj_pair)
  note e1 = open_store_effect [OF A K inv o1]
  have "replicas_inv E R K s' \<and> events_of E R K s' = events_of E R K s \<and> rp_info s' = rp_info s \<and>
    (r = Inr st \<longrightarrow> btm_get (rp_locks s') pk = Some st)"
  proof (cases "load_key_lock pk s")
    case (Inl e)
    with step o1 e1 add_lock_inv [of E R K s1 pk] show ?thesis
      by (cases r1) (auto simp: lock_or_open_def add_lock_def)
  next
    case (Inr st0)
    with step inv show ?thesis by (auto simp: lock_or_open_def load_key_lock_Inr)
  qed
  then show "replicas_inv E R K s'" and "events_of E R K s' = events_of E R K s" and "rp_info s' = rp_info s"
    and "r = Inr st \<Longrightarrow> btm_get (rp_locks s') pk = Some st"
    by simp_all
qed

text \<open>The ways the receipt of a credit can end.\<close>

lemma propagate_cases:
  assumes A: "replica_api_ok E R K" and K: "cap_recipient c \<in> K" and inv: "replicas_inv E R K s" and room: "length (events_of E R K s (cap_recipient c)) < 2 ^ 64"
    and step: "replica_receive_propagated E R c s = (r, s')"
  obtains (failed) e where "r = Inl e" "appends E R K (cap_recipient c) [] s s'"
    "\<And>st w. btm_get (rp_locks s) (cap_recipient c) = Some st \<Longrightarrow>
      from_history (ra_wallet R) (cap_recipient c) (rp_info s) (events_of E R K s (cap_recipient c)) = Inr w \<Longrightarrow>
      w_receive_propagated (ra_wallet R) w c \<noteq> Inr None"
  | (known) w where "r = Inr c" "appends E R K (cap_recipient c) [] s s'" "rp_info s' = rp_info s"
    "\<exists>st. btm_get (rp_locks s') (cap_recipient c) = Some st"
    "from_history (ra_wallet R) (cap_recipient c) (rp_info s) (events_of E R K s (cap_recipient c)) = Inr w"
    "w_receive_propagated (ra_wallet R) w c = Inr None"
  | (stored) evs where "appends E R K (cap_recipient c) evs s s'" "length evs \<le> 1" "rp_info s' = rp_info s"
    "\<exists>st. btm_get (rp_locks s') (cap_recipient c) = Some st"
    "r = Inr c \<longrightarrow> evs = [TransferPropagated c]" "\<forall>x. r = Inr x \<longrightarrow> x = c"
    "\<exists>w. from_history (ra_wallet R) (cap_recipient c) (rp_info s) (events_of E R K s (cap_recipient c)) = Inr w \<and>
      w_receive_propagated (ra_wallet R) w c \<noteq> Inr None"
proof -
  let ?pk = "cap_recipient c"
  obtain r1 s1 where l: "lock_or_open E R ?pk s = (r1, s1)" by (metis surj_pair)
  note le = lock_or_open_effect [OF A K inv l]
  have unchanged: "appends E R K ?pk [] s s1" using le by (simp add: appends_def)
  note step' = step [unfolded replica_receive_propagated_def Let_def, folded lock_or_open_def, unfolded l]
  show ?thesis
  proof (cases r1)
    case (Inl e)
    then have "btm_get (rp_locks s) ?pk = None" using l by (auto simp: lock_or_open_def load_key_lock_def ok_or_def split: option.splits)
    with Inl step' unchanged show ?thesis by (intro failed [of e]) auto
  next
    case (Inr st)
    note lock = le(4) [OF Inr]
    have wal: "load_wallet R st ?pk s1 = map_err TransferError (from_history (ra_wallet R) ?pk (rp_info s) (events_of E R K s ?pk))"
      using load_wallet_events [OF le(1) lock] le(2,3) by simp
    show ?thesis
    proof (cases "from_history (ra_wallet R) ?pk (rp_info s) (events_of E R K s ?pk)")
      case h: (Inl e)
      with step' Inr wal unchanged show ?thesis by (intro failed [of "TransferError e"]) auto
    next
      case h: (Inr w)
      show ?thesis
      proof (cases "w_receive_propagated (ra_wallet R) w c")
        case (Inl e)
        with step' Inr wal h unchanged show ?thesis by (intro failed [of "InvalidPropagatedTransfer c"]) auto
      next
        case p: (Inr known)
        show ?thesis
        proof (cases known)
          case None
          with step' Inr wal h p unchanged le(3) lock show ?thesis by (intro known [of w]) auto
        next
          case (Some u)
          obtain r2 s2 where sa: "store_and_apply R ?pk st w (TransferPropagated c) s1 = (r2, s2)" by (metis surj_pair)
          have res: "r = and_then r2 (\<lambda>_. Inr c)" "s' = s2" using step' Inr wal h p Some sa by simp_all
          have room1: "length (events_of E R K s1 ?pk) < 2 ^ 64" using room le(2) by simp
          have own: "event_owner (TransferPropagated c) = ?pk" by simp
          from store_and_apply_appends [OF A le(1) lock own room1 sa] obtain evs where
              ap: "appends E R K ?pk evs s1 s2" "length evs \<le> 1" "r2 = Inr () \<longrightarrow> evs = [TransferPropagated c]" .
          have "appends E R K ?pk evs s s2" using ap(1) le(2) by (simp add: appends_def)
          with ap(2,3) res le(3) store_and_apply_effect(2,3) [OF A le(1) lock own room1 sa] h p Some show ?thesis
            by (intro stored [of evs]) (auto simp: and_then_Inr_iff)
        qed
      qed
    qed
  qed
qed

lemma exec_cmd_appends:
  assumes A: "replica_api_ok E R K" and K: "cmd_wallet cmd \<in> K" and W: "wallet_ok (ra_wallet R)" and inv: "replicas_inv E R K s"
    and room: "length (events_of E R K s (cmd_wallet cmd)) < 2 ^ 64" and step: "exec_cmd E B R cmd s = (r, s')"
  shows "\<exists>evs. appends E R K (cmd_wallet cmd) evs s s' \<and> length evs \<le> 1 \<and>
    (\<forall>e. r = Inr e \<longrightarrow> evs = [e] \<or> evs = [] \<and> (\<exists>c. cmd = CmdPropagate c))"
proof (cases cmd)
  case (CmdValidate t)
  obtain r1 where "replica_validate R t s = (r1, s')" "r = map_sum id TransferValidatedEv r1"
    using step CmdValidate by (auto simp: Let_def prod_eq_iff)
  with validate_appends [OF A inv, of t r1 s'] room CmdValidate show ?thesis by (cases r1) fastforce+
next
  case (CmdRegister p)
  obtain r1 where "replica_register B R p s = (r1, s')" "r = map_sum id TransferRegistered r1"
    using step CmdRegister by (auto simp: Let_def prod_eq_iff)
  with register_appends [OF A W inv, of p B r1 s'] room CmdRegister show ?thesis by (cases r1) fastforce+
next
  case (CmdPropagate c)
  obtain r1 where p: "replica_receive_propagated E R c s = (r1, s')" and r: "r = map_sum id TransferPropagated r1"
    using step CmdPropagate by (auto simp: Let_def prod_eq_iff)
  have room': "length (events_of E R K s (cap_recipient c)) < 2 ^ 64" and K': "cap_recipient c \<in> K"
    using room K CmdPropagate by simp_all
  from A K' inv room' p show ?thesis
  proof (cases rule: propagate_cases)
    case (failed e)
    with r CmdPropagate show ?thesis by (intro exI [of _ "[]"]) simp
  next
    case (known w)
    with r CmdPropagate show ?thesis by (intro exI [of _ "[]"]) simp
  next
    case (stored evs)
    with r CmdPropagate show ?thesis by (cases r1) (auto intro!: exI [of _ evs])
  qed
qed

end
