(* ===== verification/Wallet_Guarantees.thy ===== *)
theory Wallet_Guarantees
  imports Replicas_Correct "HOL-Library.Sublist"
begin

text \<open>
  What the replicas guarantee to the users of the wallets: acknowledged transfers stay recorded
  and in order, propagation is idempotent, the state moves intact to a new elder, and the
  reported history has no transfer twice.
\<close>

section \<open>Sequences of commands\<close>

text \<open>The acknowledged validations and registrations of one wallet.\<close>

fun acknowledged :: "PublicKey \<Rightarrow> replica_cmd list \<Rightarrow> ReplicaEvent result list \<Rightarrow> ReplicaEvent list" where
  "acknowledged pk (cmd # cmds) (r # rs) =
     (case (cmd, r) of
        (CmdPropagate _, _) \<Rightarrow> []
      | (_, Inl _) \<Rightarrow> []
      | (_, Inr e) \<Rightarrow> if cmd_wallet cmd = pk then [e] else []) @ acknowledged pk cmds rs"
| "acknowledged pk _ _ = []"

lemma run_appends:
  assumes A: "replica_api_ok E R K" and W: "wallet_ok (ra_wallet R)" and inv: "replicas_inv E R K s"
    and K: "\<forall>cmd \<in> set cmds. cmd_wallet cmd \<in> K"
    and room: "\<forall>pk. length (events_of E R K s pk) + length cmds \<le> 2 ^ 64"
    and run: "run_steps (exec_cmd E B R) cmds s = (rs, s')"
  shows "replicas_inv E R K s' \<and> (\<exists>evs. events_of E R K s' pk = events_of E R K s pk @ evs \<and>
    length evs \<le> length (filter (\<lambda>cmd. cmd_wallet cmd = pk) cmds) \<and> subseq (acknowledged pk cmds rs) evs)"
  using inv K room run
proof (induction cmds arbitrary: s rs)
  case (Cons cmd cmds)
  let ?w = "cmd_wallet cmd"
  obtain r s1 rs1 where step: "exec_cmd E B R cmd s = (r, s1)" and rest: "run_steps (exec_cmd E B R) cmds s1 = (rs1, s')"
    and rs: "rs = r # rs1"
    using Cons.prems(4) by (cases "exec_cmd E B R cmd s") (auto simp: Let_def prod_eq_iff)
  have "length (events_of E R K s ?w) + Suc (length cmds) \<le> 2 ^ 64" using Cons.prems(3) by simp
  then have lt: "length (events_of E R K s ?w) < 2 ^ 64" by linarith
  have wK: "?w \<in> K" using Cons.prems(2) by simp
  from exec_cmd_appends [OF A wK W Cons.prems(1) lt step] obtain new where
    new: "appends E R K ?w new s s1" "length new \<le> 1"
      "\<forall>e. r = Inr e \<longrightarrow> new = [e] \<or> new = [] \<and> (\<exists>c. cmd = CmdPropagate c)" by blast
  have inv1: "replicas_inv E R K s1" and ev1: "events_of E R K s1 = (events_of E R K s)(?w := events_of E R K s ?w @ new)"
    using new(1) by (simp_all add: appends_def)
  have "length (events_of E R K s1 k) \<le> Suc (length (events_of E R K s k))" for k
    using new(2) by (simp add: ev1)
  moreover have "length (events_of E R K s k) + Suc (length cmds) \<le> 2 ^ 64" for k
    using Cons.prems(3) by simp
  ultimately have room1: "\<forall>k. length (events_of E R K s1 k) + length cmds \<le> 2 ^ 64"
    by (metis (no_types, lifting) add_Suc_shift add_mono_thms_linordered_semiring(3) le_trans)
  from Cons.IH [OF inv1 _ room1 rest] Cons.prems(2) obtain evs where
    evs: "replicas_inv E R K s'" "events_of E R K s' pk = events_of E R K s1 pk @ evs"
      "length evs \<le> length (filter (\<lambda>cmd. cmd_wallet cmd = pk) cmds)" "subseq (acknowledged pk cmds rs1) evs"
    by auto
  let ?here = "if ?w = pk then new else []"
  have "subseq (acknowledged pk [cmd] [r]) ?here"
    using new(3) by (cases r; cases cmd) auto
  then have "subseq (acknowledged pk [cmd] [r] @ acknowledged pk cmds rs1) (?here @ evs)"
    using evs(4) by (rule list_emb_append_mono)
  then have "subseq (acknowledged pk (cmd # cmds) rs) (?here @ evs)" by (simp add: rs)
  moreover have "events_of E R K s' pk = events_of E R K s pk @ ?here @ evs" using evs(2) by (simp add: ev1)
  moreover have "length (?here @ evs) \<le> length (filter (\<lambda>cmd. cmd_wallet cmd = pk) (cmd # cmds))" using evs(3) new(2) by simp
  ultimately show ?case using evs(1) by blast
qed simp

section \<open>Moving the state to another replica\<close>

lemma open_locked:
  assumes A: "replica_api_ok E R K" and inv: "replicas_inv E R K s" and lock: "pk \<in> fst ` set (rp_locks s)"
  shows "\<exists>st. open_store E R pk s = (Inr st, s) \<and> get_all (ra_store R) st = events_of E R K s pk"
proof -
  obtain st where "btm_get (rp_locks s) pk = Some st" using lock btm_get_keys [of "rp_locks s" pk] by auto
  then have disk: "on_disk E R K s pk = Some (ts_db st)" using inv by (simp add: replicas_inv_def)
  then have K: "pk \<in> K" by (simp add: on_disk_def split: if_splits)
  obtain key where key: "to_db_key (ta_name_bytes (ra_store R)) (ta_hex (ra_store R)) (xor_name_of_key E pk) = Inr key"
    using A K by (metis is_ok_simps(1) old.sum.exhaust replica_api_ok_def)
  then have "ev_content (ta_db (ra_store R)) (rp_root_dir s @ [TRANSFERS_DIR_NAME]) (key @ DB_EXTENSION) (rp_disk s) = Some (ts_db st)"
    using disk K by (simp add: on_disk_def wallet_file_def)
  then have "load_bin (ta_db (ra_store R)) (rp_root_dir s @ [TRANSFERS_DIR_NAME]) (key @ DB_EXTENSION) (rp_disk s) = Some (ts_db st)"
    using A by (simp add: replica_api_ok_def load_is_content)
  then show ?thesis using disk key
    by (simp add: open_store_def transfer_store_new_def new_auto_dump_db_def Let_def events_of_def get_all_db)
qed

lemma all_events_locked:
  assumes A: "replica_api_ok E R K" and inv: "replicas_inv E R K s"
  shows "all_events E R s = (Inr (concat (map (events_of E R K s) (map fst (rp_locks s)))), s)"
proof -
  have "fold (\<lambda>pk acc. case open_store E R pk (snd acc) of
      (Inr st, s1) \<Rightarrow> (fst acc @ get_all (ra_store R) st, s1) | (Inl _, s1) \<Rightarrow> (fst acc, s1)) ks (acc, s) =
    (acc @ concat (map (events_of E R K s) ks), s)" if "set ks \<subseteq> fst ` set (rp_locks s)" for ks acc
    using that
  proof (induction ks arbitrary: acc)
    case (Cons k ks)
    then obtain st where "open_store E R k s = (Inr st, s)" "get_all (ra_store R) st = events_of E R K s k"
      using open_locked [OF A inv, of k] by auto
    with Cons show ?case by simp
  qed simp
  from this [of "map fst (rp_locks s)" "[]"] show ?thesis by (simp add: all_events_def Let_def)
qed

lemma initiate_appends:
  assumes A: "replica_api_ok E R K" and inv: "replicas_inv E R K t" and K: "\<forall>e \<in> set es. event_owner e \<in> K"
    and room: "\<forall>pk. length (events_of E R K t pk) + length es \<le> 2 ^ 64"
    and run: "try_fold (\<lambda>e. append_event E R (event_owner e) e) es t = (Inr (), t')"
  shows "replicas_inv E R K t' \<and> events_of E R K t' pk = events_of E R K t pk @ filter (\<lambda>e. event_owner e = pk) es"
  using inv K room run
proof (induction es arbitrary: t)
  case (Cons e es)
  from Cons.prems(4) obtain t1 where step: "append_event E R (event_owner e) e t = (Inr (), t1)"
    and rest: "try_fold (\<lambda>e. append_event E R (event_owner e) e) es t1 = (Inr (), t')"
    by (rule try_fold_Cons_OkD)
  have all: "length (events_of E R K t k) + Suc (length es) \<le> 2 ^ 64" for k using Cons.prems(3) by simp
  have lt: "length (events_of E R K t (event_owner e)) < 2 ^ 64" using all [of "event_owner e"] by linarith
  have own: "event_owner e \<in> K" using Cons.prems(2) by simp
  note ef = append_event_effect [OF A own Cons.prems(1) refl lt step]
  have ev: "events_of E R K t1 = (events_of E R K t)(event_owner e := events_of E R K t (event_owner e) @ [e])"
    using ef(3) by simp
  have "length (events_of E R K t1 k) + length es \<le> length (events_of E R K t k) + Suc (length es)" for k
    by (simp add: ev)
  then have "\<forall>k. length (events_of E R K t1 k) + length es \<le> 2 ^ 64" using all le_trans by blast
  from Cons.IH [OF ef(1) _ this rest] Cons.prems(2) ev show ?case by auto
qed simp

lemma filter_owner_concat:
  assumes "\<And>k e. e \<in> set (f k) \<Longrightarrow> owner e = k" and "distinct ks"
  shows "filter (\<lambda>e. owner e = k) (concat (map f ks)) = (if k \<in> set ks then f k else [])"
  using assms(2)
proof (induction ks)
  case (Cons x ks)
  have "filter (\<lambda>e. owner e = k) (f x) = (if x = k then f x else [])"
    using assms(1) [of _ x] by (cases "x = k") (simp_all add: filter_id_conv filter_empty_conv)
  with Cons show ?case by auto
qed simp

lemma events_own: "replicas_inv E R K s \<Longrightarrow> e \<in> set (events_of E R K s pk) \<Longrightarrow> event_owner e = pk"
  by (cases "on_disk E R K s pk") (simp_all add: replicas_inv_def events_of_def db_fine_def)

lemma locked_in_use: "replicas_inv E R K s \<Longrightarrow> pk \<in> fst ` set (rp_locks s) \<Longrightarrow> pk \<in> K"
  using btm_get_keys [of "rp_locks s" pk] by (auto simp: replicas_inv_def on_disk_def split: if_splits)

section \<open>Histories\<close>

lemma unique_by_keys: "f ` set (unique_by f xs) = f ` set xs"
proof (induction f xs rule: unique_by.induct)
  case (2 f x xs)
  have "f ` set (filter (\<lambda>y. f y \<noteq> f x) (unique_by f xs)) = f ` set (unique_by f xs) - {f x}" by auto
  with 2 show ?case by simp
qed simp

lemma unique_by_sub: "set (unique_by f xs) \<subseteq> set xs"
  by (induction f xs rule: unique_by.induct) auto

lemma unique_by_distinct: "distinct (map f (unique_by f xs))"
  by (induction f xs rule: unique_by.induct) (auto simp: distinct_map_filter)

text \<open>The recorded credits and debits.\<close>

definition recorded_credits :: "ReplicaEvent list \<Rightarrow> CreditAgreementProof set" where
  "recorded_credits events = {c. TransferPropagated c \<in> set events}"

definition recorded_debits :: "ReplicaEvent list \<Rightarrow> TransferAgreementProof set" where
  "recorded_debits events = {p. TransferRegistered p \<in> set events}"

lemma get_credits_sound:
  "distinct (map cap_id (get_credits evs))" "set (get_credits evs) \<subseteq> recorded_credits evs"
  "cap_id ` set (get_credits evs) = cap_id ` recorded_credits evs"
proof -
  let ?cs = "List.map_filter (\<lambda>e. case e of TransferPropagated p \<Rightarrow> Some p | _ \<Rightarrow> None) evs"
  have cs: "set ?cs = recorded_credits evs"
    by (force simp: recorded_credits_def map_filter_def split: ReplicaEvent.splits)
  show "distinct (map cap_id (get_credits evs))" by (simp add: get_credits_def unique_by_distinct)
  show "set (get_credits evs) \<subseteq> recorded_credits evs"
    unfolding get_credits_def cs [symmetric] by (rule unique_by_sub)
  show "cap_id ` set (get_credits evs) = cap_id ` recorded_credits evs"
    by (simp add: get_credits_def unique_by_keys cs)
qed

lemma get_debits_sound:
  "distinct (map tap_id (get_debits evs))" "set (get_debits evs) \<subseteq> recorded_debits evs"
  "tap_id ` set (get_debits evs) = tap_id ` recorded_debits evs" "sorted (map (\<lambda>t. snd (tap_id t)) (get_debits evs))"
proof -
  let ?ds = "List.map_filter (\<lambda>e. case e of TransferRegistered p \<Rightarrow> Some p | _ \<Rightarrow> None) evs"
  have ds: "set ?ds = recorded_debits evs"
    by (force simp: recorded_debits_def map_filter_def split: ReplicaEvent.splits)
  have d: "distinct (map tap_id (unique_by tap_id ?ds))" by (rule unique_by_distinct)
  then show "distinct (map tap_id (get_debits evs))"
    by (simp add: get_debits_def distinct_map distinct_sort inj_on_def)
  show "set (get_debits evs) \<subseteq> recorded_debits evs"
    unfolding get_debits_def ds [symmetric] using unique_by_sub [of tap_id ?ds] by simp
  show "tap_id ` set (get_debits evs) = tap_id ` recorded_debits evs"
    by (simp add: get_debits_def unique_by_keys ds)
  show "sorted (map (\<lambda>t. snd (tap_id t)) (get_debits evs))" by (simp add: get_debits_def)
qed

lemma history_of_events:
  assumes A: "replica_api_ok E R K" and inv: "replicas_inv E R K s" and lock: "pk \<in> fst ` set (rp_locks s)"
  shows "history E R pk s =
    (Inr \<lparr>credits = get_credits (events_of E R K s pk), debits = get_debits (events_of E R K s pk)\<rparr>, s)"
proof -
  obtain st where "open_store E R pk s = (Inr st, s)" "get_all (ra_store R) st = events_of E R K s pk"
    using open_locked [OF A inv lock] by blast
  then show ?thesis by (simp add: history_def Let_def get_credits_def get_debits_def map_filter_def)
qed

section \<open>A small instance\<close>

text \<open>A wallet that is the list of its events, databases that are lists, the keys of a user and of the section.\<close>

definition list_wallet :: "ReplicaEvent list wallet_api" where
  "list_wallet = \<lparr>from_history = (\<lambda>pk info h. Inr h), w_balance = (\<lambda>w. 0), w_validate = (\<lambda>w d c. Inr ()),
     w_register = (\<lambda>w p. if TransferRegistered p \<in> set w then Inr None else Inr (Some p)),
     w_receive_propagated = (\<lambda>w c. if TransferPropagated c \<in> set w then Inr None else Inr (Some ())),
     w_apply = (\<lambda>w e. Inr (w @ [e])), w_credit_without_proof = (\<lambda>w c. Inr w), w_debit_without_proof = (\<lambda>w d. Inr w),
     w_test_validate_transfer = (\<lambda>w d c. Inr ())\<rparr>"

definition list_replica :: "(ReplicaEvent list_db, ReplicaEvent list_disk, ReplicaEvent list) replica_api" where
  "list_replica = \<lparr>ra_store = list_api (\<lambda>e. []), ra_wallet = list_wallet, ser_signed_debit = (\<lambda>d. Some []),
     ser_signed_credit = (\<lambda>c. Some []), ser_credit_proof = (\<lambda>c. Some []), transfer_credit = (\<lambda>t. Inl DtNoSuchEntry)\<rparr>"

definition toy_key :: PublicKey where
  "toy_key = Ed25519 1"

definition two_keys :: "PublicKey set" where
  "two_keys = {toy_key, Bls 7}"

lemma list_replica_ok: "replica_api_ok example_ext list_replica two_keys" "wallet_ok (ra_wallet list_replica)"
proof -
  have "replicate (Suc 0) c \<noteq> replicate 7 c" for c :: char
    by (rule notI, drule arg_cong [where f = length]) simp
  then show "replica_api_ok example_ext list_replica two_keys"
    by (simp add: replica_api_ok_def list_replica_def list_api_def list_events_ok two_keys_def toy_key_def wallet_file_def to_db_key_def
        example_ext_def)
qed (simp add: wallet_ok_def list_replica_def list_wallet_def)

definition toy_bls :: bls_api where
  "toy_bls = \<lparr>threshold = (\<lambda>ks. 1), public_key = (\<lambda>ks. case ks of PublicKeySet n \<Rightarrow> n), combine_signatures = (\<lambda>ks m. Some 0)\<rparr>"

definition toy_routing :: Routing where
  "toy_routing = \<lparr>rt_name = 0, rt_age = 5, rt_public_key_set = Inr (PublicKeySet 7), rt_our_index = Inr 2,
     rt_our_prefix = Prefix 0 0, rt_is_elder = True, rt_our_elders = [], rt_our_adults = [],
     rt_elders_by_distance = (\<lambda>n. []), rt_adults_by_distance = (\<lambda>n. []), rt_section_key = (\<lambda>p. Some 7),
     rt_matching_section = (\<lambda>n. Some 7), rt_matches_our_prefix = (\<lambda>n. True), rt_sign_as_node = (\<lambda>b. 0),
     rt_sign_as_elder = (\<lambda>b k. Inr 0), rt_bls = toy_bls, rt_public_key_share = (\<lambda>ks i. i), rt_section_chain = [7]\<rparr>"

definition fresh_replica :: "dir \<Rightarrow> (ReplicaEvent list_db, ReplicaEvent list_disk) Replicas" where
  "fresh_replica root = \<lparr>rp_root_dir = root, rp_info = \<lparr>ri_id = 2, ri_key_index = 2, ri_peer_replicas = PublicKeySet 7,
     ri_section_chain = [7], ri_signing = toy_routing\<rparr>, rp_locks = [], rp_disk = (\<lambda>_. None)\<rparr>"

lemma fresh_replica_inv:
  "replicas_inv example_ext list_replica two_keys (fresh_replica root)"
  "events_of example_ext list_replica two_keys (fresh_replica root) pk = []"
  by (simp_all add: replicas_inv_def events_of_def on_disk_def fresh_replica_def list_replica_def list_api_def list_events_def)

definition toy_credit :: CreditAgreementProof where
  "toy_credit = \<lparr>cap_signed_credit = \<lparr>sc_credit = \<lparr>credit_id = 4, credit_amount = 10, credit_recipient = toy_key, credit_msg = []\<rparr>,
     sc_actor_signature = SigEd25519 0\<rparr>, cap_debiting_replicas_sig = SigBls 0, cap_debiting_replicas_keys = PublicKeySet 7\<rparr>"

definition toy_debit :: TransferAgreementProof where
  "toy_debit = \<lparr>tap_signed_credit = \<lparr>sc_credit = \<lparr>credit_id = 5, credit_amount = 10, credit_recipient = Bls 7, credit_msg = []\<rparr>,
     sc_actor_signature = SigEd25519 0\<rparr>,
     tap_signed_debit = \<lparr>sd_debit = \<lparr>debit_actor = toy_key, debit_counter = 0, debit_amount = 10\<rparr>, sd_actor_signature = SigEd25519 0\<rparr>,
     tap_debit_sig = SigBls 0, tap_credit_sig = SigBls 0, tap_debiting_replicas_keys = PublicKeySet 7\<rparr>"

definition one_file :: "dir \<times> string" where
  "one_file = ([TRANSFERS_DIR_NAME], [char_of (1::nat)] @ DB_EXTENSION)"

text \<open>The replica with one wallet and its events.\<close>

definition with_events :: "ReplicaEvent list \<Rightarrow> (ReplicaEvent list_db, ReplicaEvent list_disk) Replicas" where
  "with_events es = (let db = rev (zip (map dec_string [0..<length es]) es) in
    (fresh_replica [])\<lparr>rp_locks := [(toy_key, \<lparr>ts_id = 1, ts_db = (one_file, db)\<rparr>)], rp_disk := [one_file \<mapsto> db]\<rparr>)"

lemmas toy_eval = list_replica_def list_wallet_def list_api_def list_events_def example_ext_def
  open_store_def transfer_store_new_def new_auto_dump_db_def to_db_key_def Let_def replica_receive_propagated_def load_key_lock_def
  cap_recipient_def add_lock_def load_wallet_def get_all_def store_and_apply_def insert_locked_def try_insert_def
  replica_register_def exists_in_chain_def tap_sender_def toy_bls_def toy_key_def with_events_def one_file_def fresh_replica_def

lemma toy_credit_recipient: "credit_recipient (sc_credit (cap_signed_credit toy_credit)) = toy_key"
  by (simp add: toy_credit_def)

lemma toy_propagate:
  "replica_receive_propagated example_ext list_replica toy_credit (fresh_replica []) =
    (Inr toy_credit, with_events [TransferPropagated toy_credit])"
  by (simp add: toy_eval toy_credit_recipient)

lemma toy_register:
  "replica_register toy_bls list_replica toy_debit (with_events [TransferPropagated toy_credit]) =
    (Inr toy_debit, with_events [TransferPropagated toy_credit, TransferRegistered toy_debit])"
  by (simp add: toy_eval toy_debit_def)

lemma toy_run:
  "run_steps (exec_cmd example_ext toy_bls list_replica) [CmdPropagate toy_credit, CmdRegister toy_debit] (fresh_replica []) =
    ([Inr (TransferPropagated toy_credit), Inr (TransferRegistered toy_debit)],
     with_events [TransferPropagated toy_credit, TransferRegistered toy_debit])"
  by (simp add: Let_def toy_propagate toy_register)

lemma toy_keys: "cap_recipient toy_credit = toy_key" "tap_sender toy_debit = toy_key" "toy_key \<in> two_keys"
  by (simp_all add: cap_recipient_def toy_credit_def tap_sender_def toy_debit_def two_keys_def)

lemma toy_reached:
  "replicas_inv example_ext list_replica two_keys (with_events [TransferPropagated toy_credit, TransferRegistered toy_debit])"
  "events_of example_ext list_replica two_keys (with_events [TransferPropagated toy_credit, TransferRegistered toy_debit]) toy_key =
    [TransferPropagated toy_credit, TransferRegistered toy_debit]"
proof -
  let ?s = "with_events [TransferPropagated toy_credit, TransferRegistered toy_debit]"
  show inv: "replicas_inv example_ext list_replica two_keys ?s"
    using run_appends [OF list_replica_ok fresh_replica_inv(1) _ _ toy_run] by (simp add: toy_keys fresh_replica_inv(2))
  have "btm_get (rp_locks ?s) toy_key =
      Some \<lparr>ts_id = 1, ts_db = (one_file, [(dec_string 1, TransferRegistered toy_debit), (dec_string 0, TransferPropagated toy_credit)])\<rparr>"
    by (simp add: with_events_def Let_def)
  from locked_events [OF inv this] show "events_of example_ext list_replica two_keys ?s toy_key =
      [TransferPropagated toy_credit, TransferRegistered toy_debit]"
    by (simp add: get_all_def list_replica_def list_api_def list_events_def)
qed

section \<open>Properties\<close>

text \<open>
  C3. Acknowledged transfers are never lost or reordered: after any sequence of commands the
  invariant of the replica holds, and the events of every wallet are those it had before followed
  by at most one event per command for this wallet; the validations and registrations that were
  acknowledged to the wallet's owner are among them, in the order of the commands. Writes of
  databases may fail; loads of existing ones do not (\<open>databases_load\<close>).
\<close>

theorem wallet_events_append_only:
  assumes "replica_api_ok E R K" and "wallet_ok (ra_wallet R)" and "replicas_inv E R K s"
    and "\<forall>cmd \<in> set cmds. cmd_wallet cmd \<in> K"
    and "\<forall>pk. length (events_of E R K s pk) + length cmds \<le> 2 ^ 64"
    and "run_steps (exec_cmd E B R) cmds s = (rs, s')"
  shows "replicas_inv E R K s' \<and> (\<exists>evs. events_of E R K s' pk = events_of E R K s pk @ evs \<and>
    length evs \<le> length (filter (\<lambda>cmd. cmd_wallet cmd = pk) cmds) \<and> subseq (acknowledged pk cmds rs) evs)"
  using assms by (rule run_appends)

theorem wallet_events_append_only_witness:
  "\<exists>evs. events_of example_ext list_replica two_keys
      (snd (run_steps (exec_cmd example_ext toy_bls list_replica)
        [CmdPropagate toy_credit, CmdRegister toy_debit] (fresh_replica []))) toy_key = evs \<and>
    length evs \<le> 2 \<and> TransferRegistered toy_debit \<in> set evs"
  unfolding toy_run
  using wallet_events_append_only [OF list_replica_ok fresh_replica_inv(1) _ _ toy_run, of toy_key]
  by (auto simp: toy_keys fresh_replica_inv(2) dest: subseq_singleton_left [THEN iffD1])

text \<open>
  C12. Propagation is idempotent: if a credit was acknowledged, receiving it again changes the
  events of no wallet, and it is acknowledged again if the wallet's history still loads. What is
  relied on is that a wallet knows the credits whose propagation is in its history.
\<close>

theorem propagation_idempotent:
  assumes A: "replica_api_ok E R K" and K: "cap_recipient c \<in> K" and inv: "replicas_inv E R K s"
    and knows: "\<And>h w info. TransferPropagated c \<in> set h \<Longrightarrow> from_history (ra_wallet R) (cap_recipient c) info h = Inr w \<Longrightarrow>
      w_receive_propagated (ra_wallet R) w c = Inr None"
    and room: "length (events_of E R K s (cap_recipient c)) + 1 < 2 ^ 64"
    and first: "replica_receive_propagated E R c s = (Inr c, s1)"
    and again: "replica_receive_propagated E R c s1 = (r, s2)"
  shows "events_of E R K s2 = events_of E R K s1 \<and>
    (is_ok (from_history (ra_wallet R) (cap_recipient c) (rp_info s) (events_of E R K s1 (cap_recipient c))) \<longrightarrow> r = Inr c)"
proof -
  let ?pk = "cap_recipient c"
  have room0: "length (events_of E R K s ?pk) < 2 ^ 64" using room by simp
  have st1: "replicas_inv E R K s1 \<and> length (events_of E R K s1 ?pk) < 2 ^ 64 \<and> rp_info s1 = rp_info s \<and>
      (\<exists>st. btm_get (rp_locks s1) ?pk = Some st) \<and>
      (\<forall>w. from_history (ra_wallet R) ?pk (rp_info s) (events_of E R K s1 ?pk) = Inr w \<longrightarrow> w_receive_propagated (ra_wallet R) w c = Inr None)"
    using A K inv room0 first
  proof (cases rule: propagate_cases)
    case (known w)
    then show ?thesis using room by (simp add: appends_def)
  next
    case (stored evs)
    then show ?thesis using room knows [of "events_of E R K s1 ?pk"] by (simp add: appends_def)
  qed simp
  then have inv1: "replicas_inv E R K s1" and room1: "length (events_of E R K s1 ?pk) < 2 ^ 64"
    and info1: "rp_info s1 = rp_info s" and lock1: "\<exists>st. btm_get (rp_locks s1) ?pk = Some st"
    and knows1: "\<And>w. from_history (ra_wallet R) ?pk (rp_info s) (events_of E R K s1 ?pk) = Inr w \<Longrightarrow> w_receive_propagated (ra_wallet R) w c = Inr None"
    by simp_all
  show ?thesis using A K inv1 room1 again
  proof (cases rule: propagate_cases)
    case (failed e)
    have "\<not> is_ok (from_history (ra_wallet R) ?pk (rp_info s) (events_of E R K s1 ?pk))"
      using failed(3) lock1 knows1 info1 by (auto simp: is_ok_def split: sum.splits)
    with failed(2) show ?thesis by (simp add: appends_def)
  next
    case (known w)
    then show ?thesis by (simp add: appends_def)
  next
    case (stored evs)
    with info1 knows1 show ?thesis by metis
  qed
qed

theorem propagation_idempotent_witness:
  "events_of example_ext list_replica two_keys (snd (replica_receive_propagated example_ext list_replica toy_credit
      (with_events [TransferPropagated toy_credit]))) =
    events_of example_ext list_replica two_keys (with_events [TransferPropagated toy_credit])"
proof -
  have "w_receive_propagated (ra_wallet list_replica) w toy_credit = Inr None"
    if "TransferPropagated toy_credit \<in> set h" "from_history (ra_wallet list_replica) (cap_recipient toy_credit) info h = Inr w" for h w info
    using that by (simp add: list_replica_def list_wallet_def)
  from propagation_idempotent [OF list_replica_ok(1) _ fresh_replica_inv(1) this _ toy_propagate surjective_pairing]
  show ?thesis by (simp add: toy_keys fresh_replica_inv(2))
qed

text \<open>
  C11. The wallets move intact to a new elder: when the events that one replica reports for its
  wallets are replayed on a replica without events, every wallet of the first has exactly the same
  events, in the same order, on the second, and no other wallet has any. (No load of an existing
  database fails.)
\<close>

theorem replica_state_transfer:
  assumes A: "replica_api_ok E R K" and inv: "replicas_inv E R K s"
    and evs: "all_events E R s = (Inr evs, s1)" and len: "length evs \<le> 2 ^ 64"
    and new: "replicas_inv E R K t" "\<forall>pk. events_of E R K t pk = []"
    and run: "initiate E R evs t = (Inr (), t')"
  shows "s1 = s \<and> replicas_inv E R K t' \<and>
    events_of E R K t' pk = (if pk \<in> fst ` set (rp_locks s) then events_of E R K s pk else [])"
proof -
  have e: "evs = concat (map (events_of E R K s) (map fst (rp_locks s)))" "s1 = s"
    using evs unfolding all_events_locked [OF A inv] by blast+
  have d: "distinct (map fst (rp_locks s))" using inv btm_wf_distinct by (auto simp: replicas_inv_def)
  have K: "\<forall>e \<in> set evs. event_owner e \<in> K"
    using events_own [OF inv] locked_in_use [OF inv] by (auto simp: e)
  have run': "try_fold (\<lambda>e. append_event E R (event_owner e) e) evs t = (Inr (), t')"
    using run by (auto simp: initiate_def split: if_splits)
  have "filter (\<lambda>e. event_owner e = pk) evs = (if pk \<in> fst ` set (rp_locks s) then events_of E R K s pk else [])"
    unfolding e using filter_owner_concat [of "events_of E R K s" event_owner "map fst (rp_locks s)" pk] events_own [OF inv] d by simp
  with initiate_appends [OF A new(1) K _ run', of pk] new(2) len e(2) show ?thesis by simp
qed

theorem replica_state_transfer_witness:
  "\<exists>t'. initiate example_ext list_replica [TransferPropagated toy_credit, TransferRegistered toy_debit] (fresh_replica []) = (Inr (), t') \<and>
     events_of example_ext list_replica two_keys t' toy_key = [TransferPropagated toy_credit, TransferRegistered toy_debit]"
proof -
  let ?es = "[TransferPropagated toy_credit, TransferRegistered toy_debit]"
  have run: "initiate example_ext list_replica ?es (fresh_replica []) = (Inr (), with_events ?es)"
    by (simp add: initiate_def append_event_def get_load_or_create_store_def toy_eval toy_credit_recipient toy_debit_def)
  have l: "map fst (rp_locks (with_events ?es)) = [toy_key]" by (simp add: with_events_def Let_def)
  then have "all_events example_ext list_replica (with_events ?es) = (Inr ?es, with_events ?es)"
    by (simp add: all_events_locked [OF list_replica_ok(1) toy_reached(1)] toy_reached(2) del: map_map)
  from replica_state_transfer [OF list_replica_ok(1) toy_reached(1) this _ fresh_replica_inv(1) _ run, of toy_key]
  have "events_of example_ext list_replica two_keys (with_events ?es) toy_key = ?es"
    using toy_reached(2) by (simp add: fresh_replica_inv(2))
  with run show ?thesis by blast
qed

text \<open>
  C34. The history reported for a wallet is sound and complete: reading it changes nothing, every
  recorded credit and every registered debit of the wallet is in it exactly once (by its id), the
  debits are in the order of their counters, and all of them are the wallet's own. (No load of an
  existing database fails.)
\<close>

theorem history_sound:
  assumes "replica_api_ok E R K" and "replicas_inv E R K s" and "pk \<in> fst ` set (rp_locks s)"
  shows "\<exists>h. history E R pk s = (Inr h, s) \<and>
    distinct (map cap_id (credits h)) \<and> cap_id ` set (credits h) = cap_id ` recorded_credits (events_of E R K s pk) \<and>
    distinct (map tap_id (debits h)) \<and> tap_id ` set (debits h) = tap_id ` recorded_debits (events_of E R K s pk) \<and>
    sorted (map (\<lambda>t. snd (tap_id t)) (debits h)) \<and>
    (\<forall>c \<in> set (credits h). cap_recipient c = pk) \<and> (\<forall>t \<in> set (debits h). tap_sender t = pk)"
proof -
  have "c \<in> recorded_credits (events_of E R K s pk) \<Longrightarrow> cap_recipient c = pk" for c
    using events_own [OF assms(2), of "TransferPropagated c" pk] by (simp add: recorded_credits_def)
  moreover have "t \<in> recorded_debits (events_of E R K s pk) \<Longrightarrow> tap_sender t = pk" for t
    using events_own [OF assms(2), of "TransferRegistered t" pk] by (simp add: recorded_debits_def)
  ultimately show ?thesis
    using history_of_events [OF assms] get_credits_sound [of "events_of E R K s pk"] get_debits_sound [of "events_of E R K s pk"]
    by auto
qed

theorem history_sound_witness:
  "\<exists>h. history example_ext list_replica toy_key (with_events [TransferPropagated toy_credit, TransferRegistered toy_debit]) =
      (Inr h, with_events [TransferPropagated toy_credit, TransferRegistered toy_debit]) \<and> cap_id ` set (credits h) = {4}"
proof -
  let ?es = "[TransferPropagated toy_credit, TransferRegistered toy_debit]"
  have "toy_key \<in> fst ` set (rp_locks (with_events ?es))" by (simp add: with_events_def Let_def)
  from history_sound [OF list_replica_ok(1) toy_reached(1) this] obtain h where
    "history example_ext list_replica toy_key (with_events ?es) = (Inr h, with_events ?es)"
    "cap_id ` set (credits h) = cap_id ` recorded_credits ?es" by (auto simp: toy_reached(2))
  moreover have "recorded_credits ?es = {toy_credit}" by (auto simp: recorded_credits_def)
  moreover have "cap_id toy_credit = 4" by (simp add: cap_id_def toy_credit_def)
  ultimately show ?thesis by simp
qed

end
