(* ===== verification/Capacity.thy ===== *)
theory Capacity
  imports Network Reward_Calc Complex_Main
begin

text \<open>
  The price of storing data (\<^verbatim>\<open>src/src/capacity/mod.rs\<close>, \<^verbatim>\<open>src/src/capacity/rate_limit.rs\<close>): the
  number of full adults on 8 bits, and the price computed from it in floating point. The
  operations of \<^verbatim>\<open>f64\<close> are a parameter; the integers keep their width.
\<close>

section \<open>Full adults\<close>

text \<open>The database of full adults: \<^verbatim>\<open>lcreate\<close> puts an empty list at a key, \<^verbatim>\<open>ladd\<close> extends it.\<close>

record 'a full_adults_api =
  fa_total_keys :: "'a \<Rightarrow> nat"
  fa_lcreate :: "string \<Rightarrow> 'a \<Rightarrow> bool \<times> 'a"
  fa_ladd :: "string \<Rightarrow> string \<Rightarrow> 'a \<Rightarrow> 'a"
  fa_key_text :: "PublicKey \<Rightarrow> string"

definition full_nodes :: "'a full_adults_api \<Rightarrow> 'a \<Rightarrow> u8" where
  "full_nodes A db = of_nat (fa_total_keys A db)"

definition increase_full_node_count :: "'a full_adults_api \<Rightarrow> PublicKey \<Rightarrow> 'a \<Rightarrow> unit result \<times> 'a" where
  "increase_full_node_count A node_id db =
     (let key = fa_key_text A node_id in
      case fa_lcreate A key db of
        (False, db1) \<Rightarrow> (Inl PickleDb, db1)
      | (True, db1) \<Rightarrow> (Inr (), fa_ladd A key ''Node Full'' db1))"

section \<open>The price\<close>

record 'f f64_ops =
  f_lit :: "nat \<Rightarrow> nat \<Rightarrow> 'f"
  f_of :: "nat \<Rightarrow> 'f"
  f_add :: "'f \<Rightarrow> 'f \<Rightarrow> 'f"
  f_mul :: "'f \<Rightarrow> 'f \<Rightarrow> 'f"
  f_div :: "'f \<Rightarrow> 'f \<Rightarrow> 'f"
  f_powf :: "'f \<Rightarrow> 'f \<Rightarrow> 'f"
  f_round :: "'f \<Rightarrow> 'f"
  f_floor :: "'f \<Rightarrow> 'f"
  f_gt :: "'f \<Rightarrow> 'f \<Rightarrow> bool"
  f_as_u64 :: "'f \<Rightarrow> u64"

text \<open>\<^verbatim>\<open>f_lit F n d\<close> is the literal nearest to \<open>n / d\<close>; \<^verbatim>\<open>f_of\<close> is \<^verbatim>\<open>as f64\<close>.\<close>

definition MAX_CHUNK_SIZE :: u64 where
  "MAX_CHUNK_SIZE = 1000000"

definition MAX_NETWORK_STORAGE_RATIO :: "'f f64_ops \<Rightarrow> 'f" where
  "MAX_NETWORK_STORAGE_RATIO F = f_lit F 1 2"

definition max_section_nanos :: "'f f64_ops \<Rightarrow> nat \<Rightarrow> u64" where
  "max_section_nanos F prefix_len =
     f_as_u64 F (f_floor F (f_div F (f_of F (unat MAX_SUPPLY)) (f_powf F (f_lit F 2 1) (f_of F prefix_len))))"

definition rate_limit :: "'f f64_ops \<Rightarrow> u64 \<Rightarrow> u8 \<Rightarrow> u8 \<Rightarrow> nat \<Rightarrow> Token" where
  "rate_limit F bytes full all prefix_len =
     (let available_nodes = f_of F (unat (all - full));
          supply_demand_factor = f_add F (f_add F (f_lit F 1 1000)
            (f_powf F (f_div F (f_lit F 1 1) available_nodes) (f_lit F 8 1)))
            (f_powf F (f_div F (f_of F (unat full)) (f_of F (unat all))) (f_lit F 88 1));
          data_size_factor = f_add F
            (f_powf F (f_div F (f_of F (unat bytes)) (f_of F (unat MAX_CHUNK_SIZE))) (f_lit F 2 1))
            (f_div F (f_of F (unat bytes)) (f_of F (unat MAX_CHUNK_SIZE)));
          steepness_reductor = f_add F (f_of F prefix_len) (f_lit F 1 1);
          section_supply_share = f_of F (unat (max_section_nanos F prefix_len));
          token_source = f_mul F steepness_reductor (f_powf F section_supply_share (f_lit F 1 2))
      in f_as_u64 F (f_round F (f_mul F (f_mul F token_source data_size_factor) supply_demand_factor)))"

record 'a RateLimit =
  rl_full_adults :: 'a
  rl_network :: Routing

definition rate_limit_from :: "'f f64_ops \<Rightarrow> 'a full_adults_api \<Rightarrow> u64 \<Rightarrow> 'a RateLimit \<Rightarrow> Token" where
  "rate_limit_from F A bytes rl =
     (let prefix_len = prefix_bit_count (our_prefix (rl_network rl));
          full = full_nodes A (rl_full_adults rl);
          all = of_nat (length (our_adults (rl_network rl)))
      in rate_limit F bytes full all prefix_len)"

definition rl_increase_full_node_count :: "'a full_adults_api \<Rightarrow> PublicKey \<Rightarrow> 'a RateLimit \<Rightarrow> unit result \<times> 'a RateLimit" where
  "rl_increase_full_node_count A node_id rl =
     (let res = increase_full_node_count A node_id (rl_full_adults rl)
      in (fst res, rl\<lparr>rl_full_adults := snd res\<rparr>))"

definition more_nodes_required :: "'f f64_ops \<Rightarrow> 'a full_adults_api \<Rightarrow> 'a RateLimit \<Rightarrow> bool" where
  "more_nodes_required F A rl =
     (let all = f_of F (length (our_adults (rl_network rl)));
          full = f_of F (unat (full_nodes A (rl_full_adults rl)));
          usage_ratio = f_div F full all
      in f_gt F usage_ratio (MAX_NETWORK_STORAGE_RATIO F))"

section \<open>Larger data never costs less\<close>

text \<open>
  What is relied on of floating point: \<open>D\<close> are the numbers that are not negative (infinity
  included), \<open>N\<close> these and the values that are not a number, \<open>le\<close> is the order on \<open>D\<close>. The
  conversions and the operations that are applied to the size are monotone, and so is what is
  made of their result; a cast of a value that is not a number is 0, the least result.
\<close>

definition f64_monotone :: "'f f64_ops \<Rightarrow> ('f \<Rightarrow> 'f \<Rightarrow> bool) \<Rightarrow> 'f set \<Rightarrow> 'f set \<Rightarrow> bool" where
  "f64_monotone F le D N \<longleftrightarrow>
     D \<subseteq> N \<and> (\<forall>n. f_of F n \<in> D) \<and> (\<forall>n d. f_lit F n d \<in> D) \<and>
     (\<forall>x \<in> N. \<forall>y \<in> N. f_add F x y \<in> N \<and> f_mul F x y \<in> N \<and> f_div F x y \<in> N \<and> f_powf F x y \<in> N) \<and>
     (\<forall>x \<in> D. \<forall>y \<in> D. f_add F x y \<in> D \<and> f_div F x (f_of F (unat MAX_CHUNK_SIZE)) \<in> D \<and> f_powf F x (f_lit F 2 1) \<in> D) \<and>
     (\<forall>m n. m \<le> n \<longrightarrow> le (f_of F m) (f_of F n)) \<and>
     (\<forall>x \<in> D. \<forall>y \<in> D. le x y \<longrightarrow> le (f_div F x (f_of F (unat MAX_CHUNK_SIZE))) (f_div F y (f_of F (unat MAX_CHUNK_SIZE))) \<and>
        le (f_powf F x (f_lit F 2 1)) (f_powf F y (f_lit F 2 1))) \<and>
     (\<forall>x \<in> D. \<forall>y \<in> D. \<forall>u \<in> D. \<forall>v \<in> D. le x y \<longrightarrow> le u v \<longrightarrow> le (f_add F x u) (f_add F y v)) \<and>
     (\<forall>x \<in> D. \<forall>y \<in> D. \<forall>t \<in> N. \<forall>s \<in> N. le x y \<longrightarrow>
        f_as_u64 F (f_round F (f_mul F (f_mul F t x) s)) \<le> f_as_u64 F (f_round F (f_mul F (f_mul F t y) s)))"

text \<open>
  C35. Storing more bytes never costs less, all else being equal: whatever the number of full
  and of all nodes and the length of the prefix, the price is monotone in the number of bytes.
\<close>

theorem rate_limit_monotone:
  assumes M: "f64_monotone F le D N" and "a \<le> b"
  shows "rate_limit F a full all len \<le> rate_limit F b full all len"
proof -
  let ?m = "f_of F (unat MAX_CHUNK_SIZE)"
  have N: "f_of F n \<in> N" "f_lit F n d \<in> N" "x \<in> N \<Longrightarrow> y \<in> N \<Longrightarrow> f_add F x y \<in> N" "x \<in> N \<Longrightarrow> y \<in> N \<Longrightarrow> f_mul F x y \<in> N"
    "x \<in> N \<Longrightarrow> y \<in> N \<Longrightarrow> f_div F x y \<in> N" "x \<in> N \<Longrightarrow> y \<in> N \<Longrightarrow> f_powf F x y \<in> N" for n d x y
    using M by (auto simp: f64_monotone_def)
  have D: "f_of F n \<in> D" "x \<in> D \<Longrightarrow> y \<in> D \<Longrightarrow> f_add F x y \<in> D" "x \<in> D \<Longrightarrow> f_div F x ?m \<in> D"
    "x \<in> D \<Longrightarrow> f_powf F x (f_lit F 2 1) \<in> D" for n x y
    using M by (auto simp: f64_monotone_def)
  have mono: "x \<in> D \<Longrightarrow> y \<in> D \<Longrightarrow> u \<in> D \<Longrightarrow> v \<in> D \<Longrightarrow> le x y \<Longrightarrow> le u v \<Longrightarrow> le (f_add F x u) (f_add F y v)"
    "x \<in> D \<Longrightarrow> y \<in> D \<Longrightarrow> le x y \<Longrightarrow> le (f_div F x ?m) (f_div F y ?m)"
    "x \<in> D \<Longrightarrow> y \<in> D \<Longrightarrow> le x y \<Longrightarrow> le (f_powf F x (f_lit F 2 1)) (f_powf F y (f_lit F 2 1))"
    "x \<in> D \<Longrightarrow> y \<in> D \<Longrightarrow> u \<in> N \<Longrightarrow> v \<in> N \<Longrightarrow> le x y \<Longrightarrow>
      f_as_u64 F (f_round F (f_mul F (f_mul F u x) v)) \<le> f_as_u64 F (f_round F (f_mul F (f_mul F u y) v))" for x y u v
    using M unfolding f64_monotone_def by blast+
  have "unat a \<le> unat b" using assms(2) by (simp add: word_le_nat_alt)
  then have "le (f_of F (unat a)) (f_of F (unat b))" using M by (simp add: f64_monotone_def)
  then show ?thesis unfolding rate_limit_def Let_def by (intro mono N D)
qed

text \<open>Exact real arithmetic, with the saturating cast.\<close>

definition real_ops :: "real f64_ops" where
  "real_ops = \<lparr>f_lit = (\<lambda>n d. real n / real d), f_of = real, f_add = (+), f_mul = (*), f_div = (/), f_powf = (powr),
     f_round = (\<lambda>x. of_int (round x)), f_floor = (\<lambda>x. of_int \<lfloor>x\<rfloor>), f_gt = (\<lambda>x y. x > y),
     f_as_u64 = (\<lambda>x. of_nat (min (nat \<lfloor>x\<rfloor>) (2 ^ 64 - 1)))\<rparr>"

lemma real_cast_mono: "x \<le> y \<Longrightarrow> f_as_u64 real_ops (f_round real_ops x) \<le> f_as_u64 real_ops (f_round real_ops y)"
  by (simp add: real_ops_def word_le_nat_alt unat_of_nat_eq min.coboundedI1 nat_mono round_mono min_less_iff_disj)

lemma real_ops_monotone: "f64_monotone real_ops (\<le>) {0..} {0..}"
proof -
  have "f_as_u64 real_ops (f_round real_ops (f_mul real_ops (f_mul real_ops t x) s)) \<le>
      f_as_u64 real_ops (f_round real_ops (f_mul real_ops (f_mul real_ops t y) s))"
    if "0 \<le> t" "0 \<le> s" "x \<le> y" for t s x y
    using that by (intro real_cast_mono) (simp add: real_ops_def mult_left_mono mult_right_mono)
  then show ?thesis
    unfolding f64_monotone_def
    by (auto simp: real_ops_def MAX_CHUNK_SIZE_def divide_right_mono intro!: powr_mono2 add_mono)
qed

theorem rate_limit_monotone_witness: "rate_limit real_ops 1000 7 8 0 \<le> rate_limit real_ops 2000 7 8 0"
  by (rule rate_limit_monotone [OF real_ops_monotone]) simp

end
