(* ===== verification/Transfers.thy ===== *)
theory Transfers
  imports Wallet_Guarantees Capacity
begin

text \<open>
  The layer between the messages and the replicas of wallets (\<^verbatim>\<open>src/src/transfers/mod.rs\<close>): payments
  for data, queries, and the three steps of a transfer, each with the message that answers it.
\<close>

section \<open>State\<close>

record ('db, 'd, 'a) Transfers =
  tr_replicas :: "('db, 'd) Replicas"
  tr_rate_limit :: "'a RateLimit"
  tr_recently_validated :: "(PublicKey \<times> u64) list"

text \<open>
  The parameters: the replicas' ones, the database of full adults, floating point, the
  serialisation of commands; \<open>log_info\<close> is whether messages of level \<^verbatim>\<open>info\<close> are logged, since the
  arguments of the macro are evaluated only then.
\<close>

record ('db, 'd, 'w, 'a, 'f) transfers_api =
  tp_replica :: "('db, 'd, 'w) replica_api"
  tp_bls :: bls_api
  tp_full :: "'a full_adults_api"
  tp_float :: "'f f64_ops"
  tp_ser_cmd :: "DataCmd \<Rightarrow> bytes option"
  tp_log_info :: bool

definition transfers_new :: "('db, 'd) Replicas \<Rightarrow> 'a RateLimit \<Rightarrow> ('db, 'd, 'a) Transfers" where
  "transfers_new replicas limit = \<lparr>tr_replicas = replicas, tr_rate_limit = limit, tr_recently_validated = []\<rparr>"

text \<open>A step of the replicas, as a step of the whole state.\<close>

definition on_replicas :: "(('db, 'd) Replicas \<Rightarrow> 'r \<times> ('db, 'd) Replicas) \<Rightarrow> ('db, 'd, 'a) Transfers \<Rightarrow> 'r \<times> ('db, 'd, 'a) Transfers" where
  "on_replicas f t = (let res = f (tr_replicas t) in (fst res, t\<lparr>tr_replicas := snd res\<rparr>))"

definition transfers_managed_amount :: "externals \<Rightarrow> ('db, 'd, 'w, 'a, 'f) transfers_api \<Rightarrow> ('db, 'd, 'a) Transfers \<Rightarrow>
    Token result \<times> ('db, 'd, 'a) Transfers" where
  "transfers_managed_amount E P t = on_replicas (managed_amount E (tp_replica P)) t"

definition transfers_user_wallets :: "externals \<Rightarrow> ('db, 'd, 'w, 'a, 'f) transfers_api \<Rightarrow> ('db, 'd, 'a) Transfers \<Rightarrow>
    (PublicKey, ActorHistory) btree_map \<times> ('db, 'd, 'a) Transfers" where
  "transfers_user_wallets E P t = on_replicas (user_wallets E (tp_replica P)) t"

definition transfers_merge :: "(PublicKey, ActorHistory) btree_map \<Rightarrow> ('db, 'd, 'a) Transfers \<Rightarrow> ('db, 'd, 'a) Transfers" where
  "transfers_merge wallets t = t\<lparr>tr_replicas := replicas_merge wallets (tr_replicas t)\<rparr>"

definition split_section :: "externals \<Rightarrow> Prefix \<Rightarrow> ('db, 'd, 'a) Transfers \<Rightarrow> unit result \<times> ('db, 'd, 'a) Transfers" where
  "split_section E pre t = on_replicas (keep_keys_of E pre) t"

definition transfers_increase_full_node_count :: "('db, 'd, 'w, 'a, 'f) transfers_api \<Rightarrow> PublicKey \<Rightarrow> ('db, 'd, 'a) Transfers \<Rightarrow>
    unit result \<times> ('db, 'd, 'a) Transfers" where
  "transfers_increase_full_node_count P node_id t =
     (let res = rl_increase_full_node_count (tp_full P) node_id (tr_rate_limit t)
      in (fst res, t\<lparr>tr_rate_limit := snd res\<rparr>))"

definition get_store_cost :: "externals \<Rightarrow> ('db, 'd, 'w, 'a, 'f) transfers_api \<Rightarrow> u64 \<Rightarrow> MessageId \<Rightarrow> SrcLocation \<Rightarrow>
    ('db, 'd, 'a) Transfers \<Rightarrow> NodeDuties" where
  "get_store_cost E P bytes msg_id origin t =
     [query_response_to E (GetStoreCostResponse (Inr (rate_limit_from (tp_float P) (tp_full P) bytes (tr_rate_limit t))))
        msg_id (src_to_dst E origin),
      SetNodeJoinsAllowed (more_nodes_required (tp_float P) (tp_full P) (tr_rate_limit t))]"

definition transfers_update_replica_info :: "ReplicaInfo \<Rightarrow> ('db, 'd, 'a) Transfers \<Rightarrow> ('db, 'd, 'a) Transfers" where
  "transfers_update_replica_info info t = t\<lparr>tr_replicas := update_replica_info info (tr_replicas t)\<rparr>"

definition initiate_replica :: "externals \<Rightarrow> ('db, 'd, 'w, 'a, 'f) transfers_api \<Rightarrow> ReplicaEvent list \<Rightarrow> ('db, 'd, 'a) Transfers \<Rightarrow>
    NodeDuty result \<times> ('db, 'd, 'a) Transfers" where
  "initiate_replica E P events t =
     (let res = on_replicas (initiate E (tp_replica P) events) t
      in (and_then (fst res) (\<lambda>_. Inr NoOp), snd res))"

section \<open>Payments\<close>

definition section_wallet_id :: "bls_api \<Rightarrow> ('db, 'd, 'a) Transfers \<Rightarrow> PublicKey" where
  "section_wallet_id B t = Bls (public_key B (replicas_pk_set (tr_replicas t)))"

text \<open>The error a payer is told.\<close>

definition payment_error :: "externals \<Rightarrow> TransferAgreementProof \<Rightarrow> ErrorMessage \<Rightarrow> MessageId \<Rightarrow> NodeDuty" where
  "payment_error E payment error msg_id =
     cmd_error_to E (CmdErrorTransfer (TransferRegistrationErr error)) msg_id
       (src_to_dst E (SrcEndUser (AllClients (tap_sender payment))))"

definition forward_data :: "externals \<Rightarrow> DataCmd \<Rightarrow> EndUser \<Rightarrow> MessageId \<Rightarrow> NodeDuty" where
  "forward_data E data_cmd origin msg_id = Send \<lparr>
     msg = NodeCmdM (NodeMetadataCmd data_cmd origin) (in_response_to E msg_id) None,
     dst = DstSection (data_cmd_dst_address E data_cmd), section_source = True, aggregation = AtDestination\<rparr>"

text \<open>Registration at the payer's wallet, then propagation to the section's.\<close>

definition register_and_propagate :: "externals \<Rightarrow> ('db, 'd, 'w, 'a, 'f) transfers_api \<Rightarrow> TransferAgreementProof \<Rightarrow>
    ('db, 'd) Replicas \<Rightarrow> CreditAgreementProof result \<times> ('db, 'd) Replicas" where
  "register_and_propagate E P payment s = (case replica_register (tp_bls P) (tp_replica P) payment s of
     (Inl e, s1) \<Rightarrow> (Inl e, s1)
   | (Inr _, s1) \<Rightarrow> replica_receive_propagated E (tp_replica P) (credit_proof payment) s1)"

definition process_payment :: "externals \<Rightarrow> ('db, 'd, 'w, 'a, 'f) transfers_api \<Rightarrow> Message \<Rightarrow> EndUser \<Rightarrow> ('db, 'd, 'a) Transfers \<Rightarrow>
    NodeDuties result \<times> ('db, 'd, 'a) Transfers" where
  "process_payment E P m origin t = (case m of
     CmdM (DataCmdMsg payment data_cmd) msg_id _ \<Rightarrow>
       (case utils_serialise (tp_ser_cmd P) data_cmd of
          Inl e \<Rightarrow> (Inl e, t)
        | Inr bytes \<Rightarrow>
            let num_bytes = of_nat (length bytes) in
            if tap_recipient payment \<noteq> section_wallet_id (tp_bls P) t
            then (Inr [payment_error E payment EmNoSuchRecipient msg_id], t)
            else (case on_replicas (register_and_propagate E P payment) t of
              (Inl e, t1) \<Rightarrow> (Inr [payment_error E payment EmPaymentFailed msg_id], t1)
            | (Inr cp, t1) \<Rightarrow>
                let total_cost = rate_limit_from (tp_float P) (tp_full P) num_bytes (tr_rate_limit t1) in
                (case (if tp_log_info P then on_replicas (replica_balance E (tp_replica P) (tap_recipient payment)) t1
                       else (Inr 0, t1)) of
                  (Inl e, t2) \<Rightarrow> (Inl e, t2)
                | (Inr _, t2) \<Rightarrow>
                    if total_cost > tap_amount payment
                    then (Inr [AddPayment cp, payment_error E payment EmInsufficientBalance msg_id], t2)
                    else (Inr [AddPayment cp, forward_data E data_cmd origin msg_id], t2))))
   | _ \<Rightarrow> (Inr [], t))"

section \<open>Queries\<close>

definition transfers_all_events :: "externals \<Rightarrow> ('db, 'd, 'w, 'a, 'f) transfers_api \<Rightarrow> MessageId \<Rightarrow> SrcLocation \<Rightarrow>
    ('db, 'd, 'a) Transfers \<Rightarrow> NodeDuty result \<times> ('db, 'd, 'a) Transfers" where
  "transfers_all_events E P msg_id query_origin t = (case on_replicas (all_events E (tp_replica P)) t of
     (res, t1) \<Rightarrow>
       (and_then (case res of Inr evs \<Rightarrow> Inr (Inr evs)
                  | Inl error \<Rightarrow> and_then (convert_to_error_message (texts E) error) (\<lambda>em. Inr (Inl em))) (\<lambda>result.
          Inr (Send \<lparr>msg = NodeQueryResponseM (GetReplicaEventsResponse result) (in_response_to E msg_id) msg_id None,
             dst = src_to_dst E query_origin, section_source = False, aggregation = AtDestination\<rparr>)), t1))"

definition transfers_balance :: "externals \<Rightarrow> ('db, 'd, 'w, 'a, 'f) transfers_api \<Rightarrow> PublicKey \<Rightarrow> MessageId \<Rightarrow> SrcLocation \<Rightarrow>
    ('db, 'd, 'a) Transfers \<Rightarrow> NodeDuty result \<times> ('db, 'd, 'a) Transfers" where
  "transfers_balance E P wallet_id msg_id origin t = (case on_replicas (replica_balance E (tp_replica P) wallet_id) t of
     (res, t1) \<Rightarrow>
       (and_then (case res of Inr b \<Rightarrow> Inr (Inr b)
                  | Inl error \<Rightarrow> and_then (convert_to_error_message (texts E) error) (\<lambda>em. Inr (Inl em))) (\<lambda>result.
          Inr (query_response_to E (GetBalanceResponse result) msg_id (src_to_dst E origin))), t1))"

definition transfers_history :: "externals \<Rightarrow> ('db, 'd, 'w, 'a, 'f) transfers_api \<Rightarrow> PublicKey \<Rightarrow> MessageId \<Rightarrow> SrcLocation \<Rightarrow>
    ('db, 'd, 'a) Transfers \<Rightarrow> NodeDuty result \<times> ('db, 'd, 'a) Transfers" where
  "transfers_history E P wallet_id msg_id origin t = (case on_replicas (history E (tp_replica P) wallet_id) t of
     (res, t1) \<Rightarrow> (Inr (query_response_to E (GetHistoryResponse (map_err (\<lambda>_. EmNoHistoryForPublicKey wallet_id) res))
        msg_id (src_to_dst E origin)), t1))"

section \<open>The steps of a transfer\<close>

text \<open>The id of the event is random: \<open>new_id\<close>.\<close>

definition transfers_validate :: "externals \<Rightarrow> ('db, 'd, 'w, 'a, 'f) transfers_api \<Rightarrow> MessageId \<Rightarrow> SignedTransfer \<Rightarrow> MessageId \<Rightarrow>
    SrcLocation \<Rightarrow> ('db, 'd, 'a) Transfers \<Rightarrow> NodeDuty result \<times> ('db, 'd, 'a) Transfers" where
  "transfers_validate E P new_id transfer msg_id origin t = (case on_replicas (replica_validate (tp_replica P) transfer) t of
     (Inr event, t1) \<Rightarrow> (Inr (Send \<lparr>msg = EventM event new_id msg_id None,
        dst = src_to_dst E origin, section_source = False, aggregation = AggregationNone\<rparr>), t1)
   | (Inl e, t1) \<Rightarrow> (and_then (convert_to_error_message (texts E) e) (\<lambda>message_error.
        Inr (cmd_error_to E (CmdErrorTransfer (TransferValidationErr message_error)) msg_id (src_to_dst E origin))), t1))"

definition transfers_register :: "externals \<Rightarrow> ('db, 'd, 'w, 'a, 'f) transfers_api \<Rightarrow> TransferAgreementProof \<Rightarrow> MessageId \<Rightarrow>
    ('db, 'd, 'a) Transfers \<Rightarrow> NodeDuty result \<times> ('db, 'd, 'a) Transfers" where
  "transfers_register E P p msg_id t = (case on_replicas (replica_register (tp_bls P) (tp_replica P) p) t of
     (Inr event, t1) \<Rightarrow> (Inr (Send \<lparr>
        msg = NodeCmdM (NodePropagateTransfer (credit_proof event)) (in_response_to E msg_id) None,
        dst = DstSection (xor_name_of_key E (tap_recipient event)), section_source = True, aggregation = AtDestination\<rparr>), t1)
   | (Inl e, t1) \<Rightarrow> (and_then (convert_to_error_message (texts E) e) (\<lambda>message_error.
        Inr (Send \<lparr>msg = CmdErrorM (CmdErrorTransfer (TransferRegistrationErr message_error)) (in_response_to E msg_id) msg_id None,
          dst = DstEndUser (AllClients (tap_sender p)), section_source = False, aggregation = AtDestination\<rparr>)), t1))"

definition propagation_error :: "externals \<Rightarrow> ErrorMessage \<Rightarrow> MessageId \<Rightarrow> SrcLocation \<Rightarrow> NodeDuty" where
  "propagation_error E error msg_id origin = Send \<lparr>msg = NodeCmdErrorM error (in_response_to E msg_id) msg_id None,
     dst = src_to_dst E origin, section_source = False, aggregation = AtDestination\<rparr>"

definition transfers_receive_propagated :: "externals \<Rightarrow> ('db, 'd, 'w, 'a, 'f) transfers_api \<Rightarrow> CreditAgreementProof \<Rightarrow> MessageId \<Rightarrow>
    SrcLocation \<Rightarrow> ('db, 'd, 'a) Transfers \<Rightarrow> NodeDuty result \<times> ('db, 'd, 'a) Transfers" where
  "transfers_receive_propagated E P cp msg_id origin t = (case on_replicas (replica_receive_propagated E (tp_replica P) cp) t of
     (Inr _, t1) \<Rightarrow> (Inr NoOp, t1)
   | (Inl e, t1) \<Rightarrow> (case e of
        NetworkData error \<Rightarrow> and_then (convert_dt_error_to_error_message (texts E) error) (\<lambda>message_error.
          Inr (propagation_error E message_error msg_id origin))
      | UnknownSectionKey _ \<Rightarrow> Inr (propagation_error E EmNoSuchKey msg_id origin)
      | TransferError SectionKeyNeverExisted \<Rightarrow> Inr (propagation_error E EmNoSuchKey msg_id origin)
      | _ \<Rightarrow> Inl e, t1))"

definition transfers_pay :: "('db, 'd, 'w, 'a, 'f) transfers_api \<Rightarrow> Transfer \<Rightarrow> ('db, 'd, 'a) Transfers \<Rightarrow>
    NodeDuty result \<times> ('db, 'd, 'a) Transfers" where
  "transfers_pay P transfer t = (replica_debit_without_proof (tp_replica P) transfer (tr_replicas t), t)"

definition transfers_credit_without_proof :: "externals \<Rightarrow> ('db, 'd, 'w, 'a, 'f) transfers_api \<Rightarrow> Signature \<Rightarrow> PublicKeySet \<Rightarrow>
    Transfer \<Rightarrow> ('db, 'd, 'a) Transfers \<Rightarrow> NodeDuty result \<times> ('db, 'd, 'a) Transfers" where
  "transfers_credit_without_proof E P sig replica_keys transfer t =
     on_replicas (replica_credit_without_proof E (tp_replica P) sig replica_keys transfer) t"

section \<open>Guarantees\<close>

lemma balance_effect:
  assumes A: "replica_api_ok E R K" and K: "pk \<in> K" and inv: "replicas_inv E R K s" and step: "replica_balance E R pk s = (r, s')"
  shows "events_of E R K s' = events_of E R K s"
proof -
  obtain q s1 where o: "open_store E R pk s = (q, s1)" by (metis surj_pair)
  have "s' = s1" using step o by (cases q) (auto simp: replica_balance_def)
  with open_store_effect(2) [OF A K inv o] show ?thesis by simp
qed

lemma register_and_propagate_effect:
  assumes A: "replica_api_ok E (tp_replica P) K" and W: "wallet_ok (ra_wallet (tp_replica P))" and inv: "replicas_inv E (tp_replica P) K s"
    and K: "tap_recipient payment \<in> K"
    and room: "\<forall>pk. length (events_of E (tp_replica P) K s pk) + 1 < 2 ^ 64"
    and step: "register_and_propagate E P payment s = (Inr cp, s')"
  shows "cp = credit_proof payment" and "replicas_inv E (tp_replica P) K s'"
    and "TransferRegistered payment \<in> set (events_of E (tp_replica P) K s' (tap_sender payment))"
proof -
  let ?R = "tp_replica P" and ?c = "credit_proof payment"
  have pk: "cap_recipient ?c = tap_recipient payment" by (simp add: cap_recipient_def credit_proof_def tap_recipient_def)
  obtain q s1 where reg: "replica_register (tp_bls P) ?R payment s = (q, s1)" by (metis surj_pair)
  with step obtain e where q: "q = Inr e" and pr: "replica_receive_propagated E ?R ?c s1 = (Inr cp, s')"
    by (cases q) (auto simp: register_and_propagate_def)
  have lt: "length (events_of E ?R K s pk) < 2 ^ 64" for pk using room [rule_format, of pk] by simp
  from register_appends [OF A W inv lt reg] q
  have ap: "appends E ?R K (tap_sender payment) [TransferRegistered payment] s s1" by auto
  then have inv1: "replicas_inv E ?R K s1" and ev1: "TransferRegistered payment \<in> set (events_of E ?R K s1 (tap_sender payment))"
    and room1: "length (events_of E ?R K s1 (cap_recipient ?c)) < 2 ^ 64"
    using room [rule_format, of "cap_recipient ?c"] lt by (auto simp: appends_def)
  have K1: "cap_recipient ?c \<in> K" using K pk by simp
  have "cp = ?c \<and> (\<exists>evs. appends E ?R K (cap_recipient ?c) evs s1 s')"
    using A K1 inv1 room1 pr by (cases rule: propagate_cases) auto
  then show "cp = credit_proof payment" and "replicas_inv E ?R K s'"
    and "TransferRegistered payment \<in> set (events_of E ?R K s' (tap_sender payment))"
    using ev1 by (auto simp: appends_def)
qed

text \<open>The ways a payment can end.\<close>

lemma process_payment_cases:
  assumes "process_payment E P (CmdM (DataCmdMsg payment cmd) i target) origin t = (Inr duties, t')"
  obtains (refused) em where "duties = [payment_error E payment em i]"
  | (paid) cp bytes t1 where "tap_recipient payment = section_wallet_id (tp_bls P) t"
      "on_replicas (register_and_propagate E P payment) t = (Inr cp, t1)" "tp_ser_cmd P cmd = Some bytes"
      "t' = (if tp_log_info P then snd (on_replicas (replica_balance E (tp_replica P) (tap_recipient payment)) t1) else t1)"
      "duties = [AddPayment cp,
        if rate_limit_from (tp_float P) (tp_full P) (of_nat (length bytes)) (tr_rate_limit t1) > tap_amount payment
        then payment_error E payment EmInsufficientBalance i else forward_data E cmd origin i]"
proof -
  obtain bytes where b: "tp_ser_cmd P cmd = Some bytes"
    using assms by (cases "tp_ser_cmd P cmd") (auto simp: process_payment_def utils_serialise_def)
  obtain q t1 where rp: "on_replicas (register_and_propagate E P payment) t = (q, t1)" by (metis surj_pair)
  obtain r2 t2 where bal: "on_replicas (replica_balance E (tp_replica P) (tap_recipient payment)) t1 = (r2, t2)" by (metis surj_pair)
  show ?thesis
  proof (cases "tap_recipient payment = section_wallet_id (tp_bls P) t")
    case False
    with assms b show ?thesis by (intro refused [of EmNoSuchRecipient]) (simp add: process_payment_def utils_serialise_def Let_def)
  next
    case True
    show ?thesis
    proof (cases q)
      case (Inl e)
      with True assms b rp show ?thesis
        by (intro refused [of EmPaymentFailed]) (simp add: process_payment_def utils_serialise_def Let_def)
    next
      case (Inr cp)
      with True assms b rp bal show ?thesis
        by (intro paid [of cp t1 bytes])
          (auto simp: process_payment_def utils_serialise_def Let_def split: if_splits sum.splits)
    qed
  qed
qed

text \<open>
  A write that is forwarded to the section of its address is the client's own, unchanged; the payment
  was made to this section's wallet, covers the price at that moment, is recorded as registered at
  the payer's wallet, and is added to the section's funds.
\<close>

lemma forwarded_data_is_paid:
  assumes A: "replica_api_ok E (tp_replica P) K" and W: "wallet_ok (ra_wallet (tp_replica P))"
    and inv: "replicas_inv E (tp_replica P) K (tr_replicas t)" and K: "tap_recipient payment \<in> K"
    and room: "\<forall>pk. length (events_of E (tp_replica P) K (tr_replicas t) pk) + 1 < 2 ^ 64"
    and step: "process_payment E P (CmdM (DataCmdMsg payment cmd) i target) origin t = (Inr duties, t')"
    and fwd: "Send m \<in> set duties" "msg m = NodeCmdM (NodeMetadataCmd cmd' origin') i' target'"
  shows "cmd' = cmd \<and> origin' = origin \<and> dst m = DstSection (data_cmd_dst_address E cmd) \<and>
    tap_recipient payment = section_wallet_id (tp_bls P) t \<and>
    (\<exists>bytes. tp_ser_cmd P cmd = Some bytes \<and>
       rate_limit_from (tp_float P) (tp_full P) (of_nat (length bytes)) (tr_rate_limit t) \<le> tap_amount payment) \<and>
    AddPayment (credit_proof payment) \<in> set duties \<and>
    TransferRegistered payment \<in> set (events_of E (tp_replica P) K (tr_replicas t') (tap_sender payment))"
  using step
proof (cases rule: process_payment_cases)
  case (refused em)
  with fwd show ?thesis by (auto simp: payment_error_def cmd_error_to_def)
next
  case (paid cp bytes t1)
  have rp: "register_and_propagate E P payment (tr_replicas t) = (Inr cp, tr_replicas t1)" and rl: "tr_rate_limit t1 = tr_rate_limit t"
    using paid(2) by (auto simp: on_replicas_def Let_def prod_eq_iff)
  note ef = register_and_propagate_effect [OF A W inv K room rp]
  have "events_of E (tp_replica P) K (snd (replica_balance E (tp_replica P) (tap_recipient payment) (tr_replicas t1))) =
      events_of E (tp_replica P) K (tr_replicas t1)"
    using balance_effect [OF A K ef(2)] by (metis surjective_pairing)
  then have "TransferRegistered payment \<in> set (events_of E (tp_replica P) K (tr_replicas t') (tap_sender payment))"
    using ef(3) by (simp add: paid(4) on_replicas_def Let_def)
  moreover have "\<not> rate_limit_from (tp_float P) (tp_full P) (of_nat (length bytes)) (tr_rate_limit t) > tap_amount payment"
    and "Send m = forward_data E cmd origin i"
    using fwd paid(5) by (auto simp: rl payment_error_def cmd_error_to_def split: if_splits)
  ultimately show ?thesis using paid(1,3,5) ef(1) fwd(2) by (auto simp: forward_data_def)
qed

text \<open>A price of zero, and a replica that knows the payer's wallet.\<close>

definition zero_ops :: "unit f64_ops" where
  "zero_ops = \<lparr>f_lit = (\<lambda>n d. ()), f_of = (\<lambda>n. ()), f_add = (\<lambda>x y. ()), f_mul = (\<lambda>x y. ()), f_div = (\<lambda>x y. ()), f_powf = (\<lambda>x y. ()),
     f_round = (\<lambda>x. ()), f_floor = (\<lambda>x. ()), f_gt = (\<lambda>x y. False), f_as_u64 = (\<lambda>x. 0)\<rparr>"

definition toy_transfers_api :: "(ReplicaEvent list_db, ReplicaEvent list_disk, ReplicaEvent list, nat, unit) transfers_api" where
  "toy_transfers_api = \<lparr>tp_replica = list_replica, tp_bls = toy_bls,
     tp_full = \<lparr>fa_total_keys = id, fa_lcreate = (\<lambda>k n. (True, n + 1)), fa_ladd = (\<lambda>k v n. n), fa_key_text = (\<lambda>k. [])\<rparr>,
     tp_float = zero_ops, tp_ser_cmd = (\<lambda>c. Some []), tp_log_info = False\<rparr>"

definition toy_transfers :: "(ReplicaEvent list_db, ReplicaEvent list_disk, nat) Transfers" where
  "toy_transfers = transfers_new (with_events [TransferPropagated toy_credit]) \<lparr>rl_full_adults = 0, rl_network = toy_routing\<rparr>"

lemma toy_replica_of: "tp_replica toy_transfers_api = list_replica" by (simp add: toy_transfers_api_def)

lemma toy_api_fields:
  "tp_bls toy_transfers_api = toy_bls" "tp_float toy_transfers_api = zero_ops" "tp_ser_cmd toy_transfers_api c = Some []"
  "\<not> tp_log_info toy_transfers_api"
  by (simp_all add: toy_transfers_api_def)

lemma other_file: "one_file \<noteq> ([TRANSFERS_DIR_NAME], replicate 7 c @ DB_EXTENSION)"
  by (rule notI, drule arg_cong [where f = "length \<circ> snd"]) (simp add: one_file_def)

lemma toy_paid:
  "\<exists>s. register_and_propagate example_ext toy_transfers_api toy_debit (with_events [TransferPropagated toy_credit]) = (Inr (credit_proof toy_debit), s)"
proof -
  have "cap_recipient (credit_proof toy_debit) = Bls 7" by (simp add: cap_recipient_def credit_proof_def toy_debit_def)
  with other_file show ?thesis
    by (simp add: register_and_propagate_def toy_transfers_api_def toy_register) (simp add: toy_eval)
qed

lemma toy_payer:
  "replicas_inv example_ext list_replica two_keys (with_events [TransferPropagated toy_credit])"
  "length (events_of example_ext list_replica two_keys (with_events [TransferPropagated toy_credit]) pk) \<le> 1"
proof -
  have "run_steps (exec_cmd example_ext toy_bls list_replica) [CmdPropagate toy_credit] (fresh_replica []) =
      ([Inr (TransferPropagated toy_credit)], with_events [TransferPropagated toy_credit])"
    by (simp add: Let_def toy_propagate)
  from run_appends [OF list_replica_ok fresh_replica_inv(1) _ _ this, of pk]
  show "replicas_inv example_ext list_replica two_keys (with_events [TransferPropagated toy_credit])"
    and "length (events_of example_ext list_replica two_keys (with_events [TransferPropagated toy_credit]) pk) \<le> 1"
    by (auto simp: toy_keys fresh_replica_inv(2) split: if_splits)
qed

definition toy_cmd :: DataCmd where
  "toy_cmd = BlobCmd (DeletePrivate (BlobPrivateAddr 9))"

lemma toy_transfers_replicas: "tr_replicas toy_transfers = with_events [TransferPropagated toy_credit]"
  by (simp add: toy_transfers_def transfers_new_def)

lemma toy_recipient: "tap_recipient toy_debit \<in> two_keys"
  by (simp add: two_keys_def tap_recipient_def toy_debit_def)

lemma toy_room: "\<forall>pk. length (events_of example_ext list_replica two_keys (tr_replicas toy_transfers) pk) + 1 < 2 ^ 64"
  unfolding toy_transfers_replicas by (rule allI, rule le_less_trans [OF add_right_mono [OF toy_payer(2)]]) simp

text \<open>A payment that is accepted.\<close>

lemma toy_payment:
  "\<exists>s. process_payment example_ext toy_transfers_api (CmdM (DataCmdMsg toy_debit toy_cmd) 3 None) (AllClients toy_key) toy_transfers =
     (Inr [AddPayment (credit_proof toy_debit), forward_data example_ext toy_cmd (AllClients toy_key) 3], toy_transfers\<lparr>tr_replicas := s\<rparr>)"
proof -
  obtain s where s: "register_and_propagate example_ext toy_transfers_api toy_debit (with_events [TransferPropagated toy_credit]) =
      (Inr (credit_proof toy_debit), s)"
    using toy_paid by blast
  have sec: "tap_recipient toy_debit = section_wallet_id toy_bls toy_transfers"
    by (simp add: section_wallet_id_def replicas_pk_set_def toy_transfers_def transfers_new_def with_events_def fresh_replica_def toy_bls_def
        tap_recipient_def toy_debit_def Let_def)
  have price: "rate_limit_from zero_ops A n rl = 0" for A :: "nat full_adults_api" and n rl
    by (simp add: rate_limit_from_def rate_limit_def zero_ops_def Let_def)
  show ?thesis using s sec
    by (intro exI [of _ s]) (simp add: toy_transfers_replicas process_payment_def on_replicas_def utils_serialise_def Let_def toy_api_fields price)
qed

text \<open>
  A client whose wallet refuses a transfer is not told: the refusal is an error of the wallet,
  which has no message for clients, so that the handler ends with an internal error, and no event
  is recorded.
\<close>

lemma wallet_refusal_unanswered:
  assumes "btm_get (rp_locks (tr_replicas t)) (st_sender transfer) = Some st"
    and "from_history (ra_wallet (tp_replica P)) (st_sender transfer) (rp_info (tr_replicas t)) (get_all (ra_store (tp_replica P)) st) = Inr w"
    and "w_validate (ra_wallet (tp_replica P)) w (st_debit transfer) (st_credit transfer) = Inl e"
  shows "transfers_validate E P new_id transfer msg_id origin t = (Inl (NoErrorMapping (to_string (texts E) (TransferError e))), t)"
  using assms
  by (simp add: transfers_validate_def on_replicas_def replica_validate_def load_key_lock_def load_wallet_def
      convert_to_error_message_def Let_def)

lemma wallet_refusal_unanswered_witness:
  "fst (transfers_validate example_ext
     (toy_transfers_api\<lparr>tp_replica := list_replica\<lparr>ra_wallet := list_wallet\<lparr>w_validate := (\<lambda>w d c. Inl InvalidOwner)\<rparr>\<rparr>\<rparr>)
     8 \<lparr>st_debit = tap_signed_debit toy_debit, st_credit = tap_signed_credit toy_debit\<rparr> 3 (SrcEndUser (AllClients toy_key)) toy_transfers) =
   Inl (NoErrorMapping [])"
  using wallet_refusal_unanswered [of toy_transfers
      "\<lparr>st_debit = tap_signed_debit toy_debit, st_credit = tap_signed_credit toy_debit\<rparr>"
      "\<lparr>ts_id = 1, ts_db = (one_file, [(dec_string 0, TransferPropagated toy_credit)])\<rparr>"
      "toy_transfers_api\<lparr>tp_replica := list_replica\<lparr>ra_wallet := list_wallet\<lparr>w_validate := (\<lambda>w d c. Inl InvalidOwner)\<rparr>\<rparr>\<rparr>"
      _ InvalidOwner example_ext]
  by (simp add: toy_transfers_def transfers_new_def with_events_def Let_def list_wallet_def example_ext_def
      st_sender_def toy_debit_def)

end
