(* ===== verification/Event_Mapping.thy ===== *)
theory Event_Mapping
  imports Network
begin

text \<open>
  From what the routing layer reports to the duties of the node
  (\<^verbatim>\<open>src/src/event_mapping/mod.rs\<close>, \<^verbatim>\<open>src/src/event_mapping/map_msg.rs\<close>), with the two loops that
  wait for the node's key share.
\<close>

section \<open>Mappings\<close>

datatype (plugins only: code size) MsgContext = MsgCtx Message SrcLocation | BytesCtx bytes SrcLocation

record LazyError =
  lazy_msg :: MsgContext
  lazy_error :: Error

datatype (plugins only: code size) Mapping = MappingOk NodeDuty "MsgContext option" | MappingError LazyError

text \<open>The parameters: the rendering and the parsing of messages.\<close>

record message_api =
  debug_msg :: "Message \<Rightarrow> string"
  message_from :: "bytes \<Rightarrow> Message option"

section \<open>Messages of clients\<close>

definition match_user_sent_msg :: "message_api \<Rightarrow> Message \<Rightarrow> DstLocation \<Rightarrow> EndUser \<Rightarrow> Mapping" where
  "match_user_sent_msg M m d origin =
     (let ctx = MsgCtx m (SrcEndUser origin); src = SrcEndUser origin;
          ok = (\<lambda>op. MappingOk op (Some ctx));
          unknown = MappingError \<lparr>lazy_msg = ctx, lazy_error = InvalidMessage (message_id m) (''Unknown user msg: '' @ debug_msg M m)\<rparr>
      in case m of
        QueryM (DataQueryMsg query) i _ \<Rightarrow> ok (ProcessRead query i origin)
      | CmdM (DataCmdMsg _ _) i _ \<Rightarrow> ok (ProcessDataPayment m origin)
      | CmdM (TransferCmdMsg (ValidateTransfer signed_transfer)) i _ \<Rightarrow> ok (ValidateClientTransfer signed_transfer i src)
      | CmdM (TransferCmdMsg (SimulatePayoutCmd transfer)) i _ \<Rightarrow> ok (SimulatePayout transfer i src)
      | CmdM (TransferCmdMsg (RegisterTransferCmd p)) i _ \<Rightarrow> ok (RegisterTransfer p i)
      | QueryM (TransferQueryMsg (GetHistory at since_version)) i _ \<Rightarrow> ok (GetTransfersHistory at since_version i src)
      | QueryM (TransferQueryMsg (GetBalanceOf at)) i _ \<Rightarrow> ok (GetBalance at i src)
      | QueryM (TransferQueryMsg (GetStoreCostOf requester bytes)) i _ \<Rightarrow> ok (GetStoreCost requester bytes i src)
      | _ \<Rightarrow> unknown)"

section \<open>Messages of nodes and sections\<close>

text \<open>The \<^verbatim>\<open>unwrap\<close> of the sender's name is the only panic: the value \<^const>\<open>None\<close>.\<close>

definition match_section_msg :: "externals \<Rightarrow> Message \<Rightarrow> SrcLocation \<Rightarrow> NodeDuty option" where
  "match_section_msg E m origin = (case m of
     NodeCmdM (NodeSystem (RegisterWallet wallet)) i _ \<Rightarrow>
       (case dst_name E (src_to_dst E origin) of
          None \<Rightarrow> None
        | Some node_id \<Rightarrow> Some (SetNodeWallet wallet node_id i origin))
   | NodeCmdM (NodeSystem (ReceiveExistingData node_rewards user_wallets)) _ _ \<Rightarrow> Some (SynchState node_rewards user_wallets)
   | NodeCmdM (NodeSystem (ProposeRewardPayout proposal)) _ _ \<Rightarrow> Some (ReceiveRewardProposal proposal)
   | NodeCmdM (NodeSystem (AccumulateRewardPayout accumulation)) _ _ \<Rightarrow> Some (ReceiveRewardAccumulation accumulation)
   | NodeQueryM (NodeRewardsQuery node_name) i _ \<Rightarrow> Some (GetNodeWalletKey node_name i origin)
   | NodeCmdM (NodePropagateTransfer p) i _ \<Rightarrow> Some (PropagateTransfer p i origin)
   | NodeQueryM (NodeMetadataQuery query user) i _ \<Rightarrow> Some (ProcessRead query i user)
   | NodeCmdM (NodeMetadataCmd cmd user) i _ \<Rightarrow> Some (ProcessWrite cmd i user)
   | NodeQueryM (NodeChunksQuery query user) i _ \<Rightarrow> Some (ReadChunk query i user)
   | NodeCmdM (NodeChunksCmd cmd user) i _ \<Rightarrow> Some (WriteChunk cmd i user)
   | NodeQueryM (NodeSystemQueryMsg (GetChunkQuery new_holder address current_holders)) i _ \<Rightarrow>
       Some (GetChunkForReplication address new_holder i)
   | NodeCmdM (NodeSystem (ReplicateChunkCmd _ address current_holders)) i _ \<Rightarrow> Some (ReplicateChunk address current_holders i)
   | NodeQueryM (NodeSystemQueryMsg GetSectionEldersQuery) i _ \<Rightarrow> Some (GetSectionElders i origin)
   | _ \<Rightarrow> Some NoOp)"

definition match_node_msg :: "Message \<Rightarrow> SrcLocation \<Rightarrow> NodeDuty" where
  "match_node_msg m origin = (case m of
     NodeCmdM (NodeSystem (StorageFull _ node_id)) _ _ \<Rightarrow> IncrementFullNodeCount node_id
   | NodeQueryResponseM (GetChunkResponse res) _ correlation_id _ \<Rightarrow>
       (case res of Inr data \<Rightarrow> StoreChunkForReplication data correlation_id | Inl _ \<Rightarrow> NoOp)
   | NodeQueryM GetReplicaEventsQuery i _ \<Rightarrow> GetTransferReplicaEvents i origin
   | NodeQueryM (NodeChunksQuery query user) i _ \<Rightarrow> ReadChunk query i user
   | NodeCmdM (NodeChunksCmd cmd user) i _ \<Rightarrow> WriteChunk cmd i user
   | _ \<Rightarrow> NoOp)"

definition match_or_err :: "externals \<Rightarrow> message_api \<Rightarrow> Message \<Rightarrow> SrcLocation \<Rightarrow> Mapping option" where
  "match_or_err E M m src = (case match_section_msg E m src of
     None \<Rightarrow> None
   | Some NoOp \<Rightarrow> Some (case match_node_msg m src of
        NoOp \<Rightarrow> MappingError \<lparr>lazy_msg = MsgCtx m src, lazy_error = InvalidMessage (message_id m) (''Unknown msg: '' @ debug_msg M m)\<rparr>
      | op \<Rightarrow> MappingOk op (Some (MsgCtx m src)))
   | Some op \<Rightarrow> Some (MappingOk op (Some (MsgCtx m src))))"

definition map_node_msg :: "externals \<Rightarrow> message_api \<Rightarrow> Message \<Rightarrow> SrcLocation \<Rightarrow> DstLocation \<Rightarrow> Mapping option" where
  "map_node_msg E M m src d = (case d of
     DstSection _ \<Rightarrow> match_or_err E M m src
   | DstNode _ \<Rightarrow> match_or_err E M m src
   | _ \<Rightarrow> Some (MappingError \<lparr>lazy_msg = MsgCtx m src, lazy_error = InvalidMessage (message_id m) (''Invalid dst: '' @ debug_msg M m)\<rparr>))"

section \<open>Events of the routing layer\<close>

datatype (plugins only: code size) NodeElderChange = ElderChangeNone | Promoted | Demoted

datatype (plugins only: code size) RoutingEvent =
    MessageReceived bytes SrcLocation DstLocation
  | ClientMessageReceived Message EndUser
  | EldersChangedEvent Prefix nat "nat option" NodeElderChange
  | MemberLeft XorName u8
  | MemberJoined XorName "XorName option" u8
  | Relocated
  | OtherEvent nat

text \<open>
  The loop of an elder that waits for the key of the section: \<open>polls i\<close> is what the \<open>i\<close>-th look
  at the key set finds. Only failures are counted.
\<close>

partial_function (option) await_key :: "bls_api \<Rightarrow> (nat \<Rightarrow> nat + PublicKeySet) \<Rightarrow> nat \<Rightarrow> nat \<Rightarrow> nat \<Rightarrow> nat option" where
  "await_key B polls key i sanity_counter =
     (if sanity_counter < 240
      then (case polls i of
          Inr pk_set \<Rightarrow> if key = public_key B pk_set then Some i else await_key B polls key (Suc i) sanity_counter
        | Inl _ \<Rightarrow> await_key B polls key (Suc i) (Suc sanity_counter))
      else Some i)"

text \<open>The loop of a promoted node that waits for a key share; it gives up with \<^const>\<open>False\<close>.\<close>

function await_share :: "(nat \<Rightarrow> nat + PublicKeySet) \<Rightarrow> nat \<Rightarrow> nat \<Rightarrow> bool" where
  "await_share polls i sanity_counter =
     (if is_ok (polls i) then True
      else if sanity_counter > 240 then False
      else await_share polls (Suc i) (Suc sanity_counter))"
  by auto

termination
  by (relation "measure (\<lambda>(polls, i, c). 241 - c)") auto

declare await_share.simps [simp del]

text \<open>The duty of an elder after a change of the elders.\<close>

definition elders_changed_duty :: "Prefix \<Rightarrow> nat \<Rightarrow> nat option \<Rightarrow> bool \<Rightarrow> NodeDuty" where
  "elders_changed_duty pre key sibling_key newbie = (case sibling_key of
     Some sk \<Rightarrow> SectionSplit pre (Bls key) (Bls sk) newbie
   | None \<Rightarrow> EldersChanged pre (Bls key) newbie)"

definition prefix_is_empty :: "Prefix \<Rightarrow> bool" where
  "prefix_is_empty p \<longleftrightarrow> prefix_bit_count p = 0"

definition map_routing_event :: "externals \<Rightarrow> message_api \<Rightarrow> RoutingEvent \<Rightarrow> Routing \<Rightarrow> (nat \<Rightarrow> nat + PublicKeySet) \<Rightarrow> Mapping outcome" where
  "map_routing_event E M event N polls = (case event of
     MessageReceived content src d \<Rightarrow> (case message_from M content of
         None \<Rightarrow> Returns (MappingError \<lparr>lazy_msg = BytesCtx content src, lazy_error = MessageError\<rparr>)
       | Some m \<Rightarrow> (case map_node_msg E M m src d of None \<Rightarrow> Panics | Some mapping \<Rightarrow> Returns mapping))
   | ClientMessageReceived m user \<Rightarrow> Returns (match_user_sent_msg M m (DstNode (rt_name N)) user)
   | EldersChangedEvent pre key sibling_key self_status_change \<Rightarrow>
       let first_section = prefix_is_empty (our_prefix N); first_elder = (length (our_elder_names N) = 1) in
       if first_section \<and> first_elder then Returns (MappingOk Genesis None)
       else (case self_status_change of
           ElderChangeNone \<Rightarrow>
             if \<not> rt_is_elder N then Returns (MappingOk NoOp None)
             else (case await_key (rt_bls N) polls key 0 0 of
                 None \<Rightarrow> Runs_forever
               | Some _ \<Rightarrow> Returns (MappingOk (elders_changed_duty pre key sibling_key False) None))
         | Promoted \<Rightarrow>
             if await_share polls 0 0 then Returns (MappingOk (elders_changed_duty pre key sibling_key True) None)
             else Returns (MappingOk NoOp None)
         | Demoted \<Rightarrow> Returns (MappingOk LevelDown None))
   | MemberLeft name age \<Rightarrow> Returns (MappingOk (ProcessLostMember name age) None)
   | MemberJoined name previous_name age \<Rightarrow>
       Returns (MappingOk (case previous_name of
           Some prev_name \<Rightarrow> SetNodeJoinsAllowed False
         | None \<Rightarrow> if prefix_is_empty (our_prefix N) then NoOp else SetNodeJoinsAllowed False) None)
   | Relocated \<Rightarrow> Returns (MappingOk NoOp None)
   | OtherEvent _ \<Rightarrow> Returns (MappingOk NoOp None))"

section \<open>The waiting loops\<close>

definition failures :: "(nat \<Rightarrow> nat + PublicKeySet) \<Rightarrow> nat \<Rightarrow> nat \<Rightarrow> nat" where
  "failures polls i n = length (filter (\<lambda>k. \<not> is_ok (polls k)) [i..<n])"

lemma failures_Cons: "i < n \<Longrightarrow> failures polls i n = (if is_ok (polls i) then 0 else 1) + failures polls (Suc i) n"
  by (simp add: failures_def upt_conv_Cons)

definition key_found :: "bls_api \<Rightarrow> (nat \<Rightarrow> nat + PublicKeySet) \<Rightarrow> nat \<Rightarrow> nat \<Rightarrow> bool" where
  "key_found B polls key n \<longleftrightarrow> polls n \<in> Inr ` {ks. public_key B ks = key}"

text \<open>If the loop ends, the key was found or too many looks failed.\<close>

lemma await_key_SomeD:
  assumes "await_key B polls key i c = Some j" and "c \<le> 240"
  shows "i \<le> j \<and> (key_found B polls key j \<or> c + failures polls i j = 240)"
  using assms
proof (induction rule: await_key.raw_induct [rotated 1, consumes 1, case_names step])
  case (step await B polls key i c j)
  show ?case
  proof (cases "c < 240")
    case False
    with step.prems have "j = i" "c = 240" using step.hyps by simp_all
    then show ?thesis by (simp add: failures_def)
  next
    case lt: True
    show ?thesis
    proof (cases "polls i")
      case (Inl e)
      with lt step.hyps have "await B polls key (Suc i) (Suc c) = Some j" by simp
      from step.IH [OF this] lt Inl show ?thesis using failures_Cons [of i j polls] by auto
    next
      case (Inr ks)
      show ?thesis
      proof (cases "key = public_key B ks")
        case True
        with lt step.hyps Inr have "j = i" by simp
        with Inr True show ?thesis by (simp add: key_found_def)
      next
        case False
        with lt step.hyps Inr have "await B polls key (Suc i) c = Some j" by simp
        from step.IH [OF this] lt Inr show ?thesis using failures_Cons [of i j polls] by auto
      qed
    qed
  qed
qed

text \<open>If the key is found or too many looks fail, the loop ends.\<close>

lemma await_key_ends:
  assumes "key_found B polls key (i + n) \<or> 240 \<le> c + failures polls i (i + n)"
  shows "\<exists>j. await_key B polls key i c = Some j"
  using assms
proof (induction n arbitrary: i c)
  case 0
  then show ?case
    by (subst await_key.simps) (auto simp: key_found_def failures_def)
next
  case (Suc n)
  have step: "\<exists>j. await_key B polls key (Suc i) c' = Some j" if "c' = (if is_ok (polls i) then c else Suc c)" for c'
    using Suc.IH [of "Suc i" c'] Suc.prems that failures_Cons [of i "i + Suc n" polls] by (auto split: if_splits)
  show ?case using step [of c] step [of "Suc c"]
    by (subst await_key.simps) (cases "polls i"; simp)
qed

lemma await_key_None_iff:
  "await_key B polls key 0 0 = None \<longleftrightarrow> (\<forall>n. \<not> key_found B polls key n \<and> failures polls 0 n < 240)"
proof (cases "await_key B polls key 0 0")
  case None
  then show ?thesis using await_key_ends [of B polls key 0 _ 0] by (simp add: not_le) (meson not_less option.distinct(1))
next
  case (Some j)
  with await_key_SomeD [OF Some] show ?thesis by auto (metis less_irrefl)
qed

section \<open>Guarantees\<close>

text \<open>
  C36. Mapping an event never hangs, with one exception: an elder that stays an elder waits for the
  section's new key, and waits forever exactly if the key is never found while fewer than 240 looks
  at the key set fail; looks that find an old key are not counted.
\<close>

theorem event_mapping_hangs_iff:
  "map_routing_event E M event N polls = Runs_forever \<longleftrightarrow>
    (\<exists>pre key sibling_key. event = EldersChangedEvent pre key sibling_key ElderChangeNone \<and> rt_is_elder N \<and>
      \<not> (prefix_is_empty (our_prefix N) \<and> length (our_elder_names N) = 1) \<and>
      (\<forall>n. \<not> key_found (rt_bls N) polls key n \<and> failures polls 0 n < 240))"
  by (cases event)
    (auto simp: map_routing_event_def Let_def await_key_None_iff [symmetric] split: option.splits NodeElderChange.splits if_splits)

text \<open>The duties a client can cause, and for whom.\<close>

definition client_duty :: "EndUser \<Rightarrow> NodeDuty \<Rightarrow> bool" where
  "client_duty user op = (case op of
     ProcessRead _ _ origin \<Rightarrow> origin = user
   | ProcessDataPayment _ origin \<Rightarrow> origin = user
   | ValidateClientTransfer _ _ origin \<Rightarrow> origin = SrcEndUser user
   | SimulatePayout _ _ origin \<Rightarrow> origin = SrcEndUser user
   | RegisterTransfer _ _ \<Rightarrow> True
   | GetTransfersHistory _ _ _ origin \<Rightarrow> origin = SrcEndUser user
   | GetBalance _ _ origin \<Rightarrow> origin = SrcEndUser user
   | GetStoreCost _ _ _ origin \<Rightarrow> origin = SrcEndUser user
   | _ \<Rightarrow> False)"

lemma user_msg_confined:
  "case match_user_sent_msg M m d user of
     MappingOk op ctx \<Rightarrow> client_duty user op \<and> ctx = Some (MsgCtx m (SrcEndUser user)) \<and>
       (\<forall>m' u. op = ProcessDataPayment m' u \<longrightarrow> m' = m \<and> u = user \<and> (\<exists>payment cmd i t. m = CmdM (DataCmdMsg payment cmd) i t))
   | MappingError e \<Rightarrow> lazy_msg e = MsgCtx m (SrcEndUser user) \<and> (\<exists>s. lazy_error e = InvalidMessage (message_id m) s)"
  by (auto simp: match_user_sent_msg_def client_duty_def Let_def
      split: Message.splits Cmd.splits Query.splits TransferCmd.splits TransferQuery.splits)

text \<open>
  C14. A client is confined to the duties of clients: whatever message it sends, what the node does
  is a read, a payment for data, a step or query of a transfer, on behalf of this client and no
  one else, or the message is rejected with the client's own message as context; in particular a
  client cannot have data written without the payment being processed first.
\<close>

theorem client_messages_confined:
  "\<exists>mapping. map_routing_event E M (ClientMessageReceived m user) N polls = Returns mapping \<and>
    (case mapping of
       MappingOk op ctx \<Rightarrow> client_duty user op \<and> ctx = Some (MsgCtx m (SrcEndUser user))
     | MappingError e \<Rightarrow> lazy_msg e = MsgCtx m (SrcEndUser user) \<and> (\<exists>s. lazy_error e = InvalidMessage (message_id m) s))"
  using user_msg_confined [where M = M and m = m and user = user and d = "DstNode (rt_name N)"]
  by (simp add: map_routing_event_def split: Mapping.splits)

end
