(* ===== verification/State_Db.thy ===== *)
theory State_Db
  imports Used_Space
begin

text \<open>
  The reward keys of the node in files (\<^verbatim>\<open>src/src/state_db.rs\<close>), coded in hexadecimal. The keys
  themselves are those of the crate \<^verbatim>\<open>bls\<close>: numbers, with their coding as bytes a parameter. A
  string is the list of its bytes.
\<close>

unbundle bit_operations_syntax

section \<open>Hexadecimal numbers\<close>

definition hex_digit :: "u8 \<Rightarrow> char" where
  "hex_digit b = (if unat b < 10 then char_of (48 + unat b) else char_of (87 + unat b))"

definition vec_to_hex :: "bytes \<Rightarrow> string" where
  "vec_to_hex hash = concat (map (\<lambda>b. [hex_digit (drop_bit 4 b), hex_digit (b AND 15)]) hash)"

definition hex_value :: "char \<Rightarrow> u8 option" where
  "hex_value c = (let b = of_char c :: nat in
     if 48 \<le> b \<and> b \<le> 57 then Some (of_nat (b - 48))
     else if 97 \<le> b \<and> b \<le> 102 then Some (of_nat (b - 97 + 10))
     else if 65 \<le> b \<and> b \<le> 70 then Some (of_nat (b - 65 + 10))
     else None)"

fun pair_up :: "u8 list \<Rightarrow> bytes" where
  "pair_up (h # l # hex_bytes) = (push_bit 4 h OR l) # pair_up hex_bytes"
| "pair_up _ = []"

definition parse_hex :: "string \<Rightarrow> bytes" where
  "parse_hex hex_str = pair_up (List.map_filter hex_value hex_str)"

section \<open>Keys\<close>

text \<open>The length of a public key in bytes is a constant of \<^verbatim>\<open>bls\<close>.\<close>

record key_codec =
  kc_size :: nat
  kc_to_bytes :: "nat \<Rightarrow> bytes"
  kc_from_bytes :: "bytes \<Rightarrow> nat option"
  kc_serialise_secret :: "nat \<Rightarrow> bytes option"

definition key_codec_ok :: "key_codec \<Rightarrow> nat \<Rightarrow> bool" where
  "key_codec_ok C pk \<longleftrightarrow> length (kc_to_bytes C pk) = kc_size C \<and> kc_from_bytes C (kc_to_bytes C pk) = Some pk"

definition pk_to_hex :: "key_codec \<Rightarrow> nat \<Rightarrow> string" where
  "pk_to_hex C pk = vec_to_hex (kc_to_bytes C pk)"

text \<open>The slice of the first bytes panics if there are fewer.\<close>

definition pk_from_hex :: "key_codec \<Rightarrow> string \<Rightarrow> nat result outcome" where
  "pk_from_hex C hex_str =
     (let pk_bytes = parse_hex hex_str in
      if length pk_bytes < kc_size C then Panics
      else Returns (ok_or (Logic ''Config error: Invalid public key bytes'') (kc_from_bytes C (take (kc_size C) pk_bytes))))"

definition sk_to_hex :: "key_codec \<Rightarrow> nat \<Rightarrow> string outcome" where
  "sk_to_hex C secret = (case kc_serialise_secret C secret of
     None \<Rightarrow> Panics
   | Some sk_serialised \<Rightarrow> Returns (vec_to_hex sk_serialised))"

definition REWARD_PUBLIC_KEY_FILENAME :: string where
  "REWARD_PUBLIC_KEY_FILENAME = ''reward_public_key''"

definition REWARD_SECRET_KEY_FILENAME :: string where
  "REWARD_SECRET_KEY_FILENAME = ''reward_secret_key''"

definition as_bytes :: "string \<Rightarrow> bytes" where
  "as_bytes s = map (\<lambda>c. of_nat (of_char c)) s"

text \<open>\<^verbatim>\<open>fs::write\<close> truncates the file first; if it fails, some first part is in the file, or the file is as it was.\<close>

datatype (plugins only: code size) whole_file_io = FileWritten | FileNotOpened | FileCut nat

definition write_whole :: "whole_file_io \<Rightarrow> path \<Rightarrow> string \<Rightarrow> fs \<Rightarrow> unit result \<times> fs" where
  "write_whole io p s d = (case io of
     FileWritten \<Rightarrow> (Inr (), fs_write p (as_bytes s) d)
   | FileNotOpened \<Rightarrow> (Inl Io, d)
   | FileCut n \<Rightarrow> (Inl Io, fs_write p (take n (as_bytes s)) d))"

definition store_new_reward_keypair :: "key_codec \<Rightarrow> whole_file_io \<times> whole_file_io \<Rightarrow> dir \<Rightarrow> nat \<Rightarrow> nat \<Rightarrow> fs \<Rightarrow>
    (unit result \<times> fs) outcome" where
  "store_new_reward_keypair C io root_dir secret public d = (case sk_to_hex C secret of
     Returns sk_hex \<Rightarrow> Returns (case write_whole (fst io) (root_dir, REWARD_SECRET_KEY_FILENAME) sk_hex d of
         (Inl e, d1) \<Rightarrow> (Inl e, d1)
       | (Inr _, d1) \<Rightarrow> write_whole (snd io) (root_dir, REWARD_PUBLIC_KEY_FILENAME) (pk_to_hex C public) d1)
   | Panics \<Rightarrow> Panics
   | Runs_forever \<Rightarrow> Runs_forever)"

section \<open>Round trip\<close>

lemma hex_value_digit:
  assumes "b < 16"
  shows "hex_value (hex_digit b) = Some b"
proof -
  have "unat b < 16" using assms by (simp add: word_less_nat_alt)
  then show ?thesis by (simp add: hex_digit_def hex_value_def Let_def)
qed

lemma byte_halves: "drop_bit 4 b < (16 :: u8)" "b AND 15 < (16 :: u8)" "push_bit 4 (drop_bit 4 b) OR (b AND 15) = (b :: u8)"
proof -
  have m: "b AND 15 = take_bit 4 b" by (simp add: take_bit_eq_mask mask_eq_exp_minus_1)
  show "drop_bit 4 b < 16"
    using unat_less_2p [of b] by (simp add: word_less_nat_alt drop_bit_eq_div unat_div_distrib less_mult_imp_div_less)
  show "b AND 15 < 16" unfolding m by (simp add: word_less_nat_alt take_bit_eq_mod unat_mod)
  show "push_bit 4 (drop_bit 4 b) OR (b AND 15) = b" unfolding m
    by (rule bit_word_eqI) (auto simp: bit_simps)
qed

lemma parse_vec_to_hex: "parse_hex (vec_to_hex bs) = bs"
proof (induction bs)
  case (Cons b bs)
  then show ?case
    by (simp add: parse_hex_def vec_to_hex_def List.map_filter_simps hex_value_digit byte_halves)
qed (simp add: parse_hex_def vec_to_hex_def List.map_filter_simps)

lemma length_pair_up: "length (pair_up ds) = length ds div 2"
  by (induction ds rule: pair_up.induct) auto

lemma length_parse_hex: "length (parse_hex s) = length (filter (\<lambda>c. hex_value c \<noteq> None) s) div 2"
  by (simp add: parse_hex_def length_pair_up List.map_filter_def comp_def)

lemma pk_from_to_hex: "key_codec_ok C pk \<Longrightarrow> pk_from_hex C (pk_to_hex C pk) = Returns (Inr pk)"
  by (simp add: pk_from_hex_def pk_to_hex_def parse_vec_to_hex key_codec_ok_def ok_or_def Let_def)

text \<open>A configured wallet with too few digits is not refused but ends the process.\<close>

lemma pk_from_hex_panics_iff:
  "pk_from_hex C s = Panics \<longleftrightarrow> length (filter (\<lambda>c. hex_value c \<noteq> None) s) < 2 * kc_size C"
  by (auto simp: pk_from_hex_def length_parse_hex Let_def)

lemma char_of_as_byte [simp]: "char_of (unat (of_nat (of_char c) :: u8)) = c"
  by (simp add: unat_of_nat)

text \<open>The text of a file as a string.\<close>

definition file_text :: "fs \<Rightarrow> path \<Rightarrow> string option" where
  "file_text d p = map_option (map (\<lambda>b. char_of (unat b))) (fs_read d p)"

lemma file_text_write_whole:
  "write_whole FileWritten p s d = (r, d') \<Longrightarrow> file_text d' q = (if q = p then Some s else file_text d q)"
  by (auto simp: write_whole_def file_text_def as_bytes_def comp_def update_conv')

text \<open>
  C37. The keys of rewards survive a restart: when a new pair of keys was stored, the file of the
  public key reads back as that key, the file of the secret key has its bytes, and no other file
  has changed.
\<close>

theorem reward_keys_round_trip:
  assumes "key_codec_ok C public" and "kc_serialise_secret C secret = Some bs"
    and "store_new_reward_keypair C (FileWritten, FileWritten) root secret public d = Returns (r, d')"
  shows "r = Inr () \<and>
    (\<exists>s. file_text d' (root, REWARD_PUBLIC_KEY_FILENAME) = Some s \<and> pk_from_hex C s = Returns (Inr public)) \<and>
    (\<exists>s. file_text d' (root, REWARD_SECRET_KEY_FILENAME) = Some s \<and> parse_hex s = bs) \<and>
    (\<forall>p. p \<notin> {(root, REWARD_PUBLIC_KEY_FILENAME), (root, REWARD_SECRET_KEY_FILENAME)} \<longrightarrow> fs_read d' p = fs_read d p)"
proof -
  obtain d1 where w: "write_whole FileWritten (root, REWARD_SECRET_KEY_FILENAME) (vec_to_hex bs) d = (Inr (), d1)"
      "write_whole FileWritten (root, REWARD_PUBLIC_KEY_FILENAME) (pk_to_hex C public) d1 = (r, d')"
    using assms(2,3) by (auto simp: store_new_reward_keypair_def sk_to_hex_def write_whole_def)
  have "REWARD_SECRET_KEY_FILENAME \<noteq> REWARD_PUBLIC_KEY_FILENAME"
    by (simp add: REWARD_SECRET_KEY_FILENAME_def REWARD_PUBLIC_KEY_FILENAME_def)
  with w show ?thesis
    by (auto simp: file_text_write_whole [OF w(1)] file_text_write_whole [OF w(2)] pk_from_to_hex [OF assms(1)] parse_vec_to_hex)
      (auto simp: write_whole_def update_conv')
qed

text \<open>Keys of one byte.\<close>

definition byte_codec :: key_codec where
  "byte_codec = \<lparr>kc_size = 1, kc_to_bytes = (\<lambda>pk. [of_nat pk]), kc_from_bytes = (\<lambda>bs. Some (unat (hd bs))),
     kc_serialise_secret = (\<lambda>s. Some [of_nat s, 0])\<rparr>"

theorem reward_keys_round_trip_witness:
  "\<exists>d' s. store_new_reward_keypair byte_codec (FileWritten, FileWritten) [''root''] 9 171 [] = Returns (Inr (), d') \<and>
     file_text d' ([''root''], REWARD_PUBLIC_KEY_FILENAME) = Some s \<and> pk_from_hex byte_codec s = Returns (Inr 171)"
proof -
  obtain r d' where w: "store_new_reward_keypair byte_codec (FileWritten, FileWritten) [''root''] 9 171 [] = Returns (r, d')"
    by (simp add: store_new_reward_keypair_def sk_to_hex_def byte_codec_def write_whole_def)
  have "key_codec_ok byte_codec 171" "kc_serialise_secret byte_codec 9 = Some [9, 0]"
    by (simp_all add: key_codec_ok_def byte_codec_def)
  from reward_keys_round_trip [OF this w] w show ?thesis by blast
qed

end
