(* ===== verification/Config.thy ===== *)
theory Config
  imports State_Db
begin

text \<open>
  The configuration of a node (\<^verbatim>\<open>src/src/config_handler.rs\<close>): the file of settings, the command line
  that overrides it, and the file in which nodes leave their addresses. The parsers derived by
  \<^verbatim>\<open>structopt\<close> and \<^verbatim>\<open>serde_json\<close> are parameters, as is the default of the transport's settings.
\<close>

section \<open>Settings\<close>

type_synonym u16 = "16 word"
type_synonym u32 = "32 word"

datatype (plugins only: code size) IpAddr = V4 u32 | V6 "128 word"

record SocketAddr =
  ip :: IpAddr
  port :: u16

datatype (plugins only: code size) PathBuf = AbsPath dir | RelPath dir

text \<open>The settings of the transport layer (\<^verbatim>\<open>sn_routing::TransportConfig\<close>) that the node sets.\<close>

record NetworkConfig =
  nc_local_port :: "u16 option"
  nc_local_ip :: "IpAddr option"
  nc_external_port :: "u16 option"
  nc_external_ip :: "IpAddr option"
  nc_forward_port :: bool
  nc_hard_coded_contacts :: "SocketAddr set"
  nc_max_msg_size_allowed :: "u32 option"
  nc_idle_timeout_msec :: "u64 option"
  nc_keep_alive_interval_msec :: "u32 option"
  nc_bootstrap_cache_dir :: "string option"
  nc_upnp_lease_duration :: "u32 option"

record Config =
  cfg_wallet_id :: "string option"
  cfg_max_capacity :: "u64 option"
  cfg_root_dir :: "PathBuf option"
  cfg_verbose :: u64
  cfg_completions :: "string option"
  cfg_log_dir :: "PathBuf option"
  cfg_update :: bool
  cfg_update_only :: bool
  cfg_clear_data :: bool
  cfg_first :: "SocketAddr option"
  cfg_local_addr :: "SocketAddr option"
  cfg_public_addr :: "SocketAddr option"
  cfg_skip_igd :: bool
  cfg_hard_coded_contacts :: "SocketAddr set"
  cfg_max_msg_size_allowed :: "u32 option"
  cfg_idle_timeout_msec :: "u64 option"
  cfg_keep_alive_interval_msec :: "u32 option"
  cfg_bootstrap_cache_dir :: "string option"
  cfg_upnp_lease_duration :: "u32 option"
  cfg_network_config :: NetworkConfig

text \<open>The derived default, on that of the transport layer.\<close>

definition config_default :: "NetworkConfig \<Rightarrow> Config" where
  "config_default net = \<lparr>cfg_wallet_id = None, cfg_max_capacity = None, cfg_root_dir = None, cfg_verbose = 0,
     cfg_completions = None, cfg_log_dir = None, cfg_update = False, cfg_update_only = False, cfg_clear_data = False,
     cfg_first = None, cfg_local_addr = None, cfg_public_addr = None, cfg_skip_igd = False, cfg_hard_coded_contacts = {},
     cfg_max_msg_size_allowed = None, cfg_idle_timeout_msec = None, cfg_keep_alive_interval_msec = None,
     cfg_bootstrap_cache_dir = None, cfg_upnp_lease_duration = None, cfg_network_config = net\<rparr>"

section \<open>Reading settings\<close>

definition DEFAULT_MAX_CAPACITY :: u64 where
  "DEFAULT_MAX_CAPACITY = 2 * 1024 * 1024 * 1024"

definition DEFAULT_ROOT_DIR_NAME :: string where
  "DEFAULT_ROOT_DIR_NAME = ''root_dir''"

definition CONFIG_FILE :: string where
  "CONFIG_FILE = ''node.config''"

definition CONNECTION_INFO_FILE :: string where
  "CONNECTION_INFO_FILE = ''node_connection_info.config''"

definition is_first :: "Config \<Rightarrow> bool" where
  "is_first c \<longleftrightarrow> cfg_first c \<noteq> None"

definition config_max_capacity :: "Config \<Rightarrow> u64" where
  "config_max_capacity c = (case cfg_max_capacity c of Some n \<Rightarrow> n | None \<Rightarrow> DEFAULT_MAX_CAPACITY)"

datatype (plugins only: code size) Level = LevelError | LevelWarn | LevelInfo | LevelDebug | LevelTrace

definition config_verbose :: "Config \<Rightarrow> Level" where
  "config_verbose c =
     (if cfg_verbose c = 0 then LevelError else if cfg_verbose c = 1 then LevelWarn
      else if cfg_verbose c = 2 then LevelInfo else if cfg_verbose c = 3 then LevelDebug else LevelTrace)"

text \<open>\<open>home\<close> is the directory of the user, if it is known.\<close>

definition project_dirs :: "dir option \<Rightarrow> dir result" where
  "project_dirs home = and_then (ok_or Io home) (\<lambda>home_dir. Inr (home_dir @ [''.safe'', ''node'']))"

text \<open>\<^verbatim>\<open>PathBuf::join\<close> on an absolute directory; an absolute path replaces it.\<close>

fun join :: "dir \<Rightarrow> PathBuf \<Rightarrow> dir" where
  "join d (AbsPath p) = p"
| "join d (RelPath p) = d @ p"

definition config_root_dir :: "dir option \<Rightarrow> Config \<Rightarrow> PathBuf result" where
  "config_root_dir home c = (case cfg_root_dir c of
     Some root_dir \<Rightarrow> Inr root_dir
   | None \<Rightarrow> and_then (project_dirs home) (\<lambda>p. Inr (AbsPath (join p (RelPath [DEFAULT_ROOT_DIR_NAME])))))"

text \<open>The directory that a path stands for in a process with the given current directory: a relative path is below it.\<close>

definition node_root :: "dir \<Rightarrow> PathBuf \<Rightarrow> dir" where
  "node_root cwd root_dir = join cwd root_dir"

definition set_root_dir :: "PathBuf \<Rightarrow> Config \<Rightarrow> Config" where
  "set_root_dir path c = c\<lparr>cfg_root_dir := Some path\<rparr>"

definition set_log_dir :: "PathBuf \<Rightarrow> Config \<Rightarrow> Config" where
  "set_log_dir path c = c\<lparr>cfg_log_dir := Some path\<rparr>"

definition set_network_config :: "NetworkConfig \<Rightarrow> Config \<Rightarrow> Config" where
  "set_network_config net c = c\<lparr>cfg_network_config := net\<rparr>"

definition listen_on_loopback :: "Config \<Rightarrow> Config" where
  "listen_on_loopback c = c\<lparr>cfg_network_config := (cfg_network_config c)\<lparr>nc_local_ip := Some (V4 2130706433)\<rparr>\<rparr>"

section \<open>The command line\<close>

definition validate :: "Config \<Rightarrow> unit result \<times> Config" where
  "validate c =
     (if cfg_public_addr c \<noteq> None \<and> cfg_first c = None \<and> cfg_local_addr c = None
      then (Inl (Configuration ''--public-addr passed without specifing local address using --first or --local-addr''), c)
      else if cfg_public_addr c = None \<and> cfg_local_addr c \<noteq> None
      then if cfg_skip_igd c then (Inr (), c\<lparr>cfg_public_addr := cfg_local_addr c\<rparr>)
           else (Inr (), c\<lparr>cfg_local_addr := None\<rparr>)
      else (Inr (), c))"

text \<open>The newer value if there is one.\<close>

definition newer :: "'a option \<Rightarrow> 'a option \<Rightarrow> 'a option" where
  "newer new old = (case new of Some v \<Rightarrow> Some v | None \<Rightarrow> old)"

definition merge_network :: "Config \<Rightarrow> NetworkConfig \<Rightarrow> NetworkConfig" where
  "merge_network config net =
     net\<lparr>nc_local_port := newer (map_option port (cfg_local_addr config)) (nc_local_port net),
       nc_local_ip := newer (map_option ip (cfg_local_addr config)) (nc_local_ip net),
       nc_external_port := newer (map_option port (cfg_public_addr config)) (nc_external_port net),
       nc_external_ip := newer (map_option ip (cfg_public_addr config)) (nc_external_ip net),
       nc_forward_port := \<not> cfg_skip_igd config,
       nc_hard_coded_contacts :=
         (if cfg_hard_coded_contacts config = {} then nc_hard_coded_contacts net else cfg_hard_coded_contacts config),
       nc_max_msg_size_allowed := newer (cfg_max_msg_size_allowed config) (nc_max_msg_size_allowed net),
       nc_idle_timeout_msec := newer (cfg_idle_timeout_msec config) (nc_idle_timeout_msec net),
       nc_keep_alive_interval_msec := newer (cfg_keep_alive_interval_msec config) (nc_keep_alive_interval_msec net),
       nc_bootstrap_cache_dir := newer (cfg_bootstrap_cache_dir config) (nc_bootstrap_cache_dir net),
       nc_upnp_lease_duration := newer (cfg_upnp_lease_duration config) (nc_upnp_lease_duration net)\<rparr>"

definition merge_config :: "Config \<Rightarrow> Config \<Rightarrow> Config" where
  "merge_config config c =
     c\<lparr>cfg_wallet_id := newer (cfg_wallet_id config) (cfg_wallet_id c),
       cfg_max_capacity := newer (cfg_max_capacity config) (cfg_max_capacity c),
       cfg_root_dir := newer (cfg_root_dir config) (cfg_root_dir c),
       cfg_verbose := (if cfg_verbose config > 0 then cfg_verbose config else cfg_verbose c),
       cfg_completions := newer (cfg_completions config) (cfg_completions c),
       cfg_log_dir := newer (cfg_log_dir config) (cfg_log_dir c),
       cfg_update := cfg_update config \<or> cfg_update c,
       cfg_update_only := cfg_update_only config \<or> cfg_update_only c,
       cfg_clear_data := cfg_clear_data config \<or> cfg_clear_data c,
       cfg_first := newer (cfg_first config) (cfg_first c),
       cfg_local_addr := newer (cfg_local_addr config) (newer (cfg_first config) (cfg_local_addr c)),
       cfg_public_addr := newer (cfg_public_addr config) (cfg_public_addr c),
       cfg_network_config := merge_network config (cfg_network_config c)\<rparr>"

section \<open>Files\<close>

text \<open>
  JSON of settings and of addresses; an array of addresses is read as a set, and a set is written
  as the array of its elements in some order.
\<close>

record json_api =
  js_config :: "Config \<Rightarrow> bytes"
  js_read_config :: "bytes \<Rightarrow> Config option option"
  js_addrs :: "SocketAddr list \<Rightarrow> bytes"
  js_read_addrs :: "bytes \<Rightarrow> SocketAddr set option"
  hash_order :: "SocketAddr set \<Rightarrow> SocketAddr list"

text \<open>How writing a file goes; an error while writing leaves a first part of the content.\<close>

datatype (plugins only: code size) cfg_write_io = CfgWritten | CfgNotCreated | CfgCut nat | CfgNotSynced

definition write_file :: "dir option \<Rightarrow> cfg_write_io \<Rightarrow> string \<Rightarrow> bytes \<Rightarrow> fs \<Rightarrow> unit result \<times> fs" where
  "write_file home io file json d = (case project_dirs home of
     Inl e \<Rightarrow> (Inl e, d)
   | Inr p \<Rightarrow> (case io of
       CfgNotCreated \<Rightarrow> (Inl Io, d)
     | CfgCut n \<Rightarrow> (Inl JsonSerialisation, fs_write (p, file) (take n json) d)
     | CfgNotSynced \<Rightarrow> (Inl Io, fs_write (p, file) json d)
     | CfgWritten \<Rightarrow> (Inr (), fs_write (p, file) json d)))"

text \<open>Opening a file that exists may fail; the flag says whether it works.\<close>

definition read_from_file :: "json_api \<Rightarrow> dir option \<Rightarrow> bool \<Rightarrow> fs \<Rightarrow> Config option result" where
  "read_from_file J home can_open d = and_then (project_dirs home) (\<lambda>p.
     (case fs_read d (p, CONFIG_FILE) of
       None \<Rightarrow> Inr None
     | Some b \<Rightarrow> if \<not> can_open then Inl Io else ok_or JsonSerialisation (js_read_config J b)))"

definition write_to_disk :: "json_api \<Rightarrow> dir option \<Rightarrow> cfg_write_io \<Rightarrow> Config \<Rightarrow> fs \<Rightarrow> unit result \<times> fs" where
  "write_to_disk J home io c d = write_file home io CONFIG_FILE (js_config J c) d"

definition set_connection_info :: "json_api \<Rightarrow> dir option \<Rightarrow> cfg_write_io \<Rightarrow> SocketAddr \<Rightarrow> fs \<Rightarrow> unit result \<times> fs" where
  "set_connection_info J home io contact d = write_file home io CONNECTION_INFO_FILE (js_addrs J [contact]) d"

definition read_conn_info_from_file :: "json_api \<Rightarrow> dir option \<Rightarrow> bool \<Rightarrow> fs \<Rightarrow> SocketAddr set result" where
  "read_conn_info_from_file J home can_open d = and_then (project_dirs home) (\<lambda>p.
     (case fs_read d (p, CONNECTION_INFO_FILE) of
       None \<Rightarrow> Inl Io
     | Some b \<Rightarrow> if \<not> can_open then Inl Io else ok_or JsonSerialisation (js_read_addrs J b)))"

definition add_connection_info :: "json_api \<Rightarrow> dir option \<Rightarrow> bool \<Rightarrow> cfg_write_io \<Rightarrow> SocketAddr \<Rightarrow> fs \<Rightarrow> unit result \<times> fs" where
  "add_connection_info J home can_open io contact d =
     (let hard_coded_contacts = (case read_conn_info_from_file J home can_open d of
          Inr contacts \<Rightarrow> insert contact contacts
        | Inl _ \<Rightarrow> {contact})
      in write_file home io CONNECTION_INFO_FILE (js_addrs J (hash_order J hard_coded_contacts)) d)"

text \<open>Removing a directory with all files below it; it may stop after some of them.\<close>

datatype (plugins only: code size) remove_io = AllRemoved | RemovalStopped "path list"

definition below :: "dir \<Rightarrow> path \<Rightarrow> bool" where
  "below d p \<longleftrightarrow> take (length d) (fst p) = d"

definition remove_dir_all :: "remove_io \<Rightarrow> dir \<Rightarrow> fs \<Rightarrow> unit result \<times> fs" where
  "remove_dir_all io dir d = (case io of
     AllRemoved \<Rightarrow> (Inr (), filter (\<lambda>e. \<not> below dir (fst e)) d)
   | RemovalStopped ps \<Rightarrow> (Inl Io, filter (\<lambda>e. \<not> (below dir (fst e) \<and> fst e \<in> set ps)) d))"

definition clear_data_from_disk :: "dir option \<Rightarrow> remove_io \<Rightarrow> Config \<Rightarrow> fs \<Rightarrow> unit result \<times> fs" where
  "clear_data_from_disk home io c d =
     (if cfg_clear_data c
      then (case and_then (project_dirs home) (\<lambda>p. and_then (config_root_dir home c) (\<lambda>r. Inr (join p r))) of
          Inl e \<Rightarrow> (Inl e, d)
        | Inr path \<Rightarrow> if list_ex (\<lambda>e. below path (fst e)) d then remove_dir_all io path d else (Inr (), d))
      else (Inr (), d))"

section \<open>The settings a node starts with\<close>

definition config_new :: "json_api \<Rightarrow> NetworkConfig \<Rightarrow> dir option \<Rightarrow> bool \<Rightarrow> remove_io \<Rightarrow> Config \<Rightarrow> fs \<Rightarrow> Config result \<times> fs" where
  "config_new J net home can_open io args d =
     (let config = (case read_from_file J home can_open d of Inr (Some c) \<Rightarrow> c | _ \<Rightarrow> config_default net) in
      case validate args of
        (Inl e, _) \<Rightarrow> (Inl e, d)
      | (Inr _, command_line_args) \<Rightarrow>
          let command_line_args = (case cfg_first command_line_args of
                Some socket_addr \<Rightarrow> command_line_args\<lparr>cfg_local_addr := Some socket_addr\<rparr>
              | None \<Rightarrow> command_line_args);
              config = merge_config command_line_args config
          in (Inr config, snd (clear_data_from_disk home io config d)))"

section \<open>Guarantees\<close>

text \<open>The addresses of a node agree with the settings of the transport, and a public address has a local one.\<close>

definition addrs_consistent :: "Config \<Rightarrow> bool" where
  "addrs_consistent c \<longleftrightarrow> (let net = cfg_network_config c in
     (\<forall>a. cfg_local_addr c = Some a \<longrightarrow> nc_local_ip net = Some (ip a) \<and> nc_local_port net = Some (port a)) \<and>
     (\<forall>a. cfg_public_addr c = Some a \<longrightarrow> nc_external_ip net = Some (ip a) \<and> nc_external_port net = Some (port a)) \<and>
     (cfg_public_addr c \<noteq> None \<longrightarrow> cfg_local_addr c \<noteq> None))"

lemma newer_simps [simp]: "newer (Some a) old = Some a" "newer None old = old"
  by (simp_all add: newer_def)

lemma newer_None_iff [simp]: "newer a b = None \<longleftrightarrow> a = None \<and> b = None"
  by (simp add: newer_def split: option.splits)

lemma config_default_consistent: "addrs_consistent (config_default net)"
  by (simp add: addrs_consistent_def config_default_def Let_def)

text \<open>What a validated command line, with the first node's address taken over, is like.\<close>

definition args_ok :: "Config \<Rightarrow> bool" where
  "args_ok args \<longleftrightarrow> (cfg_first args \<noteq> None \<longrightarrow> cfg_local_addr args = cfg_first args) \<and>
     (cfg_public_addr args \<noteq> None \<longrightarrow> cfg_local_addr args \<noteq> None)"

lemma merge_consistent: "args_ok args \<Longrightarrow> addrs_consistent c \<Longrightarrow> addrs_consistent (merge_config args c)"
  by (cases "cfg_local_addr args"; cases "cfg_public_addr args"; cases "cfg_first args")
    (auto simp: addrs_consistent_def args_ok_def merge_config_def merge_network_def Let_def)

lemma config_new_merges:
  assumes "config_new J net home can_open io args d = (Inr c, d')"
  obtains args' config where "c = merge_config args' config" and "args_ok args'" and "cfg_first args' = cfg_first args"
    and "config = (case read_from_file J home can_open d of Inr (Some f) \<Rightarrow> f | _ \<Rightarrow> config_default net)"
    and "d' = snd (clear_data_from_disk home io c d)"
proof -
  obtain v where v: "validate args = (Inr (), v)"
    using assms by (auto simp: config_new_def Let_def split: prod.splits sum.splits)
  define args' where "args' = (case cfg_first v of Some a \<Rightarrow> v\<lparr>cfg_local_addr := Some a\<rparr> | None \<Rightarrow> v)"
  have "args_ok args'" "cfg_first args' = cfg_first args"
    using v by (auto simp: args'_def args_ok_def validate_def split: if_splits option.splits)
  with assms v show ?thesis by (intro that [of args']) (auto simp: config_new_def args'_def Let_def)
qed

text \<open>
  C38. Whatever the command line, a node that starts has consistent addresses: its local and its
  public address are the ones the transport layer is told, a public address comes with a local
  one, and the address of a first node is its local address. Assumed is that the file of settings,
  if there is one, is itself consistent.
\<close>

theorem start_addresses_consistent:
  assumes "config_new J net home can_open io args d = (Inr c, d')"
    and "\<forall>f. read_from_file J home can_open d = Inr (Some f) \<longrightarrow> addrs_consistent f"
  shows "addrs_consistent c \<and> (\<forall>a. cfg_first args = Some a \<longrightarrow> is_first c \<and> cfg_local_addr c = Some a)"
  using assms(1)
proof (rule config_new_merges)
  fix args' config
  assume c: "c = merge_config args' config" "args_ok args'" "cfg_first args' = cfg_first args"
    and f: "config = (case read_from_file J home can_open d of Inr (Some f) \<Rightarrow> f | _ \<Rightarrow> config_default net)"
  have "addrs_consistent config" using assms(2) by (auto simp: f config_default_consistent split: sum.splits option.splits)
  then have "addrs_consistent c" using c by (simp add: merge_consistent)
  moreover have "is_first c \<and> cfg_local_addr c = Some a" if "cfg_first args = Some a" for a
    using c that by (simp add: is_first_def args_ok_def merge_config_def)
  ultimately show ?thesis by blast
qed

text \<open>
  Settings that were saved are read back, but a later start without arguments does not leave them as
  they are: forwarding of ports is switched on, whatever the file says.
\<close>

lemma saved_settings_read_back:
  assumes "write_to_disk J home CfgWritten c d = (Inr (), d')" and "js_read_config J (js_config J c) = Some (Some c)"
  shows "read_from_file J home True d' = Inr (Some c)"
  using assms by (auto simp: write_to_disk_def write_file_def read_from_file_def ok_or_def and_then_Inr_iff split: sum.splits)

lemma start_without_arguments:
  "merge_config (config_default net) c = c\<lparr>cfg_network_config := (cfg_network_config c)\<lparr>nc_forward_port := True\<rparr>\<rparr>"
  by (simp add: merge_config_def merge_network_def config_default_def)

text \<open>Clearing the data removes the files below the root directory, and no others.\<close>

lemma map_of_filter_keys: "map_of (filter (\<lambda>e. Q (fst e)) d) p = (if Q p then map_of d p else None)"
  by (induction d) auto

lemma clear_data_removes:
  assumes "clear_data_from_disk home AllRemoved c d = (Inr (), d')" and "cfg_clear_data c"
    and "config_root_dir home c = Inr root" and "project_dirs home = Inr p"
  shows "fs_read d' q = (if below (join p root) q then None else fs_read d q)"
proof -
  have "map_of d q = None" if "\<not> list_ex (\<lambda>e. below (join p root) (fst e)) d" "below (join p root) q"
    using that by (auto simp: list_ex_iff map_of_eq_None_iff)
  with assms show ?thesis
    by (auto simp: clear_data_from_disk_def remove_dir_all_def map_of_filter_keys [where Q = "\<lambda>p'. \<not> below (join p root) p'"]
        split: if_splits)
qed

text \<open>
  With a relative root directory, that is not where the node keeps its data: its files stay, unless
  it runs in the directory of the project.
\<close>

lemma relative_root_not_cleared:
  assumes "clear_data_from_disk home AllRemoved c d = (Inr (), d')" and "cfg_clear_data c"
    and "cfg_root_dir c = Some (RelPath r)" and "project_dirs home = Inr p"
    and "length cwd = length p" and "cwd \<noteq> p"
  shows "fs_read d' (node_root cwd (RelPath r) @ sub, name) = fs_read d (node_root cwd (RelPath r) @ sub, name)"
  using clear_data_removes [OF assms(1,2) _ assms(4), of "RelPath r"] assms(3,5,6)
  by (simp add: config_root_dir_def below_def node_root_def)

text \<open>
  Addresses of nodes accumulate in the file: after any number of nodes were added, it has exactly their
  addresses and what it had before.
\<close>

definition json_ok :: "json_api \<Rightarrow> bool" where
  "json_ok J \<longleftrightarrow> (\<forall>xs. js_read_addrs J (js_addrs J xs) = Some (set xs)) \<and> (\<forall>S. finite S \<longrightarrow> set (hash_order J S) = S)"

lemma write_file_read:
  "write_file home CfgWritten file json d = (Inr (), d') \<Longrightarrow> project_dirs home = Inr p \<Longrightarrow> fs_read d' (p, file) = Some json"
  by (auto simp: write_file_def split: sum.splits)

lemma added_contact_read_back:
  assumes "json_ok J" and "project_dirs home = Inr p" and "read_conn_info_from_file J home True d = Inr S" and "finite S"
    and "add_connection_info J home True CfgWritten contact d = (Inr (), d')"
  shows "read_conn_info_from_file J home True d' = Inr (insert contact S)"
  using write_file_read [OF _ assms(2)] assms
  by (fastforce simp: add_connection_info_def read_conn_info_from_file_def json_ok_def ok_or_def)

text \<open>A first node on port 12000.\<close>

definition home_addr :: SocketAddr where
  "home_addr = \<lparr>ip = V4 2130706433, port = 12000\<rparr>"

definition empty_net :: NetworkConfig where
  "empty_net = \<lparr>nc_local_port = None, nc_local_ip = None, nc_external_port = None, nc_external_ip = None, nc_forward_port = True,
     nc_hard_coded_contacts = {}, nc_max_msg_size_allowed = None, nc_idle_timeout_msec = None, nc_keep_alive_interval_msec = None,
     nc_bootstrap_cache_dir = None, nc_upnp_lease_duration = None\<rparr>"

definition mute_json :: json_api where
  "mute_json = \<lparr>js_config = (\<lambda>c. []), js_read_config = (\<lambda>b. None), js_addrs = (\<lambda>xs. []), js_read_addrs = (\<lambda>b. None),
     hash_order = (\<lambda>S. [])\<rparr>"

theorem start_addresses_consistent_witness:
  "\<exists>c d'. config_new mute_json empty_net (Some [''home'']) True AllRemoved
       ((config_default empty_net)\<lparr>cfg_first := Some home_addr\<rparr>) [] = (Inr c, d') \<and>
     addrs_consistent c \<and> cfg_local_addr c = Some home_addr"
proof -
  let ?args = "(config_default empty_net)\<lparr>cfg_first := Some home_addr\<rparr>"
  obtain c d' where new: "config_new mute_json empty_net (Some [''home'']) True AllRemoved ?args [] = (Inr c, d')"
    by (simp add: config_new_def validate_def config_default_def Let_def)
  have "\<forall>f. read_from_file mute_json (Some [''home'']) True [] = Inr (Some f) \<longrightarrow> addrs_consistent f"
    by (simp add: read_from_file_def project_dirs_def ok_or_def)
  from start_addresses_consistent [OF new this] new show ?thesis by simp
qed

end
