(* ===== verification/Node.thy ===== *)
theory Node
  imports Section_Funds Metadata Transfers Event_Mapping Config
begin

text \<open>
  The node (\<^verbatim>\<open>src/src/node/\<close>): the modules it has in its current role, the dispatch of every duty to
  its module (\<^verbatim>\<open>handle.rs\<close>), promotion, demotion, churn and splits (\<^verbatim>\<open>member_churn.rs\<close>,
  \<^verbatim>\<open>split.rs\<close>), the messages about them (\<^verbatim>\<open>interaction.rs\<close>), sending (\<^verbatim>\<open>messaging.rs\<close>), and the loop
  that works through the duties an event leads to (\<^verbatim>\<open>mod.rs\<close>).
\<close>

section \<open>State and parameters\<close>

text \<open>
  \<open>nd_world\<close> is the disk with the record of used space, \<open>nd_db_disk\<close> the disk of the wallets while
  there is no transfers module (which has it otherwise). Messages that were sent and the flag
  for joining nodes are what the network can observe.
\<close>

record ('db, 'd, 'a, 'm, 'h) Node =
  nd_genesis :: bool
  nd_root_dir :: dir
  nd_name :: XorName
  nd_node_id :: PublicKey
  nd_reward_key :: PublicKey
  nd_prefix :: Prefix
  nd_world :: world
  nd_db_disk :: 'd
  nd_chunks :: "ChunkStorage option"
  nd_meta_data :: "('m, 'h) ElderStores option"
  nd_transfers :: "('db, 'd, 'a) Transfers option"
  nd_section_funds :: "SectionFunds option"
  nd_sent :: "(SrcLocation \<times> DstLocation \<times> Aggregation \<times> Message) list"
  nd_joins_allowed :: bool

record ('db, 'd, 'w, 'a, 'f, 'm, 'h) node_api =
  na_ext :: externals
  na_transfers :: "('db, 'd, 'w, 'a, 'f) transfers_api"
  na_metadata :: "('m, 'h) metadata_api"
  na_blobs :: blob_api
  na_ser_credit :: "Credit \<Rightarrow> bytes option"
  na_key_text :: "PublicKey \<Rightarrow> string"
  na_id_text :: "MessageId \<Rightarrow> string"

text \<open>
  What the handling of one duty meets: the network at that moment, how its file accesses go, what
  the database files hold that it opens, fresh ids and keys, which destinations can be reached.
\<close>

record ('a, 'm, 'h) step_env =
  se_network :: Routing
  se_node_key :: PublicKey
  se_io :: chunk_io
  se_reset_io :: "StoreId \<Rightarrow> write_io"
  se_maps_io :: "root_io \<times> add_io"
  se_seqs_io :: "root_io \<times> add_io"
  se_chunks_io :: "root_io \<times> add_io"
  se_dbs_metadata :: "'m result \<times> 'h result \<times> 'a result"
  se_dbs_capacity :: "'m result \<times> 'h result \<times> 'a result"
  se_new_id :: MessageId
  se_random_sig :: Signature
  se_random_keys :: PublicKeySet
  se_serialize_ok :: bool
  se_reached :: "DstLocation \<Rightarrow> bool"
  se_joins_result :: "bool \<Rightarrow> nat + unit"

text \<open>\<^verbatim>\<open>ChunkHolderDbs::new\<close>, on what the three files hold.\<close>

definition chunk_holder_dbs_new :: "'m result \<times> 'h result \<times> 'a result \<Rightarrow> (('m, 'h) holder_dbs \<times> 'a) result" where
  "chunk_holder_dbs_new files = (case files of (metadata, holders, full_adults) \<Rightarrow>
     and_then metadata (\<lambda>m. and_then holders (\<lambda>h. and_then full_adults (\<lambda>a.
       Inr (\<lparr>metadata_db = m, holders_db = h\<rparr>, a)))))"

text \<open>The modules hold handles of the network, which show it as it is now.\<close>

definition live_transfers :: "Routing \<Rightarrow> ('db, 'd, 'a) Transfers \<Rightarrow> ('db, 'd, 'a) Transfers" where
  "live_transfers N t = t\<lparr>tr_rate_limit := (tr_rate_limit t)\<lparr>rl_network := N\<rparr>,
     tr_replicas := (tr_replicas t)\<lparr>rp_info := (rp_info (tr_replicas t))\<lparr>ri_signing := N\<rparr>\<rparr>\<rparr>"

definition live_metadata :: "Routing \<Rightarrow> ('m, 'h) metadata_api \<Rightarrow> ('m, 'h) metadata_api" where
  "live_metadata N P = P\<lparr>md_register := (md_register P)\<lparr>reader := \<lparr>ar_network = N\<rparr>\<rparr>\<rparr>"

definition elder_net :: "('db, 'd, 'w, 'a, 'f, 'm, 'h) node_api \<Rightarrow> ('a, 'm, 'h) step_env \<Rightarrow> elder_network" where
  "elder_net A S = (let N = se_network S in
     \<lparr>net_our_index = our_index N, net_public_key_set = our_public_key_set N,
      net_sign_credit = sign_as_elder N (na_ser_credit A),
      net_sign_signed_credit = sign_as_elder N (ser_signed_credit (tp_replica (na_transfers A))),
      pk_to_string = na_key_text A, fresh_id = se_new_id S\<rparr>)"

section \<open>The modules\<close>

definition get_chunks :: "('db, 'd, 'a, 'm, 'h) Node \<Rightarrow> ChunkStorage result" where
  "get_chunks nd = ok_or NoChunks (nd_chunks nd)"

definition get_metadata :: "('db, 'd, 'a, 'm, 'h) Node \<Rightarrow> ('m, 'h) ElderStores result" where
  "get_metadata nd = ok_or NoMetadata (nd_meta_data nd)"

definition get_transfers :: "('db, 'd, 'a, 'm, 'h) Node \<Rightarrow> ('db, 'd, 'a) Transfers result" where
  "get_transfers nd = ok_or NoTransfers (nd_transfers nd)"

definition get_section_funds :: "('db, 'd, 'a, 'm, 'h) Node \<Rightarrow> SectionFunds result" where
  "get_section_funds nd = ok_or NoSectionFunds (nd_section_funds nd)"

definition get_churning_funds :: "('db, 'd, 'a, 'm, 'h) Node \<Rightarrow> (RewardProcess \<times> RewardWallets \<times> Payments) result" where
  "get_churning_funds nd = (case nd_section_funds nd of
     Some (Churning process wallets payments) \<Rightarrow> Inr (process, wallets, payments)
   | _ \<Rightarrow> Inl NotChurningFunds)"

text \<open>A handler of the transfers module, with the duties made of its answer.\<close>

definition with_transfers :: "('a, 'm, 'h) step_env \<Rightarrow> (('db, 'd, 'a) Transfers \<Rightarrow> NodeDuties result \<times> ('db, 'd, 'a) Transfers) \<Rightarrow>
    ('db, 'd, 'a, 'm, 'h) Node \<Rightarrow> NodeDuties result \<times> ('db, 'd, 'a, 'm, 'h) Node" where
  "with_transfers S f nd = (case get_transfers nd of
     Inl e \<Rightarrow> (Inl e, nd)
   | Inr t \<Rightarrow> let res = f (live_transfers (se_network S) t) in (fst res, nd\<lparr>nd_transfers := Some (snd res)\<rparr>))"

definition one_duty :: "NodeDuty result \<times> 's \<Rightarrow> NodeDuties result \<times> 's" where
  "one_duty res = (map_sum id (\<lambda>d. [d]) (fst res), snd res)"

section \<open>Sending\<close>

text \<open>\<^verbatim>\<open>Network::send_message\<close>: whether the message could be sent.\<close>

definition send_message :: "('a, 'm, 'h) step_env \<Rightarrow> SrcLocation \<Rightarrow> DstLocation \<Rightarrow> Aggregation \<Rightarrow> Message \<Rightarrow>
    ('db, 'd, 'a, 'm, 'h) Node \<Rightarrow> bool \<times> ('db, 'd, 'a, 'm, 'h) Node" where
  "send_message S src d ag m nd =
     (if se_reached S d then (True, nd\<lparr>nd_sent := nd_sent nd @ [(src, d, ag, m)]\<rparr>) else (False, nd))"

definition node_send :: "('db, 'd, 'w, 'a, 'f, 'm, 'h) node_api \<Rightarrow> ('a, 'm, 'h) step_env \<Rightarrow> OutgoingMsg \<Rightarrow>
    ('db, 'd, 'a, 'm, 'h) Node \<Rightarrow> unit result \<times> ('db, 'd, 'a, 'm, 'h) Node" where
  "node_send A S m nd =
     (let N = se_network S;
          src = (if section_source m then SrcSection (prefix_name (Network.our_prefix N)) else SrcNode (rt_name N))
      in if \<not> se_serialize_ok S then (Inl MessageError, nd)
         else (case send_message S src (dst m) (aggregation m) (msg m) nd of
             (True, nd1) \<Rightarrow> (Inr (), nd1)
           | (False, nd1) \<Rightarrow> (Inl (Logic (''Unable to send msg: '' @ na_id_text A (outgoing_msg_id m))), nd1)))"

definition send_to_nodes :: "('a, 'm, 'h) step_env \<Rightarrow> XorName btree_set \<Rightarrow> Message \<Rightarrow>
    ('db, 'd, 'a, 'm, 'h) Node \<Rightarrow> unit result \<times> ('db, 'd, 'a, 'm, 'h) Node" where
  "send_to_nodes S targets m nd =
     (if \<not> se_serialize_ok S then (Inl MessageError, nd)
      else (Inr (), fold (\<lambda>target nd. snd (send_message S (SrcNode (rt_name (se_network S))) (DstNode target) AtDestination m nd))
          targets nd))"

section \<open>Messages about the section\<close>

fun propagate_credits :: "externals \<Rightarrow> (CreditId, CreditAgreementProof) btree_map \<Rightarrow> NodeDuties result" where
  "propagate_credits E [] = Inr []"
| "propagate_credits E ((_, cp) # credit_proofs) =
     and_then (from_content E (cap_debiting_replicas_sig cp)) (\<lambda>msg_id.
     and_then (propagate_credits E credit_proofs) (\<lambda>ops.
       Inr (Send \<lparr>msg = NodeCmdM (NodePropagateTransfer cp) msg_id None, dst = DstSection (xor_name_of_key E (cap_recipient cp)),
         section_source = True, aggregation = AtDestination\<rparr> # ops)))"

definition get_section_elders :: "externals \<Rightarrow> Routing \<Rightarrow> MessageId \<Rightarrow> SrcLocation \<Rightarrow> NodeDuty result" where
  "get_section_elders E N msg_id origin = and_then (our_public_key_set N) (\<lambda>ks.
     Inr (Send \<lparr>msg = NodeQueryResponseM (GetSectionEldersResponse
         \<lparr>elders_prefix = Network.our_prefix N, elders_names = our_elder_names N, elders_key_set = ks\<rparr>)
         (in_response_to E msg_id) msg_id None,
       dst = src_to_dst E origin, section_source = False, aggregation = AtDestination\<rparr>))"

definition notify_section_of_our_storage :: "externals \<Rightarrow> ('a, 'm, 'h) step_env \<Rightarrow> NodeDuty" where
  "notify_section_of_our_storage E S = (let node_id = se_node_key S in
     Send \<lparr>msg = NodeCmdM (NodeSystem (StorageFull (xor_name_of_key E node_id) node_id)) (se_new_id S) None,
       dst = DstSection (xor_name_of_key E node_id), section_source = False, aggregation = AggregationNone\<rparr>)"

definition register_wallet :: "('a, 'm, 'h) step_env \<Rightarrow> ('db, 'd, 'a, 'm, 'h) Node \<Rightarrow> OutgoingMsg" where
  "register_wallet S nd =
     \<lparr>msg = NodeCmdM (NodeSystem (RegisterWallet (nd_reward_key nd))) (se_new_id S) None,
      dst = DstSection (prefix_name (Network.our_prefix (se_network S))), section_source = False, aggregation = AggregationNone\<rparr>"

definition push_state :: "('db, 'd, 'w, 'a, 'f, 'm, 'h) node_api \<Rightarrow> Prefix \<Rightarrow> MessageId \<Rightarrow>
    ('db, 'd, 'a, 'm, 'h) Node \<Rightarrow> NodeDuty \<times> ('db, 'd, 'a, 'm, 'h) Node" where
  "push_state A pre msg_id nd =
     (let E = na_ext A; d = DstSection (prefix_name pre);
          user = (case nd_transfers nd of
              Some t \<Rightarrow> (case transfers_user_wallets E (na_transfers A) t of (ws, t1) \<Rightarrow> (ws, nd\<lparr>nd_transfers := Some t1\<rparr>))
            | None \<Rightarrow> ([], nd));
          node_rewards = (case nd_section_funds nd of
              Some funds \<Rightarrow> wallets_node_wallets (funds_wallets funds)
            | None \<Rightarrow> [])
      in (Send \<lparr>msg = NodeCmdM (NodeSystem (ReceiveExistingData
              (filter (\<lambda>e. dst_contains E d (fst e) pre) node_rewards)
              (filter (\<lambda>e. dst_contains E d (xor_name_of_key E (fst e)) pre) (fst user)))) msg_id None,
            dst = d, section_source = False, aggregation = AggregationNone\<rparr>, snd user))"

section \<open>A new node\<close>

text \<open>
  What the start of a node meets: whether the root directory can be created, a fresh pair of keys
  and how storing it goes, whether the network can be joined, and the directory it runs in.
\<close>

record RoutingConfig =
  rc_first :: bool
  rc_transport_config :: NetworkConfig

record start_env =
  st_home :: "dir option"
  st_cwd :: dir
  st_dir_ok :: bool
  st_secret :: nat
  st_public :: nat
  st_key_io :: "whole_file_io \<times> whole_file_io"
  st_joined :: "RoutingConfig \<Rightarrow> nat + unit"

text \<open>\<^verbatim>\<open>Network::new\<close>: the routing layer is started with the settings of the transport.\<close>

definition network_new :: "start_env \<Rightarrow> Config \<Rightarrow> unit result" where
  "network_new I config =
     map_err Routing (st_joined I \<lparr>rc_first = is_first config, rc_transport_config = cfg_network_config config\<rparr>)"

definition start_reward_key :: "key_codec \<Rightarrow> start_env \<Rightarrow> Config \<Rightarrow> dir \<Rightarrow> fs \<Rightarrow> (PublicKey result \<times> fs) outcome" where
  "start_reward_key C I config node_dir d = (case cfg_wallet_id config of
     Some hex \<Rightarrow> (case pk_from_hex C hex of
         Returns r \<Rightarrow> Returns (and_then r (\<lambda>pk. Inr (Bls pk)), d)
       | Panics \<Rightarrow> Panics
       | Runs_forever \<Rightarrow> Runs_forever)
   | None \<Rightarrow> (case store_new_reward_keypair C (st_key_io I) node_dir (st_secret I) (st_public I) d of
         Returns (r, d1) \<Rightarrow> Returns (and_then r (\<lambda>_. Inr (Bls (st_public I))), d1)
       | Panics \<Rightarrow> Panics
       | Runs_forever \<Rightarrow> Runs_forever))"

text \<open>A node that starts is an adult; it tells the section about its wallet, whether or not this can be sent.\<close>

definition start_node :: "('db, 'd, 'w, 'a, 'f, 'm, 'h) node_api \<Rightarrow> ('a, 'm, 'h) step_env \<Rightarrow> Config \<Rightarrow> dir \<Rightarrow> PublicKey \<Rightarrow> 'd \<Rightarrow> fs \<Rightarrow>
    ('db, 'd, 'a, 'm, 'h) Node result \<times> fs" where
  "start_node A S config node_dir reward_key db_disk d =
     (let N = se_network S; name = rt_name N in
      case chunk_storage_new (na_blobs A) (fst (se_chunks_io S)) (snd (se_chunks_io S)) name node_dir
          \<lparr>disk = d, space = used_space_new (config_max_capacity config)\<rparr> of
        (Inl e, w) \<Rightarrow> (Inl e, disk w)
      | (Inr storage, w) \<Rightarrow>
          let nd = \<lparr>nd_genesis = is_first config, nd_root_dir = node_dir, nd_name = name, nd_node_id = se_node_key S,
                nd_reward_key = reward_key, nd_prefix = Network.our_prefix N, nd_world = w, nd_db_disk = db_disk,
                nd_chunks = Some storage, nd_meta_data = None, nd_transfers = None, nd_section_funds = None,
                nd_sent = [], nd_joins_allowed = False\<rparr>
          in (Inr (snd (node_send A S (register_wallet S nd) nd)), disk w))"

definition node_new :: "('db, 'd, 'w, 'a, 'f, 'm, 'h) node_api \<Rightarrow> key_codec \<Rightarrow> start_env \<Rightarrow> ('a, 'm, 'h) step_env \<Rightarrow> Config \<Rightarrow> 'd \<Rightarrow> fs \<Rightarrow>
    (('db, 'd, 'a, 'm, 'h) Node result \<times> fs) outcome" where
  "node_new A C I S config db_disk d = (case config_root_dir (st_home I) config of
     Inl e \<Rightarrow> Returns (Inl e, d)
   | Inr root_dir \<Rightarrow>
       let node_dir = node_root (st_cwd I) root_dir in
       if \<not> st_dir_ok I then Returns (Inl Io, d)
       else (case start_reward_key C I config node_dir d of
           Panics \<Rightarrow> Panics
         | Runs_forever \<Rightarrow> Runs_forever
         | Returns (Inl e, d1) \<Rightarrow> Returns (Inl e, d1)
         | Returns (Inr reward_key, d1) \<Rightarrow> (case network_new I config of
             Inl e \<Rightarrow> Returns (Inl e, d1)
           | Inr _ \<Rightarrow> Returns (start_node A S config node_dir reward_key db_disk d1))))"

section \<open>Churn\<close>

definition update_replicas :: "('a, 'm, 'h) step_env \<Rightarrow> ('db, 'd, 'a, 'm, 'h) Node \<Rightarrow> unit result \<times> ('db, 'd, 'a, 'm, 'h) Node" where
  "update_replicas S nd = (case nd_transfers nd of
     None \<Rightarrow> (Inr (), nd)
   | Some t \<Rightarrow> (case replica_info (se_network S) of
       Inl e \<Rightarrow> (Inl e, nd)
     | Inr info \<Rightarrow> (Inr (), nd\<lparr>nd_transfers := Some (transfers_update_replica_info info t)\<rparr>)))"

definition current_disk :: "('db, 'd, 'a, 'm, 'h) Node \<Rightarrow> 'd" where
  "current_disk nd = (case nd_transfers nd of Some t \<Rightarrow> rp_disk (tr_replicas t) | None \<Rightarrow> nd_db_disk nd)"

definition level_up :: "('db, 'd, 'w, 'a, 'f, 'm, 'h) node_api \<Rightarrow> ('a, 'm, 'h) step_env \<Rightarrow>
    ('db, 'd, 'a, 'm, 'h) Node \<Rightarrow> unit result \<times> ('db, 'd, 'a, 'm, 'h) Node" where
  "level_up A S nd0 =
     (let N = se_network S;
          nd = nd0\<lparr>nd_chunks := None, nd_world := reset (u64_code (na_blobs A)) (se_reset_io S) (nd_world nd0)\<rparr>
      in case chunk_holder_dbs_new (se_dbs_metadata S) of
        Inl e \<Rightarrow> (Inl e, nd)
      | Inr (dbs, _) \<Rightarrow> (case metadata_new (na_metadata A) (se_maps_io S) (se_seqs_io S) (nd_root_dir nd) dbs (nd_world nd) of
          (Inl e, w) \<Rightarrow> (Inl e, nd\<lparr>nd_world := w\<rparr>)
        | (Inr stores, w) \<Rightarrow>
            let nd1 = nd\<lparr>nd_world := w, nd_meta_data := Some stores\<rparr> in
            (case chunk_holder_dbs_new (se_dbs_capacity S) of
              Inl e \<Rightarrow> (Inl e, nd1)
            | Inr (_, full_adults) \<Rightarrow>
                (case transfer_replicas (na_ext A) (tp_replica (na_transfers A)) (nd_root_dir nd1) N [] (current_disk nd1) of
                  (Inl e, d) \<Rightarrow> (Inl e, nd1\<lparr>nd_db_disk := d\<rparr>)
                | (Inr replicas, d) \<Rightarrow> (Inr (), nd1\<lparr>nd_db_disk := d,
                    nd_transfers := Some (transfers_new replicas \<lparr>rl_full_adults = full_adults, rl_network = N\<rparr>),
                    nd_section_funds := Some (KeepingNodeWallets (reward_wallets_new []) [])\<rparr>)))))"

definition level_down :: "('db, 'd, 'w, 'a, 'f, 'm, 'h) node_api \<Rightarrow> ('a, 'm, 'h) step_env \<Rightarrow>
    ('db, 'd, 'a, 'm, 'h) Node \<Rightarrow> unit result \<times> ('db, 'd, 'a, 'm, 'h) Node" where
  "level_down A S nd0 =
     (let nd = nd0\<lparr>nd_db_disk := current_disk nd0, nd_meta_data := None, nd_transfers := None, nd_section_funds := None\<rparr>
      in case chunk_storage_new (na_blobs A) (fst (se_chunks_io S)) (snd (se_chunks_io S)) (nd_name nd) (nd_root_dir nd) (nd_world nd) of
        (Inl e, w) \<Rightarrow> (Inl e, nd\<lparr>nd_world := w\<rparr>)
      | (Inr storage, w) \<Rightarrow> (Inr (), nd\<lparr>nd_world := w, nd_chunks := Some storage\<rparr>))"

definition merge_node_wallets :: "nodes \<Rightarrow> SectionFunds \<Rightarrow> SectionFunds" where
  "merge_node_wallets wallets funds = fold (\<lambda>(key, age, wallet). set_node_wallet key wallet age) wallets funds"

definition synch_state :: "('a, 'm, 'h) step_env \<Rightarrow> nodes \<Rightarrow> (PublicKey, ActorHistory) btree_map \<Rightarrow>
    ('db, 'd, 'a, 'm, 'h) Node \<Rightarrow> NodeDuty result \<times> ('db, 'd, 'a, 'm, 'h) Node" where
  "synch_state S rewards wallets nd0 =
     (let nd = nd0\<lparr>nd_transfers := map_option (transfers_merge wallets) (nd_transfers nd0)\<rparr>
      in case nd_section_funds nd of
        None \<Rightarrow> (Inl (InvalidOperation ''Invalid section funds stage''), nd)
      | Some funds \<Rightarrow>
          let nd1 = nd\<lparr>nd_section_funds := Some (merge_node_wallets rewards funds)\<rparr> in
          if btm_get rewards (rt_name (se_network S)) = None
          then (Inr (Send (register_wallet S nd1)), nd1)
          else (Inr NoOp, nd1))"

section \<open>Splits\<close>

definition begin_split_as_newbie :: "('db, 'd, 'w, 'a, 'f, 'm, 'h) node_api \<Rightarrow> ('a, 'm, 'h) step_env \<Rightarrow> PublicKey \<Rightarrow> Prefix \<Rightarrow>
    ('db, 'd, 'a, 'm, 'h) Node \<Rightarrow> unit result \<times> ('db, 'd, 'a, 'm, 'h) Node" where
  "begin_split_as_newbie A S key pre nd = (case section_public_key (se_network S) of
     Inl e \<Rightarrow> (Inl e, nd)
   | Inr section_key \<Rightarrow>
       if key \<noteq> section_key
       then (Inl (Logic (''Some failure.. our_key: '' @ na_key_text A key @ '', section_key: '' @ na_key_text A section_key)), nd)
       else (case level_up A S nd of
         (Inl e, nd1) \<Rightarrow> (Inl e, nd1)
       | (Inr _, nd1) \<Rightarrow> (case our_public_key_set (se_network S) of
           Inl e \<Rightarrow> (Inl e, nd1)
         | Inr _ \<Rightarrow> (Inr (), nd1\<lparr>nd_section_funds :=
               Some (Churning (reward_process_new (OurSection.make pre key)) (reward_wallets_new []) [])\<rparr>))))"

text \<open>The payout at a split: \<^const>\<open>None\<close> if the distribution does not return.\<close>

definition split_payout :: "('db, 'd, 'w, 'a, 'f, 'm, 'h) node_api \<Rightarrow> ('a, 'm, 'h) step_env \<Rightarrow> Prefix \<Rightarrow> PublicKey \<Rightarrow> RewardWallets \<Rightarrow>
    Token \<Rightarrow> ('db, 'd, 'a) Transfers \<Rightarrow> ('db, 'd, 'a, 'm, 'h) Node \<Rightarrow> (NodeDuty result \<times> ('db, 'd, 'a, 'm, 'h) Node) option" where
  "split_payout A S pre key wallets payments t nd =
     (case transfers_managed_amount (na_ext A) (na_transfers A) t of
       (Inl e, t1) \<Rightarrow> Some (Inl e, nd\<lparr>nd_transfers := Some t1\<rparr>)
     | (Inr section_managed, t1) \<Rightarrow>
         let nd1 = nd\<lparr>nd_transfers := Some t1\<rparr> in
         (case our_public_key_set (se_network S) of
           Inl e \<Rightarrow> Some (Inl e, nd1)
         | Inr _ \<Rightarrow> (case reward_and_mint (na_ext A) (tp_bls (na_transfers A)) (elder_net A S) payments section_managed
               (wallets_node_wallets wallets) (reward_process_new (OurSection.make pre key)) of
             None \<Rightarrow> None
           | Some (Inl e, _) \<Rightarrow> Some (Inl e, nd1)
           | Some (Inr duty, process) \<Rightarrow> Some (Inr duty, nd1\<lparr>nd_section_funds := Some (Churning process wallets [])\<rparr>))))"

definition push_both_states :: "('db, 'd, 'w, 'a, 'f, 'm, 'h) node_api \<Rightarrow> Prefix \<Rightarrow> PublicKey \<Rightarrow> PublicKey \<Rightarrow>
    ('db, 'd, 'a, 'm, 'h) Node \<Rightarrow> NodeDuties \<times> ('db, 'd, 'a, 'm, 'h) Node" where
  "push_both_states A pre key sibling_key nd =
     (let E = na_ext A; sibling = prefix_sibling E pre;
          own = push_state A pre (combine E [prefix_name pre, xor_name_of_key E key]) nd;
          other = push_state A sibling (combine E [prefix_name sibling, xor_name_of_key E sibling_key]) (snd own)
      in ([fst own, fst other], snd other))"

definition begin_split_as_oldie :: "('db, 'd, 'w, 'a, 'f, 'm, 'h) node_api \<Rightarrow> ('a, 'm, 'h) step_env \<Rightarrow> Prefix \<Rightarrow> PublicKey \<Rightarrow> PublicKey \<Rightarrow>
    ('db, 'd, 'a, 'm, 'h) Node \<Rightarrow> (NodeDuties result \<times> ('db, 'd, 'a, 'm, 'h) Node) option" where
  "begin_split_as_oldie A S pre key sibling_key nd = (case nd_transfers nd of
     None \<Rightarrow> Some (Inl (Logic ''No transfers on this node''), nd)
   | Some t0 \<Rightarrow> (case replica_info (se_network S) of
       Inl e \<Rightarrow> Some (Inl e, nd)
     | Inr info \<Rightarrow>
         let t = snd (transfers_user_wallets (na_ext A) (na_transfers A) (transfers_update_replica_info info t0));
             nd1 = nd\<lparr>nd_transfers := Some t\<rparr>
         in (case nd_section_funds nd1 of
           None \<Rightarrow> Some (Inl NoSectionFunds, nd1)
         | Some funds \<Rightarrow>
             let payments = credits_sum (funds_payments funds) in
             if payments > 0
             then (case split_payout A S pre key (funds_wallets funds) payments t nd1 of
                 None \<Rightarrow> None
               | Some (Inl e, nd2) \<Rightarrow> Some (Inl e, nd2)
               | Some (Inr duty, nd2) \<Rightarrow>
                   let res = push_both_states A pre key sibling_key nd2 in Some (Inr (duty # fst res), snd res))
             else let res = push_both_states A pre key sibling_key nd1 in Some (Inr (fst res), snd res))))"

section \<open>Handling a duty\<close>

definition MAX_STORAGE_USAGE_RATIO :: "'f f64_ops \<Rightarrow> 'f" where
  "MAX_STORAGE_USAGE_RATIO F = f_lit F 8 10"

definition used_space_ratio :: "'f f64_ops \<Rightarrow> world \<Rightarrow> 'f" where
  "used_space_ratio F w = f_div F (f_of F (unat (total w))) (f_of F (unat (max_capacity (space w))))"

definition check_storage :: "'f f64_ops \<Rightarrow> world \<Rightarrow> NodeDuties" where
  "check_storage F w = (if f_gt F (used_space_ratio F w) (MAX_STORAGE_USAGE_RATIO F)
     then node_duties_from ReachingMaxCapacity else [])"

definition handle_accumulation :: "('db, 'd, 'w, 'a, 'f, 'm, 'h) node_api \<Rightarrow> ('a, 'm, 'h) step_env \<Rightarrow> RewardAccumulation \<Rightarrow>
    ('db, 'd, 'a, 'm, 'h) Node \<Rightarrow> NodeDuties result \<times> ('db, 'd, 'a, 'm, 'h) Node" where
  "handle_accumulation A S accumulation nd = (case get_churning_funds nd of
     Inl _ \<Rightarrow> (Inr [], nd)
   | Inr (process, wallets, payments) \<Rightarrow>
       let res = receive_wallet_accumulation (tp_bls (na_transfers A)) (elder_net A S) accumulation process;
           nd1 = nd\<lparr>nd_section_funds := Some (Churning (snd res) wallets payments)\<rparr>
       in case fst res of
         Inl e \<Rightarrow> (Inl e, nd1)
       | Inr duty \<Rightarrow> (case stage (snd res) of
           Completed credit_proofs \<Rightarrow> (case propagate_credits (na_ext A) credit_proofs of
               Inl e \<Rightarrow> (Inl e, nd1)
             | Inr ops \<Rightarrow>
                 let nd2 = nd1\<lparr>nd_section_funds := Some (KeepingNodeWallets wallets payments)\<rparr>
                 in (and_then (section_public_key (se_network S)) (\<lambda>_. Inr (duty # ops)), nd2))
         | _ \<Rightarrow> (Inr [duty], nd1)))"

definition handle_read_chunk :: "('db, 'd, 'w, 'a, 'f, 'm, 'h) node_api \<Rightarrow> ('a, 'm, 'h) step_env \<Rightarrow> BlobRead \<Rightarrow> MessageId \<Rightarrow> EndUser \<Rightarrow>
    ('db, 'd, 'a, 'm, 'h) Node \<Rightarrow> NodeDuties result" where
  "handle_read_chunk A S rd msg_id origin nd =
     (let E = na_ext A; data_section_addr = blob_read_dst_address E rd in
      if prefix_matches E (Network.our_prefix (se_network S)) data_section_addr
      then and_then (get_chunks nd) (\<lambda>st.
        and_then (chunks_read E (na_blobs A) (se_io S) st rd msg_id origin (nd_world nd)) (\<lambda>duty.
          Inr (duty # check_storage (tp_float (na_transfers A)) (nd_world nd))))
      else Inr [Send \<lparr>msg = NodeQueryM (NodeChunksQuery rd origin) msg_id None, dst = DstSection data_section_addr,
        section_source = False, aggregation = AggregationNone\<rparr>])"

definition handle_process_read :: "('db, 'd, 'w, 'a, 'f, 'm, 'h) node_api \<Rightarrow> ('a, 'm, 'h) step_env \<Rightarrow> DataQuery \<Rightarrow> MessageId \<Rightarrow> EndUser \<Rightarrow>
    ('db, 'd, 'a, 'm, 'h) Node \<Rightarrow> NodeDuties result" where
  "handle_process_read A S query msg_id origin nd =
     (let E = na_ext A; data_section_addr = data_query_dst_address E query in
      if prefix_matches E (Network.our_prefix (se_network S)) data_section_addr
      then and_then (get_metadata nd) (\<lambda>stores.
        and_then (metadata_read E (live_metadata (se_network S) (na_metadata A)) (se_io S) query msg_id origin stores (nd_world nd))
          (\<lambda>duty. Inr [duty]))
      else Inr [Send \<lparr>msg = NodeQueryM (NodeMetadataQuery query origin) msg_id None, dst = DstSection data_section_addr,
        section_source = False, aggregation = AggregationNone\<rparr>])"

text \<open>A handler of the chunks of an adult, or one that changes them.\<close>

definition with_chunks :: "(ChunkStorage \<Rightarrow> world \<Rightarrow> NodeDuty result \<times> world) \<Rightarrow>
    ('db, 'd, 'a, 'm, 'h) Node \<Rightarrow> NodeDuties result \<times> ('db, 'd, 'a, 'm, 'h) Node" where
  "with_chunks f nd = (case get_chunks nd of
     Inl e \<Rightarrow> (Inl e, nd)
   | Inr st \<Rightarrow> let res = f st (nd_world nd) in one_duty (fst res, nd\<lparr>nd_world := snd res\<rparr>))"

definition with_funds :: "(SectionFunds \<Rightarrow> SectionFunds) \<Rightarrow> ('db, 'd, 'a, 'm, 'h) Node \<Rightarrow> unit result \<times> ('db, 'd, 'a, 'm, 'h) Node" where
  "with_funds f nd = (case get_section_funds nd of
     Inl e \<Rightarrow> (Inl e, nd)
   | Inr funds \<Rightarrow> (Inr (), nd\<lparr>nd_section_funds := Some (f funds)\<rparr>))"

definition no_duties :: "unit result \<times> 's \<Rightarrow> NodeDuties result \<times> 's" where
  "no_duties res = (map_sum id (\<lambda>_. []) (fst res), snd res)"

text \<open>Every duty but a split: these always return.\<close>

fun handle_duty :: "('db, 'd, 'w, 'a, 'f, 'm, 'h) node_api \<Rightarrow> ('a, 'm, 'h) step_env \<Rightarrow> NodeDuty \<Rightarrow>
    ('db, 'd, 'a, 'm, 'h) Node \<Rightarrow> NodeDuties result \<times> ('db, 'd, 'a, 'm, 'h) Node" where
  "handle_duty A S Genesis nd = no_duties (level_up A S nd)"
| "handle_duty A S (EldersChanged pre key newbie) nd =
     (if newbie then no_duties (level_up A S nd)
      else case update_replicas S nd of
          (Inl e, nd1) \<Rightarrow> (Inl e, nd1)
        | (Inr _, nd1) \<Rightarrow>
            let res = push_state A pre (combine (na_ext A) [prefix_name pre, xor_name_of_key (na_ext A) key]) nd1
            in (Inr [fst res], snd res))"
| "handle_duty A S (GetSectionElders msg_id origin) nd = one_duty (get_section_elders (na_ext A) (se_network S) msg_id origin, nd)"
| "handle_duty A S (ReceiveRewardProposal proposal) nd = (case get_churning_funds nd of
     Inl _ \<Rightarrow> (Inr [], nd)
   | Inr (process, wallets, payments) \<Rightarrow>
       let res = receive_churn_proposal (tp_bls (na_transfers A)) (elder_net A S) proposal process
       in one_duty (fst res, nd\<lparr>nd_section_funds := Some (Churning (snd res) wallets payments)\<rparr>))"
| "handle_duty A S (ReceiveRewardAccumulation accumulation) nd = handle_accumulation A S accumulation nd"
| "handle_duty A S (SetNodeWallet wallet_id node_id msg_id origin) nd = (case get_section_funds nd of
     Inl e \<Rightarrow> (Inl e, nd)
   | Inr funds \<Rightarrow> (case btm_get (our_members (se_network S)) node_id of
       Some age \<Rightarrow> (Inr [], nd\<lparr>nd_section_funds := Some (set_node_wallet node_id wallet_id age funds)\<rparr>)
     | None \<Rightarrow> (Inl NodeNotFoundForReward, nd)))"
| "handle_duty A S (GetNodeWalletKey n msg_id origin) nd = (Inr [], nd)"
| "handle_duty A S (ProcessLostMember name age) nd = (case with_funds (remove_node_wallet name) nd of
     (Inl e, nd1) \<Rightarrow> (Inl e, nd1)
   | (Inr _, nd1) \<Rightarrow> (case get_metadata nd1 of
       Inl e \<Rightarrow> (Inl e, nd1)
     | Inr stores \<Rightarrow>
         let res = trigger_chunk_replication (na_ext A) (live_metadata (se_network S) (na_metadata A)) name stores
         in (fst res, nd1\<lparr>nd_meta_data := Some (snd res)\<rparr>)))"
| "handle_duty A S (SynchState rewards wallets) nd = one_duty (synch_state S rewards wallets nd)"
| "handle_duty A S LevelDown nd = no_duties (level_down A S nd)"
| "handle_duty A S (GetTransferReplicaEvents msg_id origin) nd =
     with_transfers S (\<lambda>t. one_duty (transfers_all_events (na_ext A) (na_transfers A) msg_id origin t)) nd"
| "handle_duty A S (PropagateTransfer p msg_id origin) nd =
     with_transfers S (\<lambda>t. one_duty (transfers_receive_propagated (na_ext A) (na_transfers A) p msg_id origin t)) nd"
| "handle_duty A S (ValidateClientTransfer signed_transfer msg_id origin) nd =
     with_transfers S (\<lambda>t. one_duty (transfers_validate (na_ext A) (na_transfers A) (se_new_id S) signed_transfer msg_id origin t)) nd"
| "handle_duty A S (SimulatePayout transfer msg_id origin) nd =
     with_transfers S (\<lambda>t. one_duty (transfers_credit_without_proof (na_ext A) (na_transfers A) (se_random_sig S) (se_random_keys S) transfer t)) nd"
| "handle_duty A S (GetTransfersHistory pk since_version msg_id origin) nd =
     with_transfers S (\<lambda>t. one_duty (transfers_history (na_ext A) (na_transfers A) pk msg_id origin t)) nd"
| "handle_duty A S (GetBalance pk msg_id origin) nd =
     with_transfers S (\<lambda>t. one_duty (transfers_balance (na_ext A) (na_transfers A) pk msg_id origin t)) nd"
| "handle_duty A S (GetStoreCost requester bytes msg_id origin) nd =
     with_transfers S (\<lambda>t. (Inr (get_store_cost (na_ext A) (na_transfers A) bytes msg_id origin t), t)) nd"
| "handle_duty A S (RegisterTransfer p msg_id) nd =
     with_transfers S (\<lambda>t. one_duty (transfers_register (na_ext A) (na_transfers A) p msg_id t)) nd"
| "handle_duty A S (ReadChunk rd msg_id origin) nd = (handle_read_chunk A S rd msg_id origin nd, nd)"
| "handle_duty A S (WriteChunk wr msg_id origin) nd =
     with_chunks (\<lambda>st. chunks_write (na_ext A) (na_blobs A) (se_io S) st wr msg_id origin) nd"
| "handle_duty A S ReachingMaxCapacity nd = (Inr [notify_section_of_our_storage (na_ext A) S], nd)"
| "handle_duty A S (IncrementFullNodeCount node_id) nd =
     with_transfers S (\<lambda>t. no_duties (transfers_increase_full_node_count (na_transfers A) node_id t)) nd"
| "handle_duty A S (Send m) nd = no_duties (node_send A S m nd)"
| "handle_duty A S (SendToNodes targets m) nd = no_duties (send_to_nodes S targets m nd)"
| "handle_duty A S (SetNodeJoinsAllowed joins_allowed) nd =
     no_duties (set_joins_allowed (se_joins_result S) joins_allowed,
       if is_ok (set_joins_allowed (se_joins_result S) joins_allowed) then nd\<lparr>nd_joins_allowed := joins_allowed\<rparr> else nd)"
| "handle_duty A S (ProcessRead query msg_id origin) nd = (handle_process_read A S query msg_id origin nd, nd)"
| "handle_duty A S (ProcessWrite cmd msg_id origin) nd = (case get_metadata nd of
     Inl e \<Rightarrow> (Inl e, nd)
   | Inr stores \<Rightarrow>
       let res = metadata_write (na_ext A) (live_metadata (se_network S) (na_metadata A)) (se_io S) cmd msg_id origin (stores, nd_world nd)
       in one_duty (fst res, nd\<lparr>nd_meta_data := Some (fst (snd res)), nd_world := snd (snd res)\<rparr>))"
| "handle_duty A S (ProcessDataPayment m origin) nd =
     with_transfers S (process_payment (na_ext A) (na_transfers A) m origin) nd"
| "handle_duty A S (AddPayment credit) nd = no_duties (with_funds (add_payment credit) nd)"
| "handle_duty A S (ReplicateChunk addr current_holders i) nd =
     with_chunks (\<lambda>st w. (replicate_chunk st addr current_holders i, w)) nd"
| "handle_duty A S (GetChunkForReplication addr new_holder i) nd =
     with_chunks (\<lambda>st w. (get_for_replication (na_ext A) (na_blobs A) (se_io S) st addr i new_holder w, w)) nd"
| "handle_duty A S (StoreChunkForReplication data correlation_id) nd =
     (if combine (na_ext A) [blob_name data, rt_name (se_network S)] = correlation_id
      then with_chunks (\<lambda>st. store_for_replication (na_blobs A) (se_io S) st data) nd
      else (Inr [], nd))"
| "handle_duty A S NoOp nd = (Inr [], nd)"
| "handle_duty A S (SectionSplit pre key sibling_key newbie) nd = no_duties (begin_split_as_newbie A S key pre nd)"

text \<open>\<^verbatim>\<open>Node::handle\<close>; \<^const>\<open>None\<close> if it does not return.\<close>

definition handle :: "('db, 'd, 'w, 'a, 'f, 'm, 'h) node_api \<Rightarrow> ('a, 'm, 'h) step_env \<Rightarrow> NodeDuty \<Rightarrow>
    ('db, 'd, 'a, 'm, 'h) Node \<Rightarrow> (NodeDuties result \<times> ('db, 'd, 'a, 'm, 'h) Node) option" where
  "handle A S duty nd = (case duty of
     SectionSplit pre key sibling_key False \<Rightarrow> begin_split_as_oldie A S pre key sibling_key nd
   | _ \<Rightarrow> Some (handle_duty A S duty nd))"

section \<open>Working through the duties\<close>

text \<open>One round: the duties in order, the \<open>n\<close>-th one meeting \<open>env n\<close>; errors are only logged.\<close>

fun handle_all :: "('db, 'd, 'w, 'a, 'f, 'm, 'h) node_api \<Rightarrow> (nat \<Rightarrow> ('a, 'm, 'h) step_env) \<Rightarrow> nat \<Rightarrow> NodeDuties \<Rightarrow>
    ('db, 'd, 'a, 'm, 'h) Node \<Rightarrow> (NodeDuties \<times> ('db, 'd, 'a, 'm, 'h) Node) option" where
  "handle_all A env n [] nd = Some ([], nd)"
| "handle_all A env n (duty # duties) nd = (case handle A (env n) duty nd of
     None \<Rightarrow> None
   | Some (res, nd1) \<Rightarrow> (case handle_all A env (Suc n) duties nd1 of
       None \<Rightarrow> None
     | Some (ops, nd2) \<Rightarrow> Some ((case res of Inr new_ops \<Rightarrow> new_ops | Inl _ \<Rightarrow> []) @ ops, nd2)))"

partial_function (option) process_ops :: "('db, 'd, 'w, 'a, 'f, 'm, 'h) node_api \<Rightarrow> (nat \<Rightarrow> ('a, 'm, 'h) step_env) \<Rightarrow> nat \<Rightarrow> NodeDuties \<Rightarrow>
    ('db, 'd, 'a, 'm, 'h) Node \<Rightarrow> ('db, 'd, 'a, 'm, 'h) Node option" where
  "process_ops A env n next_ops nd =
     (if next_ops = [] then Some nd
      else (case handle_all A env n next_ops nd of
          None \<Rightarrow> None
        | Some (ops, nd1) \<Rightarrow> process_ops A env (n + length next_ops) ops nd1))"

definition process_while_any :: "('db, 'd, 'w, 'a, 'f, 'm, 'h) node_api \<Rightarrow> (nat \<Rightarrow> ('a, 'm, 'h) step_env) \<Rightarrow> NodeDuty \<Rightarrow>
    ('db, 'd, 'a, 'm, 'h) Node \<Rightarrow> ('db, 'd, 'a, 'm, 'h) Node option" where
  "process_while_any A env op nd = process_ops A env 0 [op] nd"

text \<open>
  An event of the routing layer: errors of the mapping are only logged. The environment of the
  mapping is that of the first duty.
\<close>

definition node_event :: "('db, 'd, 'w, 'a, 'f, 'm, 'h) node_api \<Rightarrow> message_api \<Rightarrow>
    RoutingEvent \<times> (nat \<Rightarrow> nat + PublicKeySet) \<times> (nat \<Rightarrow> ('a, 'm, 'h) step_env) \<Rightarrow>
    ('db, 'd, 'a, 'm, 'h) Node \<Rightarrow> ('db, 'd, 'a, 'm, 'h) Node outcome" where
  "node_event A M e nd = (case e of (event, polls, env) \<Rightarrow>
     (case map_routing_event (na_ext A) M event (se_network (env 0)) polls of
       Panics \<Rightarrow> Panics
     | Runs_forever \<Rightarrow> Runs_forever
     | Returns (MappingError _) \<Rightarrow> Returns nd
     | Returns (MappingOk op _) \<Rightarrow> (case process_while_any A env op nd of
         None \<Rightarrow> Runs_forever
       | Some nd1 \<Rightarrow> Returns nd1)))"

text \<open>\<^verbatim>\<open>Node::run\<close>: the main loop.\<close>

fun node_run :: "('db, 'd, 'w, 'a, 'f, 'm, 'h) node_api \<Rightarrow> message_api \<Rightarrow>
    (RoutingEvent \<times> (nat \<Rightarrow> nat + PublicKeySet) \<times> (nat \<Rightarrow> ('a, 'm, 'h) step_env)) list \<Rightarrow>
    ('db, 'd, 'a, 'm, 'h) Node \<Rightarrow> ('db, 'd, 'a, 'm, 'h) Node outcome" where
  "node_run A M [] nd = Returns nd"
| "node_run A M (e # events) nd = (case node_event A M e nd of
     Returns nd1 \<Rightarrow> node_run A M events nd1
   | other \<Rightarrow> other)"

end
