(* ===== verification/Node_Correct.thy ===== *)
theory Node_Correct
  imports Node
begin

text \<open>
  What the node guarantees as a whole: it never acts as adult and elder at once, and the work an
  event causes comes to an end, since what handlers leave to do are messages to send.
\<close>

section \<open>What handlers leave to do\<close>

named_theorems leaf_rules \<open>the duties that handlers return\<close>

text \<open>Duties that lead to no further ones.\<close>

fun leaf :: "NodeDuty \<Rightarrow> bool" where
  "leaf (Send m) = True"
| "leaf (SendToNodes ts m) = True"
| "leaf (SetNodeJoinsAllowed b) = True"
| "leaf (AddPayment c) = True"
| "leaf NoOp = True"
| "leaf d = False"

definition leaves :: "NodeDuty result \<Rightarrow> bool" where
  "leaves r \<longleftrightarrow> (\<forall>d. r = Inr d \<longrightarrow> leaf d)"

lemma leaf_reply [simp]: "leaf (cmd_error_to E e i d)" "leaf (query_response_to E r i d)"
  by (simp_all add: cmd_error_to_def query_response_to_def)

lemma leaves_simps [simp]: "leaves (Inl e)" "leaves (Inr d) \<longleftrightarrow> leaf d"
  by (simp_all add: leaves_def)

lemma leaves_and_then [intro]: "(\<And>a. r = Inr a \<Longrightarrow> leaves (f a)) \<Longrightarrow> leaves (and_then r f)"
  by (cases r) simp_all

lemma leaves_replies [leaf_rules]:
  "leaves (map_reply E response res i u)" "leaves (map_ok_or_error E q i u)" "leaves (seq_ok_or_error E q i u)"
  "leaves (send_blob_cmd_error E e i u)"
  by (auto simp: map_reply_def map_ok_or_error_def seq_ok_or_error_def send_blob_cmd_error_def split: sum.splits)

lemma leaves_reads [leaf_rules]:
  "leaves (blob_reg_read E R rd i u s)" "leaves (map_read E M A io st mr i u w)" "leaves (sequence_read E Q B io' st' sr i u w)"
proof -
  show "leaves (blob_reg_read E R rd i u s)"
    by (cases rd) (auto simp: blob_reg_get_def Let_def split: sum.splits)
  show "leaves (map_read E M A io st mr i u w)"
    by (cases mr)
      (simp_all add: map_get_def map_get_value_def map_get_shell_def map_get_version_def map_list_entries_def map_list_keys_def
        map_list_values_def map_list_permissions_def map_list_user_permissions_def leaf_rules)
  show "leaves (sequence_read E Q B io' st' sr i u w)"
    by (cases sr)
      (simp_all add: seq_get_def seq_get_range_def seq_get_last_entry_def seq_get_owner_def seq_get_user_permissions_def
        seq_get_public_policy_def seq_get_private_policy_def leaf_rules)
qed

lemma leaves_metadata_read [leaf_rules]: "leaves (metadata_read E P io q i u stores w)"
  by (cases q) (simp_all add: leaf_rules)

lemma leaves_writes [leaf_rules]:
  "leaves (fst (blob_reg_write E R wr i u s))" "leaves (fst (map_write E M A io st mw i u w))"
  "leaves (fst (sequence_write E Q B io' st' sw i u w))"
proof -
  show "leaves (fst (blob_reg_write E R wr i u s))"
    by (cases wr) (auto simp: blob_reg_store_def blob_reg_delete_def Let_def leaf_rules split: sum.splits)
  show "leaves (fst (map_write E M A io st mw i u w))"
    by (cases mw)
      (simp_all add: map_create_def map_delete_def map_set_user_permissions_def map_delete_user_permissions_def map_edit_entries_def
        map_edit_chunk_def Let_def leaf_rules)
  show "leaves (fst (sequence_write E Q B io' st' sw i u w))"
    by (cases sw) (simp_all add: seq_store_def seq_edit_def seq_delete_def Let_def leaf_rules)
qed

lemma leaves_metadata_write [leaf_rules]: "leaves (fst (metadata_write E P io c i u sw))"
  by (cases sw; cases c) (simp_all add: Let_def leaf_rules)

lemma leaves_chunks [leaf_rules]:
  "leaves (chunks_read E A io st rd i u w)" "leaves (fst (chunks_write E A io st wr i u w))"
  "leaves (replicate_chunk st a hs i)" "leaves (get_for_replication E A io st a i n w)"
  "leaves (fst (store_for_replication A io st b w))"
proof -
  show "leaves (chunks_read E A io st rd i u w)" by (cases rd) (simp add: chunk_get_def)
  show "leaves (fst (chunks_write E A io st wr i u w))"
    by (cases wr) (auto simp: store_def chunk_delete_def split: prod.splits sum.splits)
  show "leaves (replicate_chunk st a hs i)" by (simp add: replicate_chunk_def)
  show "leaves (get_for_replication E A io st a i n w)" by (auto simp: get_for_replication_def split: sum.splits)
  show "leaves (fst (store_for_replication A io st b w))" by (auto simp: store_for_replication_def split: prod.splits sum.splits)
qed

lemma leaves_rewards [leaf_rules]:
  "leaves (fst (receive_churn_proposal B N p rp))" "leaves (fst (receive_wallet_accumulation B N a rp))"
  "reward_and_mint E B N x y ns rp = Some (r, rp') \<Longrightarrow> leaves r"
proof -
  show "leaves (fst (receive_churn_proposal B N p rp))"
    by (auto simp: receive_churn_proposal_def send_prop_msg_def send_acc_msg_def Let_def
        split: RewardStage.splits sum.splits prod.splits option.splits)
  show "leaves (fst (receive_wallet_accumulation B N a rp))"
    by (auto simp: receive_wallet_accumulation_def send_acc_msg_def Let_def
        split: RewardStage.splits sum.splits prod.splits option.splits)
  let ?f = "\<lambda>reward_credits. case sign_proposed_rewards B N reward_credits of
      Inl e \<Rightarrow> (Inl e, rp)
    | Inr d \<Rightarrow> (case signing_our_index N of
        Inl e \<Rightarrow> (Inl e, rp)
      | Inr index \<Rightarrow> (Inr (send_prop_msg N (get_proposal d (wallet_key (rp_section rp)) index) (address (rp_section rp))),
          rp\<lparr>stage := ProposingCredits d\<rparr>))"
  have f: "leaves (fst (?f rc))" for rc by (auto simp: send_prop_msg_def split: sum.splits)
  show "leaves r" if "reward_and_mint E B N x y ns rp = Some (r, rp')"
  proof -
    from that obtain rc where "?f rc = (r, rp')"
      unfolding reward_and_mint_def Let_def by (auto split: option.split_asm)
    from arg_cong [OF this, of fst] f [of rc] show ?thesis by simp
  qed
qed

lemma leaves_transfers [leaf_rules]:
  "leaves (fst (transfers_all_events E P i src t))" "leaves (fst (transfers_receive_propagated E P cp i src t))"
  "leaves (fst (transfers_validate E P n st i src t))" "leaves (fst (transfers_credit_without_proof E P sig ks tr t))"
  "leaves (fst (transfers_history E P pk i src t))" "leaves (fst (transfers_balance E P pk i src t))"
  "leaves (fst (transfers_register E P p i t))"
proof -
  show "leaves (fst (transfers_all_events E P i src t))"
    by (auto simp: transfers_all_events_def split: prod.splits)
  show "leaves (fst (transfers_receive_propagated E P cp i src t))"
    by (auto simp: transfers_receive_propagated_def propagation_error_def
        split: prod.splits sum.splits Error.splits TransfersError.splits)
  show "leaves (fst (transfers_validate E P n st i src t))"
    by (auto simp: transfers_validate_def split: prod.splits sum.splits)
  show "leaves (fst (transfers_credit_without_proof E P sig ks tr t))"
    by (auto simp: transfers_credit_without_proof_def on_replicas_def replica_credit_without_proof_def Let_def
        split: prod.splits sum.splits)
  show "leaves (fst (transfers_history E P pk i src t))" by (auto simp: transfers_history_def split: prod.splits)
  show "leaves (fst (transfers_balance E P pk i src t))" by (auto simp: transfers_balance_def split: prod.splits)
  show "leaves (fst (transfers_register E P p i t))"
    by (auto simp: transfers_register_def split: prod.splits sum.splits)
qed

text \<open>The same for handlers that return several duties.\<close>

definition all_leaves :: "NodeDuties result \<Rightarrow> bool" where
  "all_leaves r \<longleftrightarrow> (\<forall>ds. r = Inr ds \<longrightarrow> list_all leaf ds)"

lemma all_leaves_simps [simp]: "all_leaves (Inl e)" "all_leaves (Inr ds) \<longleftrightarrow> list_all leaf ds"
  by (simp_all add: all_leaves_def)

lemma all_leaves_and_then [intro]: "(\<And>a. r = Inr a \<Longrightarrow> all_leaves (f a)) \<Longrightarrow> all_leaves (and_then r f)"
  by (cases r) simp_all

lemma all_leaves_duties [simp]: "all_leaves (fst (one_duty res)) \<longleftrightarrow> leaves (fst res)" "all_leaves (fst (no_duties res'))"
  by (cases "fst res"; simp add: one_duty_def) (cases "fst res'"; simp add: no_duties_def)

lemma all_leaves_transfers [leaf_rules]:
  "all_leaves (fst (process_payment E P m u t))" "list_all leaf (get_store_cost E P b i src t)"
  "all_leaves (fst (trigger_chunk_replication E Q n stores))" "all_leaves (propagate_credits E cs)"
proof -
  show "all_leaves (fst (process_payment E P m u t))"
    by (auto simp: process_payment_def payment_error_def forward_data_def Let_def
        split: Message.splits Cmd.splits sum.splits prod.splits)
  show "list_all leaf (get_store_cost E P b i src t)" by (simp add: get_store_cost_def)
  show "all_leaves (fst (trigger_chunk_replication E Q n stores))"
    by (auto simp: trigger_chunk_replication_def replicate_chunks_def get_replication_msgs_def Let_def list_all_iff
        split: prod.splits sum.splits)
  show "all_leaves (propagate_credits E cs)"
    by (induction E cs rule: propagate_credits.induct) (auto simp: all_leaves_def and_then_Inr_iff)
qed

section \<open>The work an event causes\<close>

lemma with_transfers_leaves: "(\<And>t. all_leaves (fst (f t))) \<Longrightarrow> all_leaves (fst (with_transfers S f nd))"
  by (auto simp: with_transfers_def Let_def split: sum.splits)

lemma with_chunks_leaves: "(\<And>st w. leaves (fst (f st w))) \<Longrightarrow> all_leaves (fst (with_chunks f nd))"
  by (auto simp: with_chunks_def Let_def split: sum.splits)

lemma push_state_leaf: "leaf (fst (push_state A pre i nd))"
  by (simp add: push_state_def Let_def)

lemma handle_accumulation_leaves: "all_leaves (fst (handle_accumulation A S a nd))"
proof (cases "get_churning_funds nd")
  case (Inr q)
  obtain process ws ps where q: "q = (process, ws, ps)" by (cases q)
  obtain r rp where res: "receive_wallet_accumulation (tp_bls (na_transfers A)) (elder_net A S) a process = (r, rp)" by (metis surj_pair)
  have "leaves r" using leaves_rewards(2) [of "tp_bls (na_transfers A)" "elder_net A S" a process] by (simp add: res)
  moreover have "all_leaves (propagate_credits (na_ext A) cs)" for cs by (rule all_leaves_transfers)
  ultimately show ?thesis
    by (auto simp: handle_accumulation_def Inr q res Let_def all_leaves_def and_then_Inr_iff split: sum.splits RewardStage.splits)
qed (simp add: handle_accumulation_def)

text \<open>Handlers leave messages to send; reading a chunk may also report that space runs out.\<close>

definition plain :: "NodeDuty \<Rightarrow> bool" where
  "plain d \<longleftrightarrow> leaf d \<or> d = ReachingMaxCapacity"

lemma handle_read_chunk_plain:
  "handle_read_chunk A S rd i u nd = Inr ds \<Longrightarrow> list_all plain ds"
  using leaves_chunks(1) [of "na_ext A" "na_blobs A" "se_io S" _ rd i u "nd_world nd"]
  by (auto simp: handle_read_chunk_def Let_def and_then_Inr_iff plain_def check_storage_def node_duties_from_def leaves_def
      split: if_splits)

lemma handle_duty_leaves:
  assumes "\<And>rd i u. d \<noteq> ReadChunk rd i u"
  shows "all_leaves (fst (handle_duty A S d nd))"
proof (cases d)
  case (ReadChunk rd i u)
  with assms show ?thesis by blast
next
  case (EldersChanged pre key newbie)
  show ?thesis using push_state_leaf [of A]
    by (auto simp: EldersChanged Let_def split: prod.splits sum.splits)
next
  case (ReceiveRewardProposal p)
  show ?thesis by (auto simp: ReceiveRewardProposal Let_def leaf_rules split: sum.splits prod.splits)
next
  case (ProcessRead q i u)
  show ?thesis by (auto simp: ProcessRead handle_process_read_def Let_def all_leaves_def and_then_Inr_iff
        dest: leaves_metadata_read [unfolded leaves_def, rule_format])
next
  case (SynchState rs ws)
  show ?thesis by (auto simp: SynchState synch_state_def Let_def split: option.splits)
next
  case (ReceiveRewardAccumulation a)
  then show ?thesis by (simp add: handle_accumulation_leaves)
next
  case (SetNodeWallet w n i src)
  show ?thesis by (auto simp: SetNodeWallet split: sum.splits option.splits)
next
  case (GetSectionElders i src)
  show ?thesis by (auto simp: GetSectionElders get_section_elders_def)
next
  case (ProcessWrite c i u)
  show ?thesis by (auto simp: ProcessWrite Let_def leaf_rules split: sum.splits)
next
  case (ProcessLostMember n age)
  show ?thesis by (auto simp: ProcessLostMember Let_def leaf_rules split: sum.splits prod.splits)
next
  case (StoreChunkForReplication b i)
  show ?thesis by (auto simp: StoreChunkForReplication leaf_rules intro: with_chunks_leaves)
qed (auto simp: leaf_rules notify_section_of_our_storage_def Let_def intro!: with_transfers_leaves with_chunks_leaves)

lemma no_duties_Inr [dest]: "map_sum id (\<lambda>_. []) r = Inr ds \<Longrightarrow> ds = []"
  by (cases r) simp_all

lemma handle_leaf: "leaf d \<Longrightarrow> \<exists>r nd'. handle A S d nd = Some (r, nd') \<and> (\<forall>ds. r = Inr ds \<longrightarrow> ds = [])"
  by (cases d) (auto simp: handle_def no_duties_def prod_eq_iff Let_def)

lemma handle_plain: "plain d \<Longrightarrow> \<exists>r nd'. handle A S d nd = Some (r, nd') \<and> all_leaves r"
  using handle_leaf [of d A S nd]
  by (auto simp: plain_def handle_def notify_section_of_our_storage_def Let_def all_leaves_def)

lemma push_both_leaves: "list_all leaf (fst (push_both_states A pre key sib nd))"
  by (simp add: push_both_states_def Let_def push_state_leaf)

lemma split_payout_leaves: "split_payout A S pre key ws p t nd = Some (r, nd') \<Longrightarrow> leaves r"
  using leaves_rewards(3)
  by (fastforce simp: split_payout_def Let_def split: prod.splits sum.splits option.splits)

lemma oldie_leaves: "begin_split_as_oldie A S pre key sib nd = Some (r, nd') \<Longrightarrow> all_leaves r"
  by (fastforce simp: begin_split_as_oldie_def Let_def push_both_leaves dest: split_payout_leaves
      split: option.split_asm sum.split_asm prod.split_asm if_split_asm)

lemma handle_first: "handle A S d nd = Some (Inr ds, nd') \<Longrightarrow> list_all plain ds"
proof -
  assume h: "handle A S d nd = Some (Inr ds, nd')"
  have lp: "list_all leaf ds \<Longrightarrow> list_all plain ds" by (auto simp: list_all_iff plain_def)
  consider (read) rd i u where "d = ReadChunk rd i u" | (split) pre key sib where "d = SectionSplit pre key sib False"
    | (other) "handle A S d nd = Some (handle_duty A S d nd)" "\<And>rd i u. d \<noteq> ReadChunk rd i u"
  proof (cases "\<exists>pre key sib. d = SectionSplit pre key sib False")
    case False
    then have "handle A S d nd = Some (handle_duty A S d nd)"
      by (auto simp: handle_def split: NodeDuty.splits bool.splits)
    with that show ?thesis by blast
  qed (use that in blast)
  then show ?thesis
  proof cases
    case read
    with h show ?thesis using handle_read_chunk_plain by (auto simp: handle_def)
  next
    case split
    with h oldie_leaves show ?thesis by (fastforce simp: handle_def intro: lp)
  next
    case other
    with h handle_duty_leaves [OF other(2), of A S nd] show ?thesis by (auto intro: lp)
  qed
qed

text \<open>The second round has messages to send and reports of little space, the third only the latter's messages.\<close>

lemma handle_all_leaf:
  "list_all leaf ds \<Longrightarrow> \<exists>nd'. handle_all A env n ds nd = Some ([], nd')"
proof (induction ds arbitrary: n nd)
  case (Cons d ds)
  obtain r nd1 where h: "handle A (env n) d nd = Some (r, nd1)" and r: "\<forall>ds. r = Inr ds \<longrightarrow> ds = []"
    using handle_leaf [of d A "env n" nd] Cons.prems by auto
  obtain nd2 where "handle_all A env (Suc n) ds nd1 = Some ([], nd2)" using Cons.IH [of "Suc n" nd1] Cons.prems by auto
  with h r show ?case by (auto split: sum.splits)
qed simp

lemma handle_all_plain:
  "list_all plain ds \<Longrightarrow> \<exists>ops nd'. handle_all A env n ds nd = Some (ops, nd') \<and> list_all leaf ops"
proof (induction ds arbitrary: n nd)
  case (Cons d ds)
  obtain r nd1 where h: "handle A (env n) d nd = Some (r, nd1)" and r: "all_leaves r"
    using handle_plain [of d A "env n" nd] Cons.prems by auto
  obtain ops nd2 where "handle_all A env (Suc n) ds nd1 = Some (ops, nd2)" "list_all leaf ops"
    using Cons.IH [of "Suc n" nd1] Cons.prems by auto
  with h r show ?case by (auto split: sum.splits)
qed simp

lemma process_ops_leaf:
  "list_all leaf ds \<Longrightarrow> process_ops A env n ds nd = map_option snd (handle_all A env n ds nd)"
  using handle_all_leaf [of ds A env n nd] by (auto simp: process_ops.simps)

lemma process_ops_plain:
  assumes "list_all plain ds"
  shows "process_ops A env n ds nd =
    map_option snd (Option.bind (handle_all A env n ds nd) (\<lambda>(ops, nd1). handle_all A env (n + length ds) ops nd1))"
proof -
  obtain ops nd1 where h: "handle_all A env n ds nd = Some (ops, nd1)" and ops: "list_all leaf ops"
    using handle_all_plain [OF assms] by blast
  from process_ops_leaf [OF ops, of A env "n + length ds" nd1] show ?thesis
    by (subst process_ops.simps) (use h in \<open>auto simp: process_ops.simps\<close>)
qed

text \<open>All the work of an event: its duty, what that leaves to do, and the messages about little space.\<close>

definition three_rounds :: "('db, 'd, 'w, 'a, 'f, 'm, 'h) node_api \<Rightarrow> (nat \<Rightarrow> ('a, 'm, 'h) step_env) \<Rightarrow> NodeDuty \<Rightarrow>
    ('db, 'd, 'a, 'm, 'h) Node \<Rightarrow> ('db, 'd, 'a, 'm, 'h) Node option" where
  "three_rounds A env op nd =
     Option.bind (handle_all A env 0 [op] nd) (\<lambda>(ops1, nd1).
     Option.bind (handle_all A env 1 ops1 nd1) (\<lambda>(ops2, nd2).
     map_option snd (handle_all A env (1 + length ops1) ops2 nd2)))"

lemma first_round_plain: "handle_all A env n [op] nd = Some (ops, nd') \<Longrightarrow> list_all plain ops"
  using handle_first [of A "env n" op nd] by (auto split: option.split_asm sum.split_asm)

lemma process_while_any_rounds: "process_while_any A env op nd = three_rounds A env op nd"
proof (cases "handle_all A env 0 [op] nd")
  case None
  then show ?thesis by (simp add: process_while_any_def three_rounds_def process_ops.simps [of A env 0] del: handle_all.simps)
next
  case (Some q)
  obtain ops nd1 where q: "q = (ops, nd1)" by (cases q)
  then have "list_all plain ops" using first_round_plain [of A env 0 op nd] Some by simp
  from process_ops_plain [OF this, of A env 1 nd1] Some q show ?thesis
    by (simp add: process_while_any_def three_rounds_def process_ops.simps [of A env 0] case_prod_unfold map_option_bind
        comp_def del: handle_all.simps)
qed

lemma process_while_any_returns:
  "process_while_any A env op nd = None \<longleftrightarrow> handle A (env 0) op nd = None"
proof (cases "handle_all A env 0 [op] nd")
  case (Some q)
  obtain ops nd1 where q: "q = (ops, nd1)" by (cases q)
  then have "list_all plain ops" using first_round_plain [of A env 0 op nd] Some by simp
  then obtain ops2 nd2 where r2: "handle_all A env 1 ops nd1 = Some (ops2, nd2)" "list_all leaf ops2"
    using handle_all_plain by blast
  with handle_all_leaf [OF r2(2), of A env "1 + length ops" nd2] Some q show ?thesis
    by (auto simp: process_while_any_rounds three_rounds_def split: option.splits)
qed (auto simp: process_while_any_rounds three_rounds_def split: option.splits)

section \<open>Roles\<close>

text \<open>
  A node that keeps chunks keeps no metadata; wallets are kept together with the section's funds,
  and only beside metadata.
\<close>

definition node_inv :: "('db, 'd, 'a, 'm, 'h) Node \<Rightarrow> bool" where
  "node_inv nd \<longleftrightarrow> (nd_chunks nd \<noteq> None \<longrightarrow> nd_meta_data nd = None) \<and>
     (nd_transfers nd \<noteq> None \<longleftrightarrow> nd_section_funds nd \<noteq> None) \<and> (nd_transfers nd \<noteq> None \<longrightarrow> nd_meta_data nd \<noteq> None)"

text \<open>Which modules a node has.\<close>

definition same_modules :: "('db, 'd, 'a, 'm, 'h) Node \<Rightarrow> ('db, 'd, 'a, 'm, 'h) Node \<Rightarrow> bool" where
  "same_modules nd nd' \<longleftrightarrow> (nd_chunks nd' = None \<longleftrightarrow> nd_chunks nd = None) \<and> (nd_meta_data nd' = None \<longleftrightarrow> nd_meta_data nd = None) \<and>
     (nd_transfers nd' = None \<longleftrightarrow> nd_transfers nd = None) \<and> (nd_section_funds nd' = None \<longleftrightarrow> nd_section_funds nd = None)"

lemma same_modules_refl [simp]: "same_modules nd nd"
  by (simp add: same_modules_def)

lemma same_modules_trans [trans]: "same_modules a b \<Longrightarrow> same_modules b c \<Longrightarrow> same_modules a c"
  by (simp add: same_modules_def)

lemma same_modules_inv: "same_modules nd nd' \<Longrightarrow> node_inv nd \<Longrightarrow> node_inv nd'"
  by (auto simp: same_modules_def node_inv_def)

named_theorems module_rules \<open>handlers that leave the modules in place\<close>

lemma same_modules_with [module_rules]:
  "same_modules nd (snd (with_transfers S f nd))" "same_modules nd (snd (with_chunks g nd))"
  "same_modules nd (snd (with_funds h nd))"
  by (auto simp: with_transfers_def with_chunks_def with_funds_def one_duty_def get_transfers_def get_chunks_def
      get_section_funds_def same_modules_def Let_def ok_or_def split: option.splits sum.splits)

text \<open>Sending only adds to what was sent.\<close>

lemma send_message_adds:
  "\<exists>new. snd (send_message S src d ag m nd) = nd\<lparr>nd_sent := nd_sent nd @ new\<rparr> \<and> (\<forall>x \<in> set new. x = (src, d, ag, m))"
proof (cases "se_reached S d")
  case True
  then show ?thesis by (intro exI [of _ "[(src, d, ag, m)]"]) (simp add: send_message_def)
qed (intro exI [of _ "[]"], simp add: send_message_def)

lemma node_send_adds:
  "\<exists>new. snd (node_send A S om nd) = nd\<lparr>nd_sent := nd_sent nd @ new\<rparr> \<and> (\<forall>x \<in> set new. snd (snd (snd x)) = msg om \<and> fst (snd x) = dst om)"
proof (cases "se_serialize_ok S")
  case True
  define src where "src = (if section_source om then SrcSection (prefix_name (Network.our_prefix (se_network S))) else SrcNode (rt_name (se_network S)))"
  have "snd (node_send A S om nd) = snd (send_message S src (dst om) (aggregation om) (msg om) nd)"
    using True by (simp add: node_send_def src_def Let_def split: prod.split bool.split)
  moreover obtain new where "snd (send_message S src (dst om) (aggregation om) (msg om) nd) = nd\<lparr>nd_sent := nd_sent nd @ new\<rparr>"
      "\<forall>x \<in> set new. x = (src, dst om, aggregation om, msg om)"
    using send_message_adds by blast
  ultimately show ?thesis by (intro exI [of _ new]) auto
qed (intro exI [of _ "[]"], simp add: node_send_def)

lemma send_to_nodes_adds:
  "\<exists>new. snd (send_to_nodes S ts m nd) = nd\<lparr>nd_sent := nd_sent nd @ new\<rparr> \<and> (\<forall>x \<in> set new. snd (snd (snd x)) = m)"
proof -
  let ?step = "\<lambda>target nd. snd (send_message S (SrcNode (rt_name (se_network S))) (DstNode target) AtDestination m nd)"
  have "\<exists>new. fold ?step ts nd = nd\<lparr>nd_sent := nd_sent nd @ new\<rparr> \<and> (\<forall>x \<in> set new. snd (snd (snd x)) = m)"
  proof (induction ts arbitrary: nd)
    case Nil
    then show ?case by (intro exI [of _ "[]"]) simp
  next
    case (Cons t ts)
    obtain new where new: "?step t nd = nd\<lparr>nd_sent := nd_sent nd @ new\<rparr>"
        "\<forall>x \<in> set new. x = (SrcNode (rt_name (se_network S)), DstNode t, AtDestination, m)"
      using send_message_adds [of S "SrcNode (rt_name (se_network S))" "DstNode t" AtDestination m nd] by blast
    obtain new' where "fold ?step ts (?step t nd) = (?step t nd)\<lparr>nd_sent := nd_sent (?step t nd) @ new'\<rparr>" "\<forall>x \<in> set new'. snd (snd (snd x)) = m"
      using Cons.IH [of "?step t nd"] by blast
    with new show ?case by (intro exI [of _ "new @ new'"]) auto
  qed
  then show ?thesis by (cases "se_serialize_ok S") (auto simp: send_to_nodes_def intro: exI [of _ "[]"])
qed

lemma sending_keeps [simp]:
  "nd_transfers (snd (node_send A S om nd)) = nd_transfers nd" "nd_transfers (snd (send_to_nodes S ts m nd)) = nd_transfers nd"
  "nd_db_disk (snd (node_send A S om nd)) = nd_db_disk nd" "nd_db_disk (snd (send_to_nodes S ts m nd)) = nd_db_disk nd"
  "nd_root_dir (snd (node_send A S om nd)) = nd_root_dir nd" "nd_root_dir (snd (send_to_nodes S ts m nd)) = nd_root_dir nd"
  "nd_world (snd (node_send A S om nd)) = nd_world nd" "nd_world (snd (send_to_nodes S ts m nd)) = nd_world nd"
  "nd_chunks (snd (node_send A S om nd)) = nd_chunks nd" "nd_chunks (snd (send_to_nodes S ts m nd)) = nd_chunks nd"
  "nd_meta_data (snd (node_send A S om nd)) = nd_meta_data nd" "nd_meta_data (snd (send_to_nodes S ts m nd)) = nd_meta_data nd"
  "nd_section_funds (snd (node_send A S om nd)) = nd_section_funds nd" "nd_section_funds (snd (send_to_nodes S ts m nd)) = nd_section_funds nd"
proof -
  obtain new where a: "snd (node_send A S om nd) = nd\<lparr>nd_sent := nd_sent nd @ new\<rparr>" using node_send_adds by blast
  obtain new' where b: "snd (send_to_nodes S ts m nd) = nd\<lparr>nd_sent := nd_sent nd @ new'\<rparr>" using send_to_nodes_adds by blast
  show
    "nd_transfers (snd (node_send A S om nd)) = nd_transfers nd" "nd_transfers (snd (send_to_nodes S ts m nd)) = nd_transfers nd"
    "nd_db_disk (snd (node_send A S om nd)) = nd_db_disk nd" "nd_db_disk (snd (send_to_nodes S ts m nd)) = nd_db_disk nd"
    "nd_root_dir (snd (node_send A S om nd)) = nd_root_dir nd" "nd_root_dir (snd (send_to_nodes S ts m nd)) = nd_root_dir nd"
    "nd_world (snd (node_send A S om nd)) = nd_world nd" "nd_world (snd (send_to_nodes S ts m nd)) = nd_world nd"
    "nd_chunks (snd (node_send A S om nd)) = nd_chunks nd" "nd_chunks (snd (send_to_nodes S ts m nd)) = nd_chunks nd"
    "nd_meta_data (snd (node_send A S om nd)) = nd_meta_data nd" "nd_meta_data (snd (send_to_nodes S ts m nd)) = nd_meta_data nd"
    "nd_section_funds (snd (node_send A S om nd)) = nd_section_funds nd" "nd_section_funds (snd (send_to_nodes S ts m nd)) = nd_section_funds nd"
    by (simp_all add: a b)
qed

lemma same_modules_send [module_rules]:
  "same_modules nd (snd (node_send A S om nd))" "same_modules nd (snd (send_to_nodes S ts m nd))"
  by (simp_all add: same_modules_def)

lemma same_modules_state [module_rules]:
  "same_modules nd (snd (push_state A pre i nd))" "same_modules nd (snd (update_replicas S nd))"
  "same_modules nd (snd (synch_state S rs ws nd))" "same_modules nd (snd (handle_accumulation A S a nd))"
proof -
  show "same_modules nd (snd (push_state A pre i nd))"
    by (auto simp: push_state_def same_modules_def Let_def split: option.splits prod.splits)
  show "same_modules nd (snd (update_replicas S nd))"
    by (auto simp: update_replicas_def same_modules_def split: option.splits sum.splits)
  show "same_modules nd (snd (synch_state S rs ws nd))"
    by (auto simp: synch_state_def same_modules_def Let_def split: option.splits)
  show "same_modules nd (snd (handle_accumulation A S a nd))"
    by (auto simp: handle_accumulation_def get_churning_funds_def same_modules_def Let_def
        split: option.splits sum.splits SectionFunds.splits RewardStage.splits)
qed

lemma one_duty_state [simp]: "snd (one_duty res) = snd res" "snd (no_duties res') = snd res'"
  by (simp_all add: one_duty_def no_duties_def)

lemma same_modules_push: "same_modules nd nd1 \<Longrightarrow> same_modules nd (snd (push_state A pre i nd1))"
  using module_rules(1) same_modules_trans same_modules_state(1) by metis

text \<open>Every duty leaves the modules in place, except for those about the node's own role.\<close>

fun role_duty :: "NodeDuty \<Rightarrow> bool" where
  "role_duty Genesis = True"
| "role_duty (EldersChanged pre key newbie) = newbie"
| "role_duty LevelDown = True"
| "role_duty (SectionSplit pre key sib newbie) = True"
| "role_duty d = False"

lemma handle_duty_modules:
  assumes "\<not> role_duty d"
  shows "same_modules nd (snd (handle_duty A S d nd))"
proof (cases d)
  case (EldersChanged pre key newbie)
  with assms show ?thesis using same_modules_state(2) [of nd S]
    by (auto simp: Let_def intro: same_modules_push split: prod.splits sum.splits)
next
  case (ReceiveRewardProposal p)
  then show ?thesis
    by (auto simp: get_churning_funds_def same_modules_def Let_def split: option.splits sum.splits SectionFunds.splits)
next
  case (SetNodeWallet w n i src)
  then show ?thesis by (auto simp: get_section_funds_def same_modules_def ok_or_def split: option.splits sum.splits)
next
  case (ProcessLostMember n age)
  then show ?thesis using same_modules_with(3) [of nd "remove_node_wallet n"]
    by (auto simp: get_metadata_def ok_or_def same_modules_def Let_def split: option.splits sum.splits prod.splits)
next
  case (ProcessWrite c i u)
  then show ?thesis by (auto simp: get_metadata_def ok_or_def same_modules_def Let_def split: option.splits sum.splits)
next
  case (SetNodeJoinsAllowed b)
  then show ?thesis by (simp add: same_modules_def)
qed (use assms in \<open>simp_all add: module_rules\<close>)

lemma level_up_inv: "node_inv nd \<Longrightarrow> node_inv (snd (level_up A S nd))"
  by (auto simp: level_up_def node_inv_def Let_def split: sum.splits prod.splits)

lemma level_up_ok: "level_up A S nd = (Inr u, nd') \<Longrightarrow>
    nd_chunks nd' = None \<and> nd_meta_data nd' \<noteq> None \<and> nd_transfers nd' \<noteq> None \<and> nd_section_funds nd' \<noteq> None"
  by (auto simp: level_up_def Let_def split: sum.splits prod.splits)

text \<open>A promotion that fails has already dropped the chunks.\<close>

lemma level_up_failed: "level_up A S nd = (Inl e, nd') \<Longrightarrow>
    nd_chunks nd' = None \<and> nd_transfers nd' = nd_transfers nd \<and> nd_section_funds nd' = nd_section_funds nd"
  by (auto simp: level_up_def Let_def split: sum.splits prod.splits)

lemma level_down_inv: "node_inv nd \<Longrightarrow> node_inv (snd (level_down A S nd))"
  by (auto simp: level_down_def node_inv_def Let_def split: sum.splits prod.splits)

lemma newbie_inv: "node_inv nd \<Longrightarrow> node_inv (snd (begin_split_as_newbie A S key pre nd))"
proof (cases "level_up A S nd")
  case (Pair r nd1)
  assume "node_inv nd"
  then have "node_inv nd1" using level_up_inv [of nd A S] by (simp add: Pair)
  then show ?thesis using level_up_ok [of A S nd] \<open>node_inv nd\<close>
    by (cases r) (auto simp: begin_split_as_newbie_def Pair node_inv_def split: sum.splits)
qed

lemma split_payout_modules:
  assumes "split_payout A S pre key ws p t nd = Some (r, nd')" "nd_transfers nd \<noteq> None" "nd_section_funds nd \<noteq> None"
  shows "same_modules nd nd'"
  using assms by (auto simp: split_payout_def same_modules_def Let_def split: option.split_asm sum.split_asm prod.split_asm)

lemma push_both_modules: "same_modules nd nd1 \<Longrightarrow> same_modules nd (snd (push_both_states A pre key sib nd1))"
  by (simp add: push_both_states_def Let_def same_modules_push)

lemma oldie_modules: "begin_split_as_oldie A S pre key sib nd = Some (r, nd') \<Longrightarrow> same_modules nd nd'"
proof -
  assume h: "begin_split_as_oldie A S pre key sib nd = Some (r, nd')"
  have t: "same_modules nd (nd\<lparr>nd_transfers := Some t\<rparr>)" if "nd_transfers nd \<noteq> None" for t
    using that by (simp add: same_modules_def)
  show ?thesis using h
    by (auto simp: begin_split_as_oldie_def Let_def t push_both_modules
        dest!: split_payout_modules intro!: push_both_modules intro: same_modules_trans [OF t]
        split: option.split_asm sum.split_asm prod.split_asm if_split_asm)
qed

lemma handle_inv: "handle A S d nd = Some (r, nd') \<Longrightarrow> node_inv nd \<Longrightarrow> node_inv nd'"
proof -
  assume h: "handle A S d nd = Some (r, nd')" and inv: "node_inv nd"
  show ?thesis
  proof (cases "\<exists>pre key sib. d = SectionSplit pre key sib False")
    case True
    with h show ?thesis by (auto simp: handle_def intro: same_modules_inv [OF oldie_modules inv])
  next
    case False
    then have nd': "nd' = snd (handle_duty A S d nd)"
      using h by (auto simp: handle_def split: NodeDuty.splits bool.splits)
    show ?thesis
    proof (cases "role_duty d")
      case True
      then show ?thesis using level_up_inv [OF inv] level_down_inv [OF inv] newbie_inv [OF inv]
        by (cases d) (simp_all add: nd')
    next
      case False
      with same_modules_inv [OF handle_duty_modules inv] show ?thesis by (simp add: nd')
    qed
  qed
qed

end
