(* ===== verification/Node_Guarantees.thy ===== *)
theory Node_Guarantees
  imports Node_Correct
begin

text \<open>
  Guarantees of the node as a whole, across its modules and over any sequence of events: its role,
  the end of its work, and the way of a client's write from the message of the client to the message
  that has it stored.
\<close>

section \<open>Runs\<close>

text \<open>What every duty keeps is kept by the work of an event and by the main loop.\<close>

lemma handle_all_invariant:
  assumes "handle_all A env n ds nd = Some (ops, nd')" and "P nd"
    and "\<And>n d nd r nd'. handle A (env n) d nd = Some (r, nd') \<Longrightarrow> P nd \<Longrightarrow> P nd'"
  shows "P nd'"
  using assms(1,2)
proof (induction ds arbitrary: n nd ops)
  case (Cons d ds)
  then obtain r nd1 ops1 where "handle A (env n) d nd = Some (r, nd1)" "handle_all A env (Suc n) ds nd1 = Some (ops1, nd')"
    by (auto split: option.split_asm)
  with Cons assms(3) show ?case by blast
qed simp

lemma process_while_any_invariant:
  assumes "process_while_any A env op nd = Some nd'" and "P nd"
    and "\<And>n d nd r nd'. handle A (env n) d nd = Some (r, nd') \<Longrightarrow> P nd \<Longrightarrow> P nd'"
  shows "P nd'"
proof -
  obtain ops1 nd1 ops2 nd2 ops3 where "handle_all A env 0 [op] nd = Some (ops1, nd1)" "handle_all A env 1 ops1 nd1 = Some (ops2, nd2)"
      "handle_all A env (1 + length ops1) ops2 nd2 = Some (ops3, nd')"
    using assms(1) by (auto simp: process_while_any_rounds three_rounds_def bind_eq_Some_conv simp del: handle_all.simps)
  then show ?thesis using assms(2,3) handle_all_invariant [where P = P] by metis
qed

lemma node_event_inv: "node_event A M e nd = Returns nd' \<Longrightarrow> node_inv nd \<Longrightarrow> node_inv nd'"
  using process_while_any_invariant [where P = node_inv] handle_inv
  by (fastforce simp: node_event_def split: prod.split_asm outcome.split_asm Mapping.split_asm option.split_asm)

lemma node_run_inv: "node_run A M events nd = Returns nd' \<Longrightarrow> node_inv nd \<Longrightarrow> node_inv nd'"
  by (induction events arbitrary: nd) (auto split: outcome.split_asm dest: node_event_inv)

lemma node_new_inv: "node_new A C I S config db d = Returns (Inr nd, d') \<Longrightarrow> node_inv nd"
proof -
  assume "node_new A C I S config db d = Returns (Inr nd, d')"
  then obtain node_dir key d1 where "start_node A S config node_dir key db d1 = (Inr nd, d')"
    by (auto simp: node_new_def Let_def split: sum.split_asm if_split_asm outcome.split_asm prod.split_asm)
  then obtain nd0 where "nd = snd (node_send A S (register_wallet S nd0) nd0)" "nd_meta_data nd0 = None"
      "nd_transfers nd0 = None" "nd_section_funds nd0 = None"
    by (auto simp: start_node_def Let_def split: sum.split_asm prod.split_asm)
  then show ?thesis using same_modules_send(1) [of nd0 A S "register_wallet S nd0"]
    by (auto simp: same_modules_def node_inv_def)
qed

text \<open>
  C7. A node is never adult and elder at once: from its start on, whatever events it meets, whatever
  messages it is sent, and whichever promotions, demotions, file accesses and sends fail, a node
  that keeps chunks has neither metadata nor wallets nor funds; wallets and funds are kept together,
  and only beside metadata.
\<close>

theorem roles_exclusive:
  assumes "node_new A C I S config db d = Returns (Inr nd, d')" and "node_run A M events nd = Returns nd'"
  shows "(nd_chunks nd' \<noteq> None \<longrightarrow> nd_meta_data nd' = None \<and> nd_transfers nd' = None \<and> nd_section_funds nd' = None) \<and>
    (nd_transfers nd' \<noteq> None \<longleftrightarrow> nd_section_funds nd' \<noteq> None) \<and> (nd_transfers nd' \<noteq> None \<longrightarrow> nd_meta_data nd' \<noteq> None)"
  using node_run_inv [OF assms(2) node_new_inv [OF assms(1)]] by (auto simp: node_inv_def)

text \<open>
  C15. The work that an event causes ends: it takes at most three rounds, the duty of the event, what
  that leaves to do, and the message about little space; it does not return only if the duty is a
  split of the section whose distribution of rewards does not.
\<close>

theorem event_work_ends:
  "process_while_any A env op nd = three_rounds A env op nd \<and>
   (process_while_any A env op nd = None \<longleftrightarrow>
     (\<exists>pre key sib. op = SectionSplit pre key sib False \<and> begin_split_as_oldie A (env 0) pre key sib nd = None))"
proof -
  have "handle A S op nd = None \<longleftrightarrow> (\<exists>pre key sib. op = SectionSplit pre key sib False \<and> begin_split_as_oldie A S pre key sib nd = None)" for S
    by (auto simp: handle_def split: NodeDuty.split bool.split)
  then show ?thesis by (simp add: process_while_any_rounds [symmetric] process_while_any_returns)
qed

section \<open>What is sent\<close>

fun sends :: "NodeDuty \<Rightarrow> Message \<Rightarrow> bool" where
  "sends (Send om) m \<longleftrightarrow> msg om = m"
| "sends (SendToNodes ts m') m \<longleftrightarrow> m' = m"
| "sends d m \<longleftrightarrow> False"

text \<open>Duties without further ones: what they send, and that they leave wallets and metadata alone.\<close>

lemma handle_leaf_effect:
  assumes "leaf d" and "handle A S d nd = Some (r, nd')"
  shows "(\<exists>new. nd_sent nd' = nd_sent nd @ new \<and> (\<forall>x \<in> set new. sends d (snd (snd (snd x))))) \<and> nd_transfers nd' = nd_transfers nd"
proof (cases d)
  case (Send om)
  then have "nd' = snd (node_send A S om nd)" using assms(2) by (auto simp: handle_def no_duties_def)
  with node_send_adds [of A S om nd] Send show ?thesis by auto
next
  case (SendToNodes ts m)
  with assms(2) send_to_nodes_adds [of S ts m nd] show ?thesis
    by (auto simp: handle_def no_duties_def)
qed (use assms in \<open>auto simp: handle_def with_funds_def no_duties_def split: sum.split_asm\<close>)

lemma handle_all_leaf_effect:
  assumes "list_all leaf ds" and "handle_all A env n ds nd = Some (ops, nd')"
  shows "(\<exists>new. nd_sent nd' = nd_sent nd @ new \<and> (\<forall>x \<in> set new. \<exists>d \<in> set ds. sends d (snd (snd (snd x))))) \<and> nd_transfers nd' = nd_transfers nd"
  using assms
proof (induction ds arbitrary: n nd ops)
  case (Cons d ds)
  then obtain r nd1 ops1 where h: "handle A (env n) d nd = Some (r, nd1)" "handle_all A env (Suc n) ds nd1 = Some (ops1, nd')"
    by (auto split: option.split_asm)
  from Cons.prems handle_leaf_effect [OF _ h(1)] Cons.IH [OF _ h(2)] show ?case by fastforce
qed simp

text \<open>A message that has data stored.\<close>

fun stores_data :: "Message \<Rightarrow> bool" where
  "stores_data (NodeCmdM (NodeMetadataCmd cmd origin) i t) = True"
| "stores_data m = False"

definition quiet :: "NodeDuty \<Rightarrow> bool" where
  "quiet d \<longleftrightarrow> (\<forall>m. sends d m \<longrightarrow> \<not> stores_data m)"

named_theorems quiet_rules \<open>handlers that have no data stored\<close>

definition quiet_result :: "NodeDuty result \<Rightarrow> bool" where
  "quiet_result r \<longleftrightarrow> (\<forall>d. r = Inr d \<longrightarrow> quiet d)"

lemma quiet_result_simps [simp]: "quiet_result (Inl e)" "quiet_result (Inr d) \<longleftrightarrow> quiet d"
  by (simp_all add: quiet_result_def)

lemma quiet_duties [simp]: "quiet NoOp" "quiet (SetNodeJoinsAllowed b)" "quiet (AddPayment c)"
  "quiet (Send om) \<longleftrightarrow> \<not> stores_data (msg om)" "quiet (SendToNodes ts m) \<longleftrightarrow> \<not> stores_data m"
  by (auto simp: quiet_def)

lemma quiet_reply [simp]: "quiet (cmd_error_to E e i d)" "quiet (query_response_to E r i d)"
  by (simp_all add: cmd_error_to_def query_response_to_def)

lemma quiet_and_then [intro]: "(\<And>a. r = Inr a \<Longrightarrow> quiet_result (f a)) \<Longrightarrow> quiet_result (and_then r f)"
  by (cases r) simp_all

lemma quiet_map_reply [quiet_rules]: "quiet_result (map_reply E response res i u)"
  by (auto simp: map_reply_def split: sum.splits)

lemma quiet_reads [quiet_rules]:
  "quiet_result (blob_reg_read E R rd i u s)" "quiet_result (map_read E M A io st mr i u w)" "quiet_result (sequence_read E Q B io' st' sr i u w)"
proof -
  show "quiet_result (blob_reg_read E R rd i u s)"
    by (cases rd) (auto simp: blob_reg_get_def Let_def split: sum.splits)
  show "quiet_result (map_read E M A io st mr i u w)"
    by (cases mr)
      (simp_all add: map_get_def map_get_value_def map_get_shell_def map_get_version_def map_list_entries_def map_list_keys_def
        map_list_values_def map_list_permissions_def map_list_user_permissions_def quiet_rules)
  show "quiet_result (sequence_read E Q B io' st' sr i u w)"
    by (cases sr)
      (simp_all add: seq_get_def seq_get_range_def seq_get_last_entry_def seq_get_owner_def seq_get_user_permissions_def
        seq_get_public_policy_def seq_get_private_policy_def quiet_rules)
qed

lemma quiet_metadata_read [quiet_rules]: "quiet_result (metadata_read E P io q i u stores w)"
  by (cases q) (simp_all add: quiet_rules)

lemma quiet_transfers [quiet_rules]:
  "quiet_result (fst (transfers_validate E P n st i src t))" "quiet_result (fst (transfers_credit_without_proof E P sig ks tr t))"
  "quiet_result (fst (transfers_history E P pk i src t))" "quiet_result (fst (transfers_balance E P pk i src t))"
  "quiet_result (fst (transfers_register E P p i t))" "list_all quiet (get_store_cost E P b i src t)"
proof -
  show "quiet_result (fst (transfers_validate E P n st i src t))"
    by (auto simp: transfers_validate_def split: prod.splits sum.splits)
  show "quiet_result (fst (transfers_credit_without_proof E P sig ks tr t))"
    by (auto simp: transfers_credit_without_proof_def on_replicas_def replica_credit_without_proof_def Let_def
        split: prod.splits sum.splits)
  show "quiet_result (fst (transfers_history E P pk i src t))" by (auto simp: transfers_history_def split: prod.splits)
  show "quiet_result (fst (transfers_balance E P pk i src t))" by (auto simp: transfers_balance_def split: prod.splits)
  show "quiet_result (fst (transfers_register E P p i t))"
    by (auto simp: transfers_register_def split: prod.splits sum.splits)
  show "list_all quiet (get_store_cost E P b i src t)" by (simp add: get_store_cost_def)
qed

text \<open>The duties of clients, except for payments, have no data stored; none of them sends anything itself.\<close>

definition quiet_duty_list :: "NodeDuties result \<Rightarrow> bool" where
  "quiet_duty_list r \<longleftrightarrow> (\<forall>ds. r = Inr ds \<longrightarrow> list_all quiet ds)"

lemma quiet_duty_list_simps [simp]: "quiet_duty_list (Inl e)" "quiet_duty_list (Inr ds) \<longleftrightarrow> list_all quiet ds"
  "quiet_duty_list (fst (one_duty res)) \<longleftrightarrow> quiet_result (fst res)"
  by (simp_all add: quiet_duty_list_def) (cases "fst res"; simp add: one_duty_def)

lemma client_duty_quiet:
  assumes "client_duty user op" and "\<And>m origin. op \<noteq> ProcessDataPayment m origin"
  shows "quiet_duty_list (fst (handle_duty A S op nd))"
proof -
  have t: "quiet_duty_list (fst (with_transfers S f nd))" if "\<And>t. quiet_duty_list (fst (f t))" for f
    using that by (auto simp: with_transfers_def Let_def split: sum.splits)
  have r: "quiet_duty_list (handle_process_read A S q i u nd)" for q i u
    using quiet_metadata_read [unfolded quiet_result_def, rule_format]
    by (auto simp: handle_process_read_def Let_def quiet_duty_list_def and_then_Inr_iff)
  show ?thesis
  proof (cases op)
    case (ProcessDataPayment m origin)
    with assms(2) show ?thesis by blast
  qed (use assms(1) in \<open>simp_all add: client_duty_def quiet_rules r t\<close>)
qed

lemma client_duty_sent: "client_duty user op \<Longrightarrow> nd_sent (snd (handle_duty A S op nd)) = nd_sent nd"
  by (cases op) (simp_all add: client_duty_def with_transfers_def Let_def split: sum.splits)

text \<open>The work a client causes.\<close>

definition duties_of :: "NodeDuties result \<Rightarrow> NodeDuties" where
  "duties_of r = (case r of Inr ds \<Rightarrow> ds | Inl _ \<Rightarrow> [])"

lemma client_rounds:
  assumes "client_duty user op" and "process_while_any A env op nd = Some nd'" and "handle_duty A (env 0) op nd = (r, nd1)"
  shows "list_all leaf (duties_of r)" and "\<exists>ops. handle_all A env 1 (duties_of r) nd1 = Some (ops, nd')"
proof -
  have "op \<noteq> ReadChunk rd i u" for rd i u using assms(1) by (auto simp: client_duty_def)
  then have "all_leaves r" using handle_duty_leaves [of op A "env 0" nd] assms(3) by simp
  then show l: "list_all leaf (duties_of r)" by (auto simp: all_leaves_def duties_of_def split: sum.splits)
  have "handle A (env 0) op nd = Some (r, nd1)" using assms(1,3) by (cases op) (auto simp: handle_def client_duty_def)
  then have "handle_all A env 0 [op] nd = Some (duties_of r, nd1)" by (simp add: duties_of_def)
  then have "process_ops A env 1 (duties_of r) nd1 = Some nd'"
    using assms(2) by (simp add: process_while_any_def process_ops.simps [of A env 0] del: handle_all.simps)
  with process_ops_leaf [OF l, of A env 1 nd1] show "\<exists>ops. handle_all A env 1 (duties_of r) nd1 = Some (ops, nd')" by auto
qed

section \<open>The way of a client's write\<close>

text \<open>The modules see the network as it is; this changes nothing of the wallets.\<close>

lemma live_transfers_replicas:
  "replicas_inv E R K (tr_replicas (live_transfers N t)) \<longleftrightarrow> replicas_inv E R K (tr_replicas t)"
  "events_of E R K (tr_replicas (live_transfers N t)) = events_of E R K (tr_replicas t)"
  by (simp_all add: live_transfers_def replicas_inv_def events_of_def on_disk_def fun_eq_iff)

text \<open>What a handled payment for data leaves in the funds.\<close>

lemma add_payment_first:
  assumes "handle_all A env n [AddPayment c, Send om] nd = Some (ops, nd')" and "nd_section_funds nd = Some funds"
  shows "nd_section_funds nd' = Some (add_payment c funds)"
    and "\<exists>new. nd_sent nd' = nd_sent nd @ new \<and> (\<forall>x \<in> set new. snd (snd (snd x)) = msg om \<and> fst (snd x) = dst om)"
proof -
  let ?nd1 = "nd\<lparr>nd_section_funds := Some (add_payment c funds)\<rparr>"
  have a: "handle A (env n) (AddPayment c) nd = Some (Inr [], ?nd1)"
    using assms(2) by (simp add: handle_def with_funds_def get_section_funds_def ok_or_def no_duties_def)
  obtain r nd2 where s: "node_send A (env (Suc n)) om ?nd1 = (r, nd2)" by (metis surj_pair)
  then have "handle A (env (Suc n)) (Send om) ?nd1 = Some (map_sum id (\<lambda>_. []) r, nd2)" by (simp add: handle_def no_duties_def)
  with a assms(1) have nd': "nd' = nd2" by (auto split: sum.split_asm)
  have nd2: "nd2 = snd (node_send A (env (Suc n)) om ?nd1)" by (simp add: s)
  from node_send_adds [of A "env (Suc n)" om ?nd1] show "\<exists>new. nd_sent nd' = nd_sent nd @ new \<and> (\<forall>x \<in> set new. snd (snd (snd x)) = msg om \<and> fst (snd x) = dst om)"
    by (auto simp: nd' nd2)
  show "nd_section_funds nd' = Some (add_payment c funds)" by (simp add: nd' nd2)
qed

lemma add_payment_recorded: "btm_get (funds_payments (add_payment c funds)) (cap_id c) = Some c"
  by (cases funds) simp_all

text \<open>
  The work of a payment for data that has something stored: what was checked and what is recorded.
\<close>

lemma payment_stored:
  assumes A: "replica_api_ok E (tp_replica P) K" and W: "wallet_ok (ra_wallet (tp_replica P))"
    and api: "na_ext A = E" "na_transfers A = P"
    and node: "nd_transfers nd = Some t0" "nd_section_funds nd = Some funds" and t: "t = live_transfers (se_network (env 0)) t0"
    and inv: "replicas_inv E (tp_replica P) K (tr_replicas t0)" and K: "tap_recipient payment \<in> K"
    and room: "\<forall>pk. length (events_of E (tp_replica P) K (tr_replicas t0) pk) + 1 < 2 ^ 64"
    and work: "process_while_any A env (ProcessDataPayment (CmdM (DataCmdMsg payment cmd) i target) user) nd = Some nd'"
    and sent: "(src, d, ag, NodeCmdM (NodeMetadataCmd cmd' origin) i' target') \<in> set (drop (length (nd_sent nd)) (nd_sent nd'))"
  shows "cmd' = cmd \<and> origin = user \<and> d = DstSection (data_cmd_dst_address E cmd) \<and>
    tap_recipient payment = section_wallet_id (tp_bls P) t \<and>
    (\<exists>bytes. tp_ser_cmd P cmd = Some bytes \<and>
       rate_limit_from (tp_float P) (tp_full P) (of_nat (length bytes)) (tr_rate_limit t) \<le> tap_amount payment) \<and>
    (\<exists>funds' t'. nd_section_funds nd' = Some funds' \<and> nd_transfers nd' = Some t' \<and>
       btm_get (funds_payments funds') (cap_id (credit_proof payment)) = Some (credit_proof payment) \<and>
       TransferRegistered payment \<in> set (events_of E (tp_replica P) K (tr_replicas t') (tap_sender payment)))"
proof -
  let ?op = "ProcessDataPayment (CmdM (DataCmdMsg payment cmd) i target) user"
  obtain r t1 where pay: "process_payment E P (CmdM (DataCmdMsg payment cmd) i target) user t = (r, t1)" by (metis surj_pair)
  let ?nd1 = "nd\<lparr>nd_transfers := Some t1\<rparr>"
  have h: "handle_duty A (env 0) ?op nd = (r, ?nd1)"
    using pay by (simp add: with_transfers_def get_transfers_def ok_or_def node api t [symmetric])
  have "client_duty user ?op" by (simp add: client_duty_def)
  note rounds = client_rounds [OF this work h]
  from rounds(2) obtain ops where all: "handle_all A env 1 (duties_of r) ?nd1 = Some (ops, nd')" by blast
  note eff = handle_all_leaf_effect [OF rounds(1) all]
  from eff sent obtain dt where dt: "dt \<in> set (duties_of r)" "sends dt (NodeCmdM (NodeMetadataCmd cmd' origin) i' target')" by force
  then obtain duties where r: "r = Inr duties" by (cases r) (auto simp: duties_of_def)
  have live: "replicas_inv E (tp_replica P) K (tr_replicas t)" "\<forall>pk. length (events_of E (tp_replica P) K (tr_replicas t) pk) + 1 < 2 ^ 64"
    using inv room by (simp_all add: t live_transfers_replicas)
  from pay [unfolded r] show ?thesis
  proof (cases rule: process_payment_cases)
    case (refused em)
    with dt r show ?thesis by (auto simp: duties_of_def payment_error_def cmd_error_to_def)
  next
    case (paid cp bytes t2)
    then have "dt = forward_data E cmd user i" using dt r
      by (auto simp: duties_of_def payment_error_def cmd_error_to_def split: if_splits)
    then obtain om where om: "dt = Send om" "forward_data E cmd user i = Send om" by (simp add: forward_data_def)
    have mem: "Send om \<in> set duties" using dt(1) r om(1) by (simp add: duties_of_def)
    have "msg om = NodeCmdM (NodeMetadataCmd cmd' origin) i' target'" using dt(2) om(1) by simp
    note ok = forwarded_data_is_paid [OF A W live(1) K live(2) pay [unfolded r] mem this]
    have cp: "cp = credit_proof payment" using ok paid(5) by (auto simp: payment_error_def cmd_error_to_def forward_data_def split: if_splits)
    have ds: "duties_of r = [AddPayment cp, Send om]"
      using mem paid(5) r om(2) by (auto simp: duties_of_def payment_error_def cmd_error_to_def forward_data_def split: if_splits)
    have f1: "nd_section_funds ?nd1 = Some funds" using node(2) by simp
    note ap = add_payment_first [OF all [unfolded ds] f1]
    have "d = dst om" using ap(2) sent by force
    moreover have "nd_transfers nd' = Some t1" using eff by simp
    ultimately show ?thesis using ok ap(1) add_payment_recorded [of cp funds] cp by auto
  qed
qed

text \<open>Without a payment nothing is stored; a message of a client that cannot be mapped has no effect.\<close>

lemma client_work_quiet:
  assumes "client_duty user op" and "process_while_any A env op nd = Some nd'" and "\<not> (\<exists>m u. op = ProcessDataPayment m u)"
  shows "\<forall>x \<in> set (drop (length (nd_sent nd)) (nd_sent nd')). \<not> stores_data (snd (snd (snd x)))"
proof -
  obtain r nd1 where h: "handle_duty A (env 0) op nd = (r, nd1)" by (metis surj_pair)
  note rounds = client_rounds [OF assms(1,2) h]
  have "quiet_duty_list r" using client_duty_quiet [OF assms(1), of A "env 0" nd] assms(3) h by auto
  then have q: "list_all quiet (duties_of r)" by (auto simp: quiet_duty_list_def duties_of_def split: sum.splits)
  have "nd_sent nd1 = nd_sent nd" using client_duty_sent [OF assms(1), of A "env 0" nd] h by simp
  with rounds(2) handle_all_leaf_effect [OF rounds(1)] q show ?thesis by (fastforce simp: list_all_iff quiet_def)
qed

lemma client_event_work:
  assumes "node_event A M (ClientMessageReceived m user, polls, env) nd = Returns nd'" and "nd' \<noteq> nd"
  obtains op where "process_while_any A env op nd = Some nd'" and "client_duty user op"
    and "\<forall>m' u. op = ProcessDataPayment m' u \<longrightarrow> m' = m \<and> u = user \<and> (\<exists>payment cmd i t. m = CmdM (DataCmdMsg payment cmd) i t)"
  using assms user_msg_confined [where M = M and m = m and user = user and d = "DstNode (rt_name (se_network (env 0)))"]
  by (auto simp: node_event_def map_routing_event_def split: Mapping.split_asm option.split_asm)

section \<open>A concrete node\<close>

definition toy_node_api :: "(ReplicaEvent list_db, ReplicaEvent list_disk, ReplicaEvent list, nat, unit,
    string \<Rightarrow> ChunkMetadata option, string \<Rightarrow> HolderMetadata option) node_api" where
  "toy_node_api = \<lparr>na_ext = example_ext, na_transfers = toy_transfers_api, na_metadata = toy_api, na_blobs = small_api,
     na_ser_credit = (\<lambda>c. Some []), na_key_text = (\<lambda>k. []), na_id_text = (\<lambda>i. [])\<rparr>"

definition toy_message_api :: message_api where
  "toy_message_api = \<lparr>debug_msg = (\<lambda>m. []), message_from = (\<lambda>b. None)\<rparr>"

definition toy_env :: "(nat, string \<Rightarrow> ChunkMetadata option, string \<Rightarrow> HolderMetadata option) step_env" where
  "toy_env = (let fine = (\<lparr>create_dir_ok = True, probe_ok = True, unprobe_ok = True\<rparr>, \<lparr>open_ok = True, read_err = None, init_err = None\<rparr>) in
     \<lparr>se_network = Wallet_Guarantees.toy_routing, se_node_key = toy_key, se_io = io_fine, se_reset_io = (\<lambda>i. WriteOk), se_maps_io = fine,
      se_seqs_io = fine, se_chunks_io = fine, se_dbs_metadata = (Inr (\<lambda>k. None), Inr (\<lambda>k. None), Inr 0),
      se_dbs_capacity = (Inr (\<lambda>k. None), Inr (\<lambda>k. None), Inr 0), se_new_id = 8, se_random_sig = SigEd25519 0,
      se_random_keys = PublicKeySet 7, se_serialize_ok = True, se_reached = (\<lambda>d. True), se_joins_result = (\<lambda>b. Inr ())\<rparr>)"

text \<open>A node that starts on an empty disk, without a wallet in its settings.\<close>

definition toy_start :: start_env where
  "toy_start = \<lparr>st_home = Some [''home''], st_cwd = [], st_dir_ok = True, st_secret = 9, st_public = 171,
     st_key_io = (FileWritten, FileWritten), st_joined = (\<lambda>c. Inr ())\<rparr>"

lemma toy_start_key: "\<exists>d. start_reward_key byte_codec toy_start (config_default empty_net) node_dir [] = Returns (Inr (Bls 171), d) \<and>
    (\<forall>p. fst p \<noteq> node_dir \<longrightarrow> fs_read d p = None)"
  by (simp add: start_reward_key_def config_default_def store_new_reward_keypair_def sk_to_hex_def byte_codec_def write_whole_def
      toy_start_def)

lemma chunk_storage_new_empty:
  assumes "\<forall>p. fst p \<noteq> node_dir \<longrightarrow> fs_read (disk w) p = None"
  shows "\<exists>st w'. chunk_storage_new B (fst (se_chunks_io toy_env)) (snd (se_chunks_io toy_env)) name node_dir w = (Inr st, w')"
proof -
  let ?dir = "node_dir @ [CHUNK_STORE_DIR, subdir BlobKind]"
  have n: "fs_read (disk w) (node_dir @ xs, f) = None" if "xs \<noteq> []" for xs f
    using assms that by (simp add: )
  show ?thesis
    by (simp add: chunk_storage_new_def new_def n create_new_root_def toy_env_def add_local_store_def register_store_def Let_def
        delete_conv' update_conv')
qed

lemma toy_node_starts:
  "\<exists>nd d'. node_new toy_node_api byte_codec toy_start toy_env (config_default empty_net) db [] = Returns (Inr nd, d') \<and>
     nd_chunks nd \<noteq> None \<and> nd_section_funds nd = None"
proof -
  obtain root_dir where r: "config_root_dir (st_home toy_start) (config_default empty_net) = Inr root_dir"
    by (simp add: config_root_dir_def config_default_def project_dirs_def toy_start_def ok_or_def)
  let ?dir = "node_root (st_cwd toy_start) root_dir"
  obtain d where d: "start_reward_key byte_codec toy_start (config_default empty_net) ?dir [] = Returns (Inr (Bls 171), d)"
      "\<forall>p. fst p \<noteq> ?dir \<longrightarrow> fs_read d p = None"
    using toy_start_key by blast
  obtain st w where "chunk_storage_new small_api (fst (se_chunks_io toy_env)) (snd (se_chunks_io toy_env)) (rt_name (se_network toy_env)) ?dir
      \<lparr>disk = d, space = used_space_new (config_max_capacity (config_default empty_net))\<rparr> = (Inr st, w)"
    using chunk_storage_new_empty [of ?dir "\<lparr>disk = d, space = used_space_new (config_max_capacity (config_default empty_net))\<rparr>"
        small_api "rt_name (se_network toy_env)"] d(2)
    by (auto simp del: split_paired_All)
  then have "\<exists>nd d'. start_node toy_node_api toy_env (config_default empty_net) ?dir (Bls 171) db d = (Inr nd, d') \<and>
      nd_chunks nd \<noteq> None \<and> nd_section_funds nd = None"
    by (simp add: start_node_def Let_def toy_node_api_def)
  moreover have "st_dir_ok toy_start" "network_new toy_start (config_default empty_net) = Inr ()" by (simp_all add: toy_start_def network_new_def)
  ultimately show ?thesis by (simp add: node_new_def r d(1) Let_def)
qed

lemma toy_node_runs:
  "\<exists>nd d'. node_new toy_node_api byte_codec toy_start toy_env (config_default empty_net) db [] = Returns (Inr nd, d') \<and>
     nd_chunks nd \<noteq> None \<and> node_run toy_node_api toy_message_api [(MemberLeft 5 5, \<lambda>n. Inl 0, \<lambda>n. toy_env)] nd = Returns nd"
proof -
  obtain nd d' where new: "node_new toy_node_api byte_codec toy_start toy_env (config_default empty_net) db [] = Returns (Inr nd, d')"
    and nd: "nd_chunks nd \<noteq> None" "nd_section_funds nd = None"
    using toy_node_starts by blast
  have "handle toy_node_api toy_env (ProcessLostMember 5 5) nd = Some (Inl NoSectionFunds, nd)"
    using nd(2) by (simp add: handle_def with_funds_def get_section_funds_def ok_or_def)
  then have "node_run toy_node_api toy_message_api [(MemberLeft 5 5, \<lambda>n. Inl 0, \<lambda>n. toy_env)] nd = Returns nd"
    by (simp add: node_event_def map_routing_event_def process_while_any_rounds three_rounds_def)
  with new nd(1) show ?thesis by blast
qed

theorem roles_exclusive_witness:
  "\<exists>nd d' nd'. node_new toy_node_api byte_codec toy_start toy_env (config_default empty_net) (\<lambda>p. None) [] = Returns (Inr nd, d') \<and>
     node_run toy_node_api toy_message_api [(MemberLeft 5 5, \<lambda>n. Inl 0, \<lambda>n. toy_env)] nd = Returns nd' \<and>
     nd_chunks nd' \<noteq> None \<and> nd_meta_data nd' = None \<and> nd_transfers nd' = None"
proof -
  obtain nd d' where new: "node_new toy_node_api byte_codec toy_start toy_env (config_default empty_net) (\<lambda>p. None) [] = Returns (Inr nd, d')"
    and nd: "nd_chunks nd \<noteq> None"
    and run: "node_run toy_node_api toy_message_api [(MemberLeft 5 5, \<lambda>n. Inl 0, \<lambda>n. toy_env)] nd = Returns nd"
    using toy_node_runs by blast
  from roles_exclusive [OF new run] nd new run show ?thesis by blast
qed

text \<open>An elder with the payer's wallet.\<close>

definition toy_elder :: "(ReplicaEvent list_db, ReplicaEvent list_disk, nat, string \<Rightarrow> ChunkMetadata option, string \<Rightarrow> HolderMetadata option) Node" where
  "toy_elder = \<lparr>nd_genesis = False, nd_root_dir = [], nd_name = 0, nd_node_id = toy_key, nd_reward_key = toy_key, nd_prefix = Prefix 0 0,
     nd_world = world_two, nd_db_disk = (\<lambda>p. None), nd_chunks = None, nd_meta_data = Some toy_stores, nd_transfers = Some toy_transfers,
     nd_section_funds = Some (KeepingNodeWallets (reward_wallets_new []) []), nd_sent = [], nd_joins_allowed = False\<rparr>"

lemma toy_elder_inv: "node_inv toy_elder"
  by (simp add: node_inv_def toy_elder_def)

lemma toy_live: "live_transfers (se_network toy_env) toy_transfers = toy_transfers"
  by (simp add: live_transfers_def toy_env_def toy_transfers_def transfers_new_def with_events_def fresh_replica_def Let_def)

text \<open>It takes a paid write and sends it on.\<close>

lemma toy_write:
  "\<exists>nd'. node_event toy_node_api toy_message_api (ClientMessageReceived (CmdM (DataCmdMsg toy_debit toy_cmd) 3 None) (AllClients toy_key),
       polls, \<lambda>n. toy_env) toy_elder = Returns nd' \<and>
     nd_sent nd' = [(SrcSection (prefix_name (Network.our_prefix (se_network toy_env))), DstSection (data_cmd_dst_address example_ext toy_cmd),
       AtDestination, NodeCmdM (NodeMetadataCmd toy_cmd (AllClients toy_key)) (in_response_to example_ext 3) None)]"
proof -
  let ?op = "ProcessDataPayment (CmdM (DataCmdMsg toy_debit toy_cmd) 3 None) (AllClients toy_key)"
  obtain s where s: "process_payment example_ext toy_transfers_api (CmdM (DataCmdMsg toy_debit toy_cmd) 3 None) (AllClients toy_key) toy_transfers =
      (Inr [AddPayment (credit_proof toy_debit), forward_data example_ext toy_cmd (AllClients toy_key) 3], toy_transfers\<lparr>tr_replicas := s\<rparr>)"
    using toy_payment by blast
  let ?nd1 = "toy_elder\<lparr>nd_transfers := Some (toy_transfers\<lparr>tr_replicas := s\<rparr>)\<rparr>"
  have h: "handle toy_node_api toy_env ?op toy_elder =
      Some (Inr [AddPayment (credit_proof toy_debit), forward_data example_ext toy_cmd (AllClients toy_key) 3], ?nd1)"
    by (simp add: handle_def with_transfers_def get_transfers_def ok_or_def toy_live toy_node_api_def s) (simp add: toy_elder_def toy_live s)
  let ?nd2 = "?nd1\<lparr>nd_section_funds := Some (add_payment (credit_proof toy_debit) (KeepingNodeWallets (reward_wallets_new []) []))\<rparr>"
  have a: "handle toy_node_api toy_env (AddPayment (credit_proof toy_debit)) ?nd1 = Some (Inr [], ?nd2)"
    by (simp add: handle_def with_funds_def get_section_funds_def ok_or_def no_duties_def) (simp add: toy_elder_def)
  let ?fwd = "\<lparr>msg = NodeCmdM (NodeMetadataCmd toy_cmd (AllClients toy_key)) (in_response_to example_ext 3) None,
    dst = DstSection (data_cmd_dst_address example_ext toy_cmd), section_source = True, aggregation = AtDestination\<rparr>"
  have f: "forward_data example_ext toy_cmd (AllClients toy_key) 3 = Send ?fwd" by (simp add: forward_data_def)
  let ?sent = "[(SrcSection (prefix_name (Network.our_prefix (se_network toy_env))), DstSection (data_cmd_dst_address example_ext toy_cmd),
    AtDestination, NodeCmdM (NodeMetadataCmd toy_cmd (AllClients toy_key)) (in_response_to example_ext 3) None)]"
  have "node_send toy_node_api toy_env ?fwd ?nd2 = (Inr (), ?nd2\<lparr>nd_sent := ?sent\<rparr>)"
    by (simp add: node_send_def send_message_def Let_def) (simp add: toy_env_def toy_elder_def Let_def)
  then have "handle toy_node_api toy_env (Send ?fwd) ?nd2 = Some (Inr [], ?nd2\<lparr>nd_sent := ?sent\<rparr>)"
    by (simp add: handle_def no_duties_def)
  with h a have "process_while_any toy_node_api (\<lambda>n. toy_env) ?op toy_elder = Some (?nd2\<lparr>nd_sent := ?sent\<rparr>)"
    by (simp add: process_while_any_rounds three_rounds_def f)
  then show ?thesis
    by (simp add: node_event_def map_routing_event_def match_user_sent_msg_def)
qed

end
