(* ===== verification/Node_Space.thy ===== *)
theory Node_Space
  imports Node_Guarantees
begin

text \<open>
  The used space of a node through its life: every handler that touches the disk, in any role,
  keeps the recorded total within the configured capacity.
\<close>

section \<open>Steps of the stores\<close>

definition keeps_space :: "world \<Rightarrow> world \<Rightarrow> bool" where
  "keeps_space w w' \<longleftrightarrow> (space_wf (space w) \<longrightarrow> space_wf (space w')) \<and> max_capacity (space w') = max_capacity (space w)"

named_theorems space_rules \<open>steps that keep the total within the capacity\<close>

lemma keeps_space_refl [space_rules]: "keeps_space w w"
  by (simp add: keeps_space_def)

lemma keeps_space_trans: "keeps_space w w1 \<Longrightarrow> keeps_space w1 w2 \<Longrightarrow> keeps_space w w2"
  by (simp add: keeps_space_def)

lemma keeps_space_disk [simp]:
  "keeps_space w (w'\<lparr>disk := d\<rparr>) = keeps_space w w'" "keeps_space (w\<lparr>disk := d\<rparr>) w' = keeps_space w w'"
  by (simp_all add: keeps_space_def)

lemma keeps_space_op: "exec_op C p w = (r, w') \<Longrightarrow> keeps_space w w'"
  using exec_op_wf exec_op_max_capacity unfolding keeps_space_def by blast

lemma keeps_space_increase: "increase C io sid n w = (r, w') \<Longrightarrow> keeps_space w w'"
  and keeps_space_decrease: "decrease C io sid n w = (r, w') \<Longrightarrow> keeps_space w w'"
  using keeps_space_op [of C "Increase io sid n"] keeps_space_op [of C "Decrease io sid n"] by simp_all

lemma keeps_space_add: "add_local_store C io dir w = (r, w') \<Longrightarrow> keeps_space w w'"
  using keeps_space_op [of C "AddLocalStore io dir" w "and_then r (\<lambda>_. Inr ())" w'] by simp

lemma keeps_space_reset [space_rules]: "keeps_space w (reset C io w)"
  using keeps_space_op [of C "Reset io" w] by simp

lemma keeps_space_new [space_rules]: "keeps_space w (snd (new A kind rio aio dir w))"
  by (auto simp: new_def Let_def intro: keeps_space_refl dest: keeps_space_add split: prod.splits sum.splits)

lemma keeps_space_do_delete [space_rules]: "keeps_space w (snd (do_delete A io cs p w))"
  by (auto simp: do_delete_def intro: keeps_space_refl dest: keeps_space_decrease split: option.splits prod.splits sum.splits)

lemma keeps_space_delete [space_rules]: "keeps_space w (snd (delete A io cs i w))"
  by (auto simp: delete_def space_rules split: sum.splits)

lemma keeps_space_put [space_rules]: "keeps_space w (snd (put A io cs c w))"
proof -
  have d: "do_delete A (del_io io) cs p w = (r, w1) \<Longrightarrow> keeps_space w w1" for p r w1
    using keeps_space_do_delete [of w A "del_io io" cs p] by simp
  show ?thesis
    by (auto simp: put_def Let_def intro: keeps_space_refl d
        dest!: keeps_space_increase keeps_space_decrease dest!: d intro: keeps_space_trans
        split: option.splits prod.splits sum.splits bool.splits)
qed

section \<open>Steps of the modules\<close>

lemma keeps_space_chunks [space_rules]:
  "keeps_space w (snd (chunk_storage_new B rio aio name path w))"
  "keeps_space w (snd (chunks_write E B io st wr i u w))"
  "keeps_space w (snd (store_for_replication B io st blob w))"
proof -
  show "keeps_space w (snd (chunk_storage_new B rio aio name path w))"
    using keeps_space_new [of w B BlobKind rio aio path] by (auto simp: chunk_storage_new_def split: prod.splits sum.splits)
  have "keeps_space w (snd (try_store B io st data u w))" for data
    by (auto simp: try_store_def space_rules split: sum.splits)
  then have "try_store B io st data u w = (r, w1) \<Longrightarrow> keeps_space w w1" for data r w1 by (metis snd_conv)
  then have "keeps_space w (snd (store E B io st data i u w))" for data
    by (auto simp: store_def split: prod.splits sum.splits)
  moreover have "delete B (c_delete io) (chunks st) a w = (r, w1) \<Longrightarrow> keeps_space w w1" for a r w1
    using keeps_space_delete [of w B "c_delete io" "chunks st" a] by simp
  then have "keeps_space w (snd (chunk_delete E B io st a i u w))" for a
    by (auto simp: chunk_delete_def space_rules split: prod.splits sum.splits Blob.splits)
  ultimately show "keeps_space w (snd (chunks_write E B io st wr i u w))" by (cases wr) simp_all
  have "put B (c_put io) (chunks st) blob w = (r, w1) \<Longrightarrow> keeps_space w w1" for r w1
    using keeps_space_put [of w B "c_put io" "chunks st" blob] by simp
  then show "keeps_space w (snd (store_for_replication B io st blob w))"
    by (auto simp: store_for_replication_def space_rules split: prod.splits sum.splits)
qed

lemma keeps_space_maps [space_rules]:
  "keeps_space w (snd (map_storage_new B rio aio path w))" "keeps_space w (snd (map_write E M B io st wr i u w))"
proof -
  show "keeps_space w (snd (map_storage_new B rio aio path w))"
    using keeps_space_new [of w B MapKind rio aio path] by (auto simp: map_storage_new_def split: prod.splits sum.splits)
  have "keeps_space w (snd (map_edit_chunk E B io st a u i f w))" for a f
    by (auto simp: map_edit_chunk_def Let_def space_rules split: sum.splits)
  moreover have "keeps_space w (snd (map_create E M B io st m i u w))" for m
    by (auto simp: map_create_def Let_def space_rules)
  moreover have "keeps_space w (snd (map_delete E M B io st a i u w))" for a
    by (auto simp: map_delete_def Let_def space_rules split: sum.splits)
  ultimately show "keeps_space w (snd (map_write E M B io st wr i u w))"
    by (cases wr) (simp_all add: map_set_user_permissions_def map_delete_user_permissions_def map_edit_entries_def)
qed

lemma keeps_space_sequences [space_rules]:
  "keeps_space w (snd (sequence_storage_new B rio aio path w))" "keeps_space w (snd (sequence_write E Q B io st wr i u w))"
proof -
  show "keeps_space w (snd (sequence_storage_new B rio aio path w))"
    using keeps_space_new [of w B SequenceKind rio aio path] by (auto simp: sequence_storage_new_def split: prod.splits sum.splits)
  have "keeps_space w (snd (seq_edit E Q B io st oper i u w))" for oper
    by (auto simp: seq_edit_def seq_edit_chunk_def Let_def space_rules split: sum.splits)
  moreover have "keeps_space w (snd (seq_store E Q B io st s i u w))" for s
    by (auto simp: seq_store_def Let_def space_rules)
  moreover have "keeps_space w (snd (seq_delete E Q B io st a i u w))" for a
    by (auto simp: seq_delete_def Let_def space_rules split: sum.splits)
  ultimately show "keeps_space w (snd (sequence_write E Q B io st wr i u w))" by (cases wr) simp_all
qed

lemma keeps_space_metadata [space_rules]:
  "keeps_space w (snd (metadata_new P mio sio path dbs w))" "keeps_space w (snd (snd (metadata_write E P io cmd i u (stores, w))))"
proof -
  have m: "map_storage_new B rio aio path w = (r, w1) \<Longrightarrow> keeps_space w w1" for B rio aio r w1
    using keeps_space_maps(1) [of w B rio aio path] by simp
  have s: "sequence_storage_new B rio aio path w1 = (r, w2) \<Longrightarrow> keeps_space w1 w2" for B rio aio r w1 w2
    using keeps_space_sequences(1) [of w1 B rio aio path] by simp
  show "keeps_space w (snd (metadata_new P mio sio path dbs w))"
    by (auto simp: metadata_new_def dest!: m s intro: keeps_space_trans split: prod.splits sum.splits)
  show "keeps_space w (snd (snd (metadata_write E P io cmd i u (stores, w))))"
    by (cases cmd) (simp_all add: Let_def space_rules)
qed

section \<open>Steps of the node\<close>

definition node_keeps :: "('db, 'd, 'a, 'm, 'h) Node \<Rightarrow> ('db, 'd, 'a, 'm, 'h) Node \<Rightarrow> bool" where
  "node_keeps nd nd' \<longleftrightarrow> keeps_space (nd_world nd) (nd_world nd')"

text \<open>Steps that leave the disk and the chunks of the node alone.\<close>

definition storage_of :: "('db, 'd, 'a, 'm, 'h) Node \<Rightarrow> world \<times> ChunkStorage option" where
  "storage_of nd = (nd_world nd, nd_chunks nd)"

lemma storage_of_steps:
  "storage_of (snd (node_send A S om nd)) = storage_of nd" "storage_of (snd (send_to_nodes S ts m nd)) = storage_of nd"
  "storage_of (snd (push_state A pre i nd)) = storage_of nd" "storage_of (snd (update_replicas S nd)) = storage_of nd"
  "storage_of (snd (synch_state S rs ws nd)) = storage_of nd" "storage_of (snd (handle_accumulation A S a nd)) = storage_of nd"
  "storage_of (snd (with_transfers S f nd)) = storage_of nd" "storage_of (snd (with_funds g nd)) = storage_of nd"
  "storage_of (snd (push_both_states A pre key sib nd)) = storage_of nd"
proof -
  show "storage_of (snd (node_send A S om nd)) = storage_of nd" "storage_of (snd (send_to_nodes S ts m nd)) = storage_of nd"
    by (simp_all add: storage_of_def)
  have p: "storage_of (snd (push_state A pre i nd)) = storage_of nd" for pre i nd
    by (auto simp: storage_of_def push_state_def Let_def split: option.splits prod.splits)
  show "storage_of (snd (push_state A pre i nd)) = storage_of nd" by (rule p)
  show "storage_of (snd (push_both_states A pre key sib nd)) = storage_of nd" by (simp add: storage_of_def push_both_states_def Let_def p [unfolded storage_of_def])
  show "storage_of (snd (update_replicas S nd)) = storage_of nd"
    by (auto simp: storage_of_def update_replicas_def split: option.splits sum.splits)
  show "storage_of (snd (synch_state S rs ws nd)) = storage_of nd"
    by (auto simp: storage_of_def synch_state_def Let_def split: option.splits)
  show "storage_of (snd (handle_accumulation A S a nd)) = storage_of nd"
    by (auto simp: storage_of_def handle_accumulation_def Let_def split: option.splits sum.splits RewardStage.splits)
  show "storage_of (snd (with_transfers S f nd)) = storage_of nd"
    by (auto simp: storage_of_def with_transfers_def Let_def split: sum.splits)
  show "storage_of (snd (with_funds g nd)) = storage_of nd"
    by (auto simp: storage_of_def with_funds_def split: sum.splits)
qed

lemmas world_of_steps [simp] = storage_of_steps [THEN arg_cong [where f = fst], unfolded storage_of_def fst_conv]
lemmas chunks_of_steps [simp] = storage_of_steps [THEN arg_cong [where f = snd], unfolded storage_of_def snd_conv]

lemma keeps_space_roles:
  "node_keeps nd (snd (level_up A S nd))" "node_keeps nd (snd (level_down A S nd))" "node_keeps nd (snd (begin_split_as_newbie A S key pre nd))"
proof -
  have m: "metadata_new P mio sio path dbs w = (r, w1) \<Longrightarrow> keeps_space w w1" for P mio sio path dbs w r w1
    using keeps_space_metadata(1) [of w P mio sio path dbs] by simp
  have c: "chunk_storage_new B rio aio name path w = (r, w1) \<Longrightarrow> keeps_space w w1" for B rio aio name path w r w1
    using keeps_space_chunks(1) [of w B rio aio name path] by simp
  show up: "node_keeps nd (snd (level_up A S nd))"
    by (auto simp: level_up_def node_keeps_def Let_def space_rules dest!: m intro: keeps_space_trans [OF keeps_space_reset]
        split: sum.splits prod.splits)
  show "node_keeps nd (snd (level_down A S nd))"
    by (auto simp: level_down_def node_keeps_def Let_def dest!: c split: sum.splits prod.splits)
  show "node_keeps nd (snd (begin_split_as_newbie A S key pre nd))"
    using up by (auto simp: begin_split_as_newbie_def node_keeps_def space_rules split: sum.splits prod.splits)
qed

lemma keeps_space_duty: "node_keeps nd (snd (handle_duty A S d nd))"
proof (cases d)
  case (EldersChanged pre key newbie)
  have "update_replicas S nd = (r, nd1) \<Longrightarrow> nd_world nd1 = nd_world nd" for r nd1 using world_of_steps(4) [of S nd] by simp
  with EldersChanged show ?thesis using keeps_space_roles(1) [of nd A S]
    by (auto simp: Let_def node_keeps_def space_rules split: prod.splits sum.splits)
next
  case (ReceiveRewardProposal p)
  then show ?thesis by (auto simp: node_keeps_def Let_def space_rules split: sum.splits)
next
  case (SetNodeWallet w n i src)
  then show ?thesis by (auto simp: node_keeps_def space_rules split: option.splits sum.splits)
next
  case (ProcessLostMember n age)
  obtain r nd1 where w: "with_funds (remove_node_wallet n) nd = (r, nd1)" by fastforce
  then have "nd_world nd1 = nd_world nd" using world_of_steps(8) [of "remove_node_wallet n" nd] by simp
  then show ?thesis unfolding ProcessLostMember
    by (auto simp: w node_keeps_def Let_def keeps_space_refl split: sum.split)
next
  case (ProcessWrite c i u)
  then show ?thesis by (auto simp: node_keeps_def Let_def space_rules split: sum.splits)
next
  case (WriteChunk wr i u)
  then show ?thesis by (auto simp: with_chunks_def node_keeps_def Let_def space_rules split: sum.splits)
next
  case (StoreChunkForReplication b i)
  then show ?thesis by (auto simp: with_chunks_def node_keeps_def Let_def space_rules split: sum.splits)
next
  case (ReplicateChunk a hs i)
  then show ?thesis by (auto simp: with_chunks_def node_keeps_def Let_def space_rules split: sum.splits)
next
  case (GetChunkForReplication a n i)
  then show ?thesis by (auto simp: with_chunks_def node_keeps_def Let_def space_rules split: sum.splits)
qed (simp_all add: keeps_space_roles, simp_all add: node_keeps_def space_rules)

lemma oldie_world: "begin_split_as_oldie A S pre key sib nd = Some (r, nd') \<Longrightarrow> nd_world nd' = nd_world nd"
proof -
  have p: "split_payout A S pre key ws p t nd = Some (r, nd') \<Longrightarrow> nd_world nd' = nd_world nd" for ws p t nd r nd'
    by (auto simp: split_payout_def Let_def split: option.split_asm sum.split_asm prod.split_asm)
  show "begin_split_as_oldie A S pre key sib nd = Some (r, nd') \<Longrightarrow> nd_world nd' = nd_world nd"
    by (auto simp: begin_split_as_oldie_def Let_def dest!: p split: option.split_asm sum.split_asm prod.split_asm if_split_asm)
qed

lemma keeps_space_handle: "handle A S d nd = Some (r, nd') \<Longrightarrow> node_keeps nd nd'"
proof (cases "\<exists>pre key sib. d = SectionSplit pre key sib False")
  case False
  assume "handle A S d nd = Some (r, nd')"
  with False have "nd' = snd (handle_duty A S d nd)" by (auto simp: handle_def split: NodeDuty.splits bool.splits)
  then show ?thesis by (simp add: keeps_space_duty)
qed (auto simp: handle_def node_keeps_def space_rules dest!: oldie_world)

text \<open>The total is within a given capacity, which is the node's.\<close>

definition space_within :: "u64 \<Rightarrow> ('db, 'd, 'a, 'm, 'h) Node \<Rightarrow> bool" where
  "space_within cap nd \<longleftrightarrow> space_wf (space (nd_world nd)) \<and> max_capacity (space (nd_world nd)) = cap"

lemma within_handle: "handle A S d nd = Some (r, nd') \<Longrightarrow> space_within cap nd \<Longrightarrow> space_within cap nd'"
  by (drule keeps_space_handle) (simp add: space_within_def node_keeps_def keeps_space_def)

lemma within_event: "node_event A M e nd = Returns nd' \<Longrightarrow> space_within cap nd \<Longrightarrow> space_within cap nd'"
  using process_while_any_invariant [where P = "space_within cap"] within_handle
  by (fastforce simp: node_event_def split: prod.split_asm outcome.split_asm Mapping.split_asm option.split_asm)

lemma within_run: "node_run A M events nd = Returns nd' \<Longrightarrow> space_within cap nd \<Longrightarrow> space_within cap nd'"
  by (induction events arbitrary: nd) (auto split: outcome.split_asm dest: within_event)

lemma within_new: "node_new A C I S config db d = Returns (Inr nd, d') \<Longrightarrow> space_within (config_max_capacity config) nd"
proof -
  assume "node_new A C I S config db d = Returns (Inr nd, d')"
  then obtain node_dir key d1 where "start_node A S config node_dir key db d1 = (Inr nd, d')"
    by (auto simp: node_new_def Let_def split: sum.split_asm if_split_asm outcome.split_asm prod.split_asm)
  then have "keeps_space \<lparr>disk = d1, space = used_space_new (config_max_capacity config)\<rparr> (nd_world nd)"
    using keeps_space_chunks(1) [of "\<lparr>disk = d1, space = used_space_new (config_max_capacity config)\<rparr>"
        "na_blobs A" "fst (se_chunks_io S)" "snd (se_chunks_io S)" "rt_name (se_network S)" node_dir]
    by (auto simp: start_node_def Let_def split: sum.split_asm prod.split_asm)
  then show ?thesis by (simp add: space_within_def keeps_space_def space_wf_new) (simp add: used_space_new_def)
qed

text \<open>
  A node never uses more space than its settings allow: from its start on, as an adult or an elder,
  through every change of role, whatever is asked of it and whichever accesses to its disk fail,
  the recorded total of the space used by its chunks, maps and sequences is at most the capacity in
  its configuration, and this capacity never changes.
\<close>

theorem node_within_capacity:
  assumes "node_new A C I S config db d = Returns (Inr nd, d')" and "node_run A M events nd = Returns nd'"
  shows "total (nd_world nd') \<le> config_max_capacity config \<and> max_capacity (space (nd_world nd')) = config_max_capacity config"
  using within_run [OF assms(2) within_new [OF assms(1)]] by (auto simp: space_within_def space_wf_def total_def)

theorem node_within_capacity_witness:
  "\<exists>nd d' nd'. node_new toy_node_api byte_codec toy_start toy_env (config_default empty_net) (\<lambda>p. None) [] = Returns (Inr nd, d') \<and>
     node_run toy_node_api toy_message_api [(MemberLeft 5 5, \<lambda>n. Inl 0, \<lambda>n. toy_env)] nd = Returns nd' \<and>
     total (nd_world nd') \<le> config_max_capacity (config_default empty_net)"
proof -
  obtain nd d' where new: "node_new toy_node_api byte_codec toy_start toy_env (config_default empty_net) (\<lambda>p. None) [] = Returns (Inr nd, d')"
    and run: "node_run toy_node_api toy_message_api [(MemberLeft 5 5, \<lambda>n. Inl 0, \<lambda>n. toy_env)] nd = Returns nd"
    using toy_node_runs by blast
  from node_within_capacity [OF new run] new run show ?thesis by blast
qed

end
