(* ===== verification/Node_Chunks.thy ===== *)
theory Node_Chunks
  imports Node_Space
begin

text \<open>
  The blobs of an adult through the life of the node: whatever it is asked by whomever, a blob it holds
  stays, as long as it is an adult and the owner does not delete the blob.
\<close>

section \<open>Duties of an adult\<close>





section \<open>A blob of an adult\<close>






section \<open>Runs\<close>










end
