(* ===== verification/Node_Rewards.thy ===== *)
theory Node_Rewards
  imports Node_Space
begin

text \<open>
  Rewards through the life of a node: whatever messages it gets about a payout, from its start on and
  through every change of its role, it sends a reward to a wallet only with the signature of a quorum.
\<close>

section \<open>The funds\<close>

fun funds_fine :: "bls_api \<Rightarrow> SectionFunds \<Rightarrow> bool" where
  "funds_fine B (KeepingNodeWallets ws payments) = True"
| "funds_fine B (Churning process ws payments) = stage_inv B (stage process)"

definition rewards_inv :: "bls_api \<Rightarrow> ('db, 'd, 'a, 'm, 'h) Node \<Rightarrow> bool" where
  "rewards_inv B nd \<longleftrightarrow> (\<forall>funds. nd_section_funds nd = Some funds \<longrightarrow> funds_fine B funds)"

lemma funds_fine_steps [simp]:
  "funds_fine B (add_payment c funds) = funds_fine B funds" "funds_fine B (set_node_wallet n wallet age funds) = funds_fine B funds"
  "funds_fine B (remove_node_wallet n funds) = funds_fine B funds"
  by (cases funds; simp)+

lemma funds_fine_merge [simp]: "funds_fine B (merge_node_wallets ws funds) = funds_fine B funds"
  unfolding merge_node_wallets_def
proof (induction ws arbitrary: funds)
  case (Cons w ws)
  then show ?case by (cases w) simp
qed simp

section \<open>Steps of the node\<close>

text \<open>Steps that leave the funds alone.\<close>

lemma funds_of_steps [simp]:
  "nd_section_funds (snd (push_state A pre i nd)) = nd_section_funds nd" "nd_section_funds (snd (update_replicas S nd)) = nd_section_funds nd"
  "nd_section_funds (snd (with_transfers S f nd)) = nd_section_funds nd" "nd_section_funds (snd (with_chunks h nd)) = nd_section_funds nd"
  "nd_section_funds (snd (push_both_states A pre key sib nd)) = nd_section_funds nd"
proof -
  have p: "nd_section_funds (snd (push_state A pre i nd)) = nd_section_funds nd" for pre i nd
    by (auto simp: push_state_def Let_def split: option.splits prod.splits)
  show "nd_section_funds (snd (push_state A pre i nd)) = nd_section_funds nd" by (rule p)
  show "nd_section_funds (snd (push_both_states A pre key sib nd)) = nd_section_funds nd" by (simp add: push_both_states_def Let_def p)
  show "nd_section_funds (snd (update_replicas S nd)) = nd_section_funds nd"
    by (auto simp: update_replicas_def split: option.splits sum.splits)
  show "nd_section_funds (snd (with_transfers S f nd)) = nd_section_funds nd"
    by (auto simp: with_transfers_def Let_def split: sum.splits)
  show "nd_section_funds (snd (with_chunks h nd)) = nd_section_funds nd"
    by (auto simp: with_chunks_def Let_def split: sum.splits)
qed

lemma rewards_inv_same: "nd_section_funds nd' = nd_section_funds nd \<Longrightarrow> rewards_inv B nd \<Longrightarrow> rewards_inv B nd'"
  by (simp add: rewards_inv_def)

lemma rewards_inv_funds:
  assumes "rewards_inv B nd" and "\<And>funds. funds_fine B (g funds) = funds_fine B funds"
  shows "rewards_inv B (snd (with_funds g nd))"
  using assms by (auto simp: rewards_inv_def with_funds_def get_section_funds_def ok_or_def split: option.split)

lemma churning_fine: "get_churning_funds nd = Inr (process, ws, ps) \<Longrightarrow> rewards_inv B nd \<Longrightarrow> stage_inv B (stage process)"
  by (auto simp: get_churning_funds_def rewards_inv_def split: option.split_asm SectionFunds.split_asm)

lemma rewards_inv_messages:
  assumes "rewards_inv (tp_bls (na_transfers A)) nd"
  shows "rewards_inv (tp_bls (na_transfers A)) (snd (handle_duty A S (ReceiveRewardProposal p) nd))"
    and "rewards_inv (tp_bls (na_transfers A)) (snd (handle_accumulation A S a nd))"
proof -
  let ?B = "tp_bls (na_transfers A)"
  note fine = churning_fine [OF _ assms]
  have proposal: "stage_inv ?B (stage (snd (receive_churn_proposal ?B N p rp)))" if "stage_inv ?B (stage rp)" for N rp
    using receive_churn_proposal_inv [of ?B N p rp] that by (metis prod.collapse)
  show "rewards_inv ?B (snd (handle_duty A S (ReceiveRewardProposal p) nd))"
    using assms fine by (auto simp: Let_def rewards_inv_def proposal split: sum.split)
  show "rewards_inv ?B (snd (handle_accumulation A S a nd))"
  proof (cases "get_churning_funds nd")
    case (Inl e)
    with assms show ?thesis by (simp add: handle_accumulation_def)
  next
    case (Inr q)
    obtain process ws ps where q: "q = (process, ws, ps)" by (cases q)
    obtain r process' where rec: "receive_wallet_accumulation ?B (elder_net A S) a process = (r, process')" by fastforce
    have "stage_inv ?B (stage process')" using receive_wallet_accumulation_inv [OF rec] fine Inr q by blast
    then show ?thesis
      by (auto simp: handle_accumulation_def Inr q rec Let_def rewards_inv_def simp del: stage_inv.simps split: sum.split RewardStage.split)
  qed
qed

lemma rewards_inv_roles:
  assumes "rewards_inv B nd"
  shows "rewards_inv B (snd (level_up A S nd))" and "rewards_inv B (snd (level_down A S nd))"
    and "rewards_inv B (snd (begin_split_as_newbie A S key pre nd))"
proof -
  show up: "rewards_inv B (snd (level_up A S nd))"
    using assms by (auto simp: level_up_def rewards_inv_def Let_def split: sum.splits prod.splits)
  show "rewards_inv B (snd (level_down A S nd))"
    using assms by (auto simp: level_down_def rewards_inv_def Let_def split: sum.splits prod.splits)
  obtain r nd1 where l: "level_up A S nd = (r, nd1)" by fastforce
  show "rewards_inv B (snd (begin_split_as_newbie A S key pre nd))"
    using assms up by (auto simp: begin_split_as_newbie_def l rewards_inv_def reward_process_new_def split: sum.split)
qed

lemma rewards_inv_duty:
  assumes "rewards_inv (tp_bls (na_transfers A)) nd"
  shows "rewards_inv (tp_bls (na_transfers A)) (snd (handle_duty A S d nd))"
proof (cases d)
  case (EldersChanged pre key newbie)
  obtain r nd1 where u: "update_replicas S nd = (r, nd1)" by fastforce
  then have "nd_section_funds nd1 = nd_section_funds nd" using funds_of_steps(2) [of S nd] by simp
  with EldersChanged assms rewards_inv_roles(1) [OF assms, of A S] show ?thesis
    by (auto simp: u Let_def intro: rewards_inv_same [OF _ assms] split: sum.splits)
next
  case (ReceiveRewardProposal p)
  then show ?thesis using rewards_inv_messages(1) [OF assms] by metis
next
  case (SetNodeWallet w n i src)
  with assms show ?thesis
    by (auto simp: rewards_inv_def get_section_funds_def ok_or_def split: option.splits sum.splits)
next
  case (ProcessLostMember n age)
  obtain r nd1 where u: "with_funds (remove_node_wallet n) nd = (r, nd1)" by fastforce
  then have "rewards_inv (tp_bls (na_transfers A)) nd1" using rewards_inv_funds [OF assms, of "remove_node_wallet n"] by simp
  then show ?thesis unfolding ProcessLostMember
    by (auto simp: u Let_def intro: rewards_inv_same split: sum.split)
next
  case (SynchState rs ws)
  with assms show ?thesis by (auto simp: synch_state_def rewards_inv_def Let_def split: option.split)
next
  case (ProcessWrite c i u)
  with assms show ?thesis by (auto simp: Let_def intro: rewards_inv_same split: sum.split)
qed (use assms in \<open>simp_all add: rewards_inv_messages rewards_inv_roles rewards_inv_funds,
  simp_all add: rewards_inv_same [OF _ assms] rewards_inv_def\<close>)

lemma rewards_inv_oldie:
  assumes "begin_split_as_oldie A S pre key sib nd = Some (r, nd')" and "rewards_inv (tp_bls (na_transfers A)) nd"
  shows "rewards_inv (tp_bls (na_transfers A)) nd'"
proof -
  let ?B = "tp_bls (na_transfers A)"
  have payout: "rewards_inv ?B nd2" if "split_payout A S pre key ws p t nd1 = Some (r2, nd2)" "rewards_inv ?B nd1" for ws p t nd1 r2 nd2
    using that
    by (auto simp: split_payout_def rewards_inv_def reward_process_new_def Let_def dest!: reward_and_mint_inv
        split: option.split_asm sum.split_asm prod.split_asm)
  have push: "rewards_inv ?B (snd (push_both_states A pre key sib nd1)) = rewards_inv ?B nd1" for nd1
    by (simp add: rewards_inv_def)
  have t: "rewards_inv ?B (nd\<lparr>nd_transfers := x\<rparr>)" for x using assms(2) by (simp add: rewards_inv_def)
  show ?thesis using assms
    by (auto simp: begin_split_as_oldie_def Let_def push t dest!: payout [OF _ t]
        split: option.split_asm sum.split_asm prod.split_asm if_split_asm)
qed

lemma rewards_inv_handle:
  assumes "handle A S d nd = Some (r, nd')" and "rewards_inv (tp_bls (na_transfers A)) nd"
  shows "rewards_inv (tp_bls (na_transfers A)) nd'"
proof (cases "\<exists>pre key sib. d = SectionSplit pre key sib False")
  case True
  with assms show ?thesis by (auto simp: handle_def intro: rewards_inv_oldie)
next
  case False
  with assms(1) have "nd' = snd (handle_duty A S d nd)" by (auto simp: handle_def split: NodeDuty.splits bool.splits)
  with rewards_inv_duty [OF assms(2)] show ?thesis by simp
qed

section \<open>Runs\<close>

lemma rewards_inv_event:
  "node_event A M e nd = Returns nd' \<Longrightarrow> rewards_inv (tp_bls (na_transfers A)) nd \<Longrightarrow> rewards_inv (tp_bls (na_transfers A)) nd'"
  using process_while_any_invariant [where P = "rewards_inv (tp_bls (na_transfers A))" and A = A] rewards_inv_handle
  by (fastforce simp: node_event_def split: prod.split_asm outcome.split_asm Mapping.split_asm option.split_asm)

lemma rewards_inv_run:
  "node_run A M events nd = Returns nd' \<Longrightarrow> rewards_inv (tp_bls (na_transfers A)) nd \<Longrightarrow> rewards_inv (tp_bls (na_transfers A)) nd'"
  by (induction events arbitrary: nd) (auto split: outcome.split_asm dest: rewards_inv_event)

lemma rewards_inv_new: "node_new A C I S config db d = Returns (Inr nd, d') \<Longrightarrow> rewards_inv B nd"
proof -
  assume "node_new A C I S config db d = Returns (Inr nd, d')"
  then obtain node_dir key d1 where "start_node A S config node_dir key db d1 = (Inr nd, d')"
    by (auto simp: node_new_def Let_def split: sum.split_asm if_split_asm outcome.split_asm prod.split_asm)
  then have "nd_section_funds nd = None" by (auto simp: start_node_def Let_def split: sum.split_asm prod.split_asm)
  then show ?thesis by (simp add: rewards_inv_def)
qed

section \<open>What is paid\<close>

lemma propagated_credits:
  "propagate_credits E cps = Inr ops \<Longrightarrow> Send om \<in> set ops \<Longrightarrow>
    \<exists>cp i. cp \<in> snd ` set cps \<and> msg om = NodeCmdM (NodePropagateTransfer cp) i None"
proof (induction cps arbitrary: ops)
  case (Cons e cps)
  obtain k cp where e: "e = (k, cp)" by (cases e)
  with Cons.prems(1) obtain i ops1 where "propagate_credits E cps = Inr ops1"
      "ops = Send \<lparr>msg = NodeCmdM (NodePropagateTransfer cp) i None, dst = DstSection (xor_name_of_key E (cap_recipient cp)),
         section_source = True, aggregation = AtDestination\<rparr> # ops1"
    by (auto simp: and_then_Inr_iff)
  with Cons.IH [of ops1] Cons.prems(2) show ?case by (auto simp: e)
qed simp

lemma accumulation_duty:
  "receive_wallet_accumulation B N a rp = (Inr duty, rp') \<Longrightarrow> duty = NoOp \<or> (\<exists>acc addr. duty = send_acc_msg N acc addr)"
  by (auto simp: receive_wallet_accumulation_def Let_def
      split: if_split_asm sum.split_asm prod.split_asm RewardStage.split_asm option.split_asm)

lemma paid_with_quorum:
  assumes inv: "rewards_inv (tp_bls (na_transfers A)) nd1"
    and "handle A S1 (ReceiveRewardAccumulation acc) nd1 = Some (Inr ops, nd2)"
    and "Send om \<in> set ops" and "msg om = NodeCmdM (NodePropagateTransfer cp) i target"
  shows "quorum_signature (tp_bls (na_transfers A)) (cap_debiting_replicas_keys cp) (cap_debiting_replicas_sig cp)"
proof -
  let ?B = "tp_bls (na_transfers A)"
  have h: "handle_accumulation A S1 acc nd1 = (Inr ops, nd2)" using assms(2) by (simp add: handle_def)
  obtain process ws ps where c: "get_churning_funds nd1 = Inr (process, ws, ps)"
    using h assms(3) by (auto simp: handle_accumulation_def split: sum.split_asm)
  obtain duty process' where rec: "receive_wallet_accumulation ?B (elder_net A S1) acc process = (Inr duty, process')"
    using h by (auto simp: handle_accumulation_def c Let_def split: sum.split_asm) (metis prod.collapse)
  have stage: "stage_inv ?B (stage process')"
    using receive_wallet_accumulation_inv [OF rec] churning_fine [OF c inv] by blast
  have "duty \<noteq> Send om" using accumulation_duty [OF rec] assms(4) by (auto simp: send_acc_msg_def)
  then obtain cps ops1 where "stage process' = Completed cps" "propagate_credits (na_ext A) cps = Inr ops1" "Send om \<in> set ops1"
    using h assms(3)
    by (auto simp: handle_accumulation_def c rec Let_def and_then_Inr_iff split: RewardStage.split_asm sum.split_asm)
  with propagated_credits [of "na_ext A" cps ops1 om] stage assms(4) show ?thesis by fastforce
qed

text \<open>
  C6. Rewards are paid only with a quorum: from the start of a node on, or from any state in which
  the payout under way is sound, whatever events the node met and whichever changes of its role,
  when it handles a message about a payout and then sends a credit to a wallet, the credit carries
  a signature combined from the shares of more elders, of the key set it names, than the
  threshold of that set.
\<close>

theorem rewards_paid_with_quorum:
  assumes "node_new A C I S config db d = Returns (Inr nd, d') \<or> rewards_inv (tp_bls (na_transfers A)) nd"
    and "node_run A M events nd = Returns nd1"
    and "handle A S1 (ReceiveRewardAccumulation acc) nd1 = Some (Inr ops, nd2)"
    and "Send om \<in> set ops" and "msg om = NodeCmdM (NodePropagateTransfer cp) i target"
  shows "quorum_signature (tp_bls (na_transfers A)) (cap_debiting_replicas_keys cp) (cap_debiting_replicas_sig cp)"
proof -
  have "rewards_inv (tp_bls (na_transfers A)) nd" using assms(1) by (auto intro: rewards_inv_new)
  from paid_with_quorum [OF rewards_inv_run [OF assms(2) this] assms(3-5)] show ?thesis .
qed

text \<open>An elder with a payout under way, one share short of the quorum.\<close>

definition toy_churning :: "(ReplicaEvent list_db, ReplicaEvent list_disk, nat, string \<Rightarrow> ChunkMetadata option, string \<Rightarrow> HolderMetadata option) Node" where
  "toy_churning = toy_elder\<lparr>nd_section_funds := Some (Churning toy_process (reward_wallets_new []) [])\<rparr>"

definition churn_api :: "(ReplicaEvent list_db, ReplicaEvent list_disk, ReplicaEvent list, nat, unit,
    string \<Rightarrow> ChunkMetadata option, string \<Rightarrow> HolderMetadata option) node_api" where
  "churn_api = toy_node_api\<lparr>na_transfers := toy_transfers_api\<lparr>tp_bls := Reward_Process.toy_bls\<rparr>\<rparr>"

theorem rewards_paid_with_quorum_witness:
  "\<exists>ops nd2 om i. handle churn_api toy_env (ReceiveRewardAccumulation (toy_acc 1)) toy_churning = Some (Inr ops, nd2) \<and>
     Send om \<in> set ops \<and> msg om = NodeCmdM (NodePropagateTransfer toy_proof) i None \<and>
     quorum_signature Reward_Process.toy_bls (cap_debiting_replicas_keys toy_proof) (cap_debiting_replicas_sig toy_proof)"
proof -
  have api: "tp_bls (na_transfers churn_api) = Reward_Process.toy_bls" "na_ext churn_api = example_ext"
    by (simp_all add: churn_api_def toy_node_api_def)
  have inv: "rewards_inv (tp_bls (na_transfers churn_api)) toy_churning"
    using toy_details_inv by (simp add: api rewards_inv_def toy_churning_def toy_process_def)
  let ?om = "\<lparr>msg = NodeCmdM (NodePropagateTransfer toy_proof) 2 None, dst = DstSection (xor_name_of_key example_ext (cap_recipient toy_proof)),
         section_source = True, aggregation = AtDestination\<rparr>"
  have credits: "propagate_credits example_ext [(5, toy_proof)] = Inr [Send ?om]"
    by (simp add: example_ext_def toy_proof_def)
  have funds: "get_churning_funds toy_churning = Inr (toy_process, reward_wallets_new [], [])"
    by (simp add: get_churning_funds_def toy_churning_def)
  obtain k where key: "section_public_key (se_network toy_env) = Inr k"
    by (simp add: section_public_key_def bls_section_key_def toy_env_def Wallet_Guarantees.toy_routing_def Let_def)
  obtain nd2 where h: "handle churn_api toy_env (ReceiveRewardAccumulation (toy_acc 1)) toy_churning = Some (Inr [NoOp, Send ?om], nd2)"
    by (simp add: handle_def handle_accumulation_def funds api toy_step Let_def del: One_nat_def propagate_credits.simps)
      (simp add: credits key Let_def del: propagate_credits.simps)
  have run: "node_run churn_api toy_message_api [] toy_churning = Returns toy_churning" by simp
  from rewards_paid_with_quorum [OF disjI2 [OF inv] run h, of ?om] h api show ?thesis by fastforce
qed

end
