(* ===== verification/Node_Wallets.thy ===== *)
theory Node_Wallets
  imports Node_Guarantees
begin

text \<open>
  The wallets of users through the life of a node: whatever role it takes, is promoted to or loses,
  the events in the file of a wallet are kept, and new ones come after them, as long as its
  database loads.
\<close>

section \<open>Steps of the replicas\<close>

definition wallets_api_ok :: "externals \<Rightarrow> ('db, 'd, 'w) replica_api \<Rightarrow> PublicKey set \<Rightarrow> bool" where
  "wallets_api_ok E R K \<longleftrightarrow> replica_api_ok E R K \<and> wallet_ok (ra_wallet R) \<and>
     (\<forall>transfer credit. transfer_credit R transfer = Inr credit \<longrightarrow> credit_recipient credit = transfer_to transfer)"

text \<open>Events were only appended, at most \<open>n\<close> to a wallet.\<close>

definition grows :: "externals \<Rightarrow> ('db, 'd, 'w) replica_api \<Rightarrow> PublicKey set \<Rightarrow> nat \<Rightarrow> ('db, 'd) Replicas \<Rightarrow> ('db, 'd) Replicas \<Rightarrow> bool" where
  "grows E R K n s s' \<longleftrightarrow> replicas_inv E R K s' \<and> rp_root_dir s' = rp_root_dir s \<and>
     (\<forall>pk. \<exists>evs. events_of E R K s' pk = events_of E R K s pk @ evs \<and> length evs \<le> n)"

named_theorems grow_rules \<open>steps that only append events\<close>

lemma grows_refl: "replicas_inv E R K s \<Longrightarrow> grows E R K n s s"
  by (simp add: grows_def)

lemma grows_trans: "grows E R K n s s1 \<Longrightarrow> grows E R K m s1 s2 \<Longrightarrow> grows E R K (n + m) s s2"
  unfolding grows_def by (metis add_mono append_assoc length_append)

lemma grows_mono: "grows E R K n s s' \<Longrightarrow> n \<le> m \<Longrightarrow> grows E R K m s s'"
  unfolding grows_def by (meson le_trans)

lemma grows_same: "replicas_inv E R K s' \<Longrightarrow> rp_root_dir s' = rp_root_dir s \<Longrightarrow> events_of E R K s' = events_of E R K s \<Longrightarrow> grows E R K n s s'"
  by (simp add: grows_def)

lemma grows_appends: "appends E R K pk evs s s' \<Longrightarrow> length evs \<le> n \<Longrightarrow> rp_root_dir s' = rp_root_dir s \<Longrightarrow> grows E R K n s s'"
  by (simp add: grows_def appends_def)

text \<open>The directory of the wallets stays.\<close>

lemma root_dir_open: "open_store E R pk s = (r, s') \<Longrightarrow> rp_root_dir s' = rp_root_dir s"
  by (auto simp: open_store_def Let_def)

lemma root_dir_insert: "insert_locked R pk st e s = (r, s') \<Longrightarrow> rp_root_dir s' = rp_root_dir s"
  by (auto simp: add_lock_def insert_locked_def Let_def)

lemma root_dir_store: "rp_root_dir (snd (store_and_apply R pk st w e s)) = rp_root_dir s"
  by (auto simp: store_and_apply_def split: prod.splits sum.splits dest!: root_dir_insert)

lemma root_dir_get: "get_load_or_create_store E R pk s = (r, s') \<Longrightarrow> rp_root_dir s' = rp_root_dir s"
  by (auto simp: get_load_or_create_store_def add_lock_def split: prod.split_asm sum.split_asm dest!: root_dir_open)

lemma root_dir_commands:
  "replica_validate R t s = (r1, s1) \<Longrightarrow> rp_root_dir s1 = rp_root_dir s"
  "replica_register B R p s = (r2, s2) \<Longrightarrow> rp_root_dir s2 = rp_root_dir s"
  "replica_receive_propagated E R c s = (r3, s3) \<Longrightarrow> rp_root_dir s3 = rp_root_dir s"
proof -
  show "replica_validate R t s = (r1, s1) \<Longrightarrow> rp_root_dir s1 = rp_root_dir s"
    by (auto simp: replica_validate_def Let_def root_dir_store split: sum.split_asm prod.split_asm)
  show "replica_register B R p s = (r2, s2) \<Longrightarrow> rp_root_dir s2 = rp_root_dir s"
    by (auto simp: replica_register_def Let_def root_dir_store split: sum.split_asm prod.split_asm option.split_asm if_split_asm)
  assume step: "replica_receive_propagated E R c s = (r3, s3)"
  obtain r s1 where lo: "lock_or_open E R (cap_recipient c) s = (r, s1)" by (metis surj_pair)
  then have "rp_root_dir s1 = rp_root_dir s"
    by (auto simp: lock_or_open_def add_lock_def split: sum.split_asm prod.split_asm dest!: root_dir_open)
  with lo step show "rp_root_dir s3 = rp_root_dir s"
    by (auto simp: replica_receive_propagated_def lock_or_open_def [symmetric] Let_def root_dir_store split: sum.split_asm option.split_asm)
qed

text \<open>Every command and query, with room for the events it may add.\<close>

definition has_room :: "externals \<Rightarrow> ('db, 'd, 'w) replica_api \<Rightarrow> PublicKey set \<Rightarrow> nat \<Rightarrow> ('db, 'd) Replicas \<Rightarrow> bool" where
  "has_room E R K n s \<longleftrightarrow> (\<forall>pk. length (events_of E R K s pk) + n < 2 ^ 64)"

lemma has_room_lt: "has_room E R K n s \<Longrightarrow> length (events_of E R K s pk) < 2 ^ 64"
  unfolding has_room_def by (metis add_lessD1)

lemma has_room_mono: "has_room E R K n s \<Longrightarrow> m \<le> n \<Longrightarrow> has_room E R K m s"
  unfolding has_room_def by (meson add_left_mono le_less_trans)

lemma has_room_grows:
  assumes "grows E R K n s s'" and "has_room E R K (n + m) s"
  shows "has_room E R K m s'"
  unfolding has_room_def
proof
  fix pk
  obtain evs where "events_of E R K s' pk = events_of E R K s pk @ evs" "length evs \<le> n" using assms(1) by (auto simp: grows_def)
  moreover have "length (events_of E R K s pk) + (n + m) < 2 ^ 64" using assms(2) by (simp add: has_room_def)
  ultimately show "length (events_of E R K s' pk) + m < 2 ^ 64" by (simp only: length_append)
qed

lemma grow_open:
  assumes "wallets_api_ok E R K" and "pk \<in> K" and "replicas_inv E R K s" and "open_store E R pk s = (r, s')"
  shows "grows E R K n s s'"
  using open_store_effect [of E R K pk s r s'] assms by (auto simp: wallets_api_ok_def intro: grows_same)

lemma grow_commands [grow_rules]:
  assumes A: "wallets_api_ok E R K" and inv: "replicas_inv E R K s" and room: "has_room E R K 1 s"
  shows "replica_validate R t s = (r1, s1) \<Longrightarrow> grows E R K 1 s s1"
    and "replica_register B R p s = (r2, s2) \<Longrightarrow> grows E R K 1 s s2"
    and "cap_recipient c \<in> K \<Longrightarrow> replica_receive_propagated E R c s = (r3, s3) \<Longrightarrow> grows E R K 1 s s3"
proof -
  have ok: "replica_api_ok E R K" "wallet_ok (ra_wallet R)" using A by (simp_all add: wallets_api_ok_def)
  note lt = has_room_lt [OF room]
  show "grows E R K 1 s s1" if "replica_validate R t s = (r1, s1)"
    using validate_appends [OF ok(1) inv lt that] root_dir_commands(1) [OF that] grows_appends by blast
  show "grows E R K 1 s s2" if "replica_register B R p s = (r2, s2)"
    using register_appends [OF ok inv lt that] root_dir_commands(2) [OF that] grows_appends by blast
  show "grows E R K 1 s s3" if "cap_recipient c \<in> K" and step: "replica_receive_propagated E R c s = (r3, s3)"
  proof -
    have "\<exists>evs. appends E R K (cap_recipient c) evs s s3 \<and> length evs \<le> 1"
      using ok(1) that(1) inv lt step
    proof (cases rule: propagate_cases)
      case (failed e)
      then show ?thesis by (intro exI [of _ "[]"]) simp
    next
      case (known w)
      then show ?thesis by (intro exI [of _ "[]"]) simp
    next
      case (stored evs)
      then show ?thesis by blast
    qed
    with root_dir_commands(3) [OF step] show ?thesis by (blast intro: grows_appends)
  qed
qed

lemma grow_register_and_propagate [grow_rules]:
  assumes A: "wallets_api_ok E (tp_replica P) K" and inv: "replicas_inv E (tp_replica P) K s" and room: "has_room E (tp_replica P) K 2 s"
    and K: "tap_recipient payment \<in> K" and step: "register_and_propagate E P payment s = (r, s')"
  shows "grows E (tp_replica P) K 2 s s'"
proof -
  let ?R = "tp_replica P"
  obtain q s1 where reg: "replica_register (tp_bls P) ?R payment s = (q, s1)" by (metis surj_pair)
  have "has_room E ?R K 1 s" using has_room_mono [OF room] by simp
  with A inv reg have g1: "grows E ?R K 1 s s1" by (blast intro: grow_rules)
  then have inv1: "replicas_inv E ?R K s1" and room1: "has_room E ?R K 1 s1"
    using has_room_grows [of E ?R K 1 s s1 1] room by (simp_all add: grows_def numeral_2_eq_2)
  show ?thesis
  proof (cases q)
    case (Inl e)
    with step reg have "s' = s1" by (auto simp: register_and_propagate_def)
    with g1 grows_mono [of E ?R K 1 s s1 2] show ?thesis by simp
  next
    case (Inr e)
    have "cap_recipient (credit_proof payment) \<in> K"
      using K by (simp add: cap_recipient_def credit_proof_def tap_recipient_def)
    moreover obtain r3 where "replica_receive_propagated E ?R (credit_proof payment) s1 = (r3, s')"
      using step reg Inr by (auto simp: register_and_propagate_def split: prod.split_asm sum.split_asm)
    ultimately have "grows E ?R K 1 s1 s'" using grow_commands(3) [OF A inv1 room1] by blast
    from grows_trans [OF g1 this] show ?thesis by (simp add: numeral_2_eq_2)
  qed
qed

lemma grow_queries [grow_rules]:
  assumes A: "wallets_api_ok E R K" and inv: "replicas_inv E R K s"
  shows "pk \<in> K \<Longrightarrow> replica_balance E R pk s = (r1, s1) \<Longrightarrow> grows E R K n s s1"
    and "pk \<in> K \<Longrightarrow> history E R pk s = (r2, s2) \<Longrightarrow> grows E R K n s s2"
    and "all_events E R s = (r3, s3) \<Longrightarrow> grows E R K n s s3"
    and "user_wallets E R s = (r4, s4) \<Longrightarrow> grows E R K n s s4"
    and "managed_amount E R s = (r5, s5) \<Longrightarrow> grows E R K n s s5"
proof -
  have ok: "replica_api_ok E R K" using A by (simp add: wallets_api_ok_def)
  show "grows E R K n s s1" if "pk \<in> K" "replica_balance E R pk s = (r1, s1)"
    using that grow_open [OF A _ inv] by (auto simp: replica_balance_def split: prod.split_asm sum.split_asm)
  show "grows E R K n s s2" if "pk \<in> K" "history E R pk s = (r2, s2)"
    using that grow_open [OF A _ inv] by (auto simp: history_def Let_def split: prod.split_asm sum.split_asm if_split_asm)
  show "grows E R K n s s3" if "all_events E R s = (r3, s3)"
    using that all_events_locked [OF ok inv] inv by (simp add: grows_def)
  have locked: "\<exists>st. open_store E R pk s = (Inr st, s)" if "pk \<in> fst ` set (rp_locks s)" for pk
    using open_locked [OF ok inv that] by blast
  have h: "snd (history E R pk s) = s" if "pk \<in> fst ` set (rp_locks s)" for pk
    using locked [OF that] by (auto simp: history_def Let_def)
  have "snd (fold (\<lambda>pk acc. case history E R pk (snd acc) of
      (Inr h, s1) \<Rightarrow> (btm_insert pk h (fst acc), s1) | (Inl _, s1) \<Rightarrow> (fst acc, s1)) ks acc) = s"
    if "set ks \<subseteq> fst ` set (rp_locks s)" "snd acc = s" for ks acc
    using that
  proof (induction ks arbitrary: acc)
    case (Cons k ks)
    then have "snd (history E R k s) = s" using h by simp
    with Cons show ?case by (cases "history E R k s"; cases "fst (history E R k s)") simp_all
  qed simp
  then show "grows E R K n s s4" if "user_wallets E R s = (r4, s4)"
    using that inv grows_refl by (fastforce simp: user_wallets_def dest: arg_cong [where f = snd])
  have b: "\<exists>r. replica_balance E R pk s = (r, s)" if "pk \<in> fst ` set (rp_locks s)" for pk
    using locked [OF that] by (auto simp: replica_balance_def)
  have "snd (snd (try_fold (\<lambda>key acc. case replica_balance E R key (snd acc) of
      (Inl e, s1) \<Rightarrow> (Inl e, fst acc, s1) | (Inr b, s1) \<Rightarrow> (Inr (), fst acc + b, s1)) ks acc)) = s"
    if "set ks \<subseteq> fst ` set (rp_locks s)" "snd acc = s" for ks acc
    using that
  proof (induction ks arbitrary: acc)
    case (Cons k ks)
    then obtain r where "replica_balance E R k s = (r, s)" using b [of k] by auto
    with Cons show ?case by (cases r) simp_all
  qed simp
  from this [of "map fst (rp_locks s)" "(0, s)"]
  show "grows E R K n s s5" if "managed_amount E R s = (r5, s5)"
    using that inv grows_refl by (auto simp: managed_amount_def split: prod.split_asm sum.split_asm)
qed

lemma grow_credit_without_proof [grow_rules]:
  assumes A: "wallets_api_ok E R K" and inv: "replicas_inv E R K s" and room: "has_room E R K 1 s"
    and K: "transfer_to transfer \<in> K" and step: "replica_credit_without_proof E R sig ks transfer s = (r, s')"
  shows "grows E R K 1 s s'"
proof (cases "transfer_credit R transfer")
  case (Inl e)
  with step inv show ?thesis by (simp add: replica_credit_without_proof_def grows_refl)
next
  case (Inr credit)
  have ok: "replica_api_ok E R K" and to: "credit_recipient credit = transfer_to transfer" using A Inr by (simp_all add: wallets_api_ok_def)
  obtain q s1 where g: "get_load_or_create_store E R (transfer_to transfer) s = (q, s1)" by (metis surj_pair)
  note ge = get_load_or_create_effect [OF ok K inv g]
  have g1: "grows E R K 0 s s1" using ge root_dir_get [OF g] by (blast intro: grows_same)
  show ?thesis
  proof (cases "s' = s1")
    case True
    with g1 grows_mono show ?thesis by blast
  next
    case False
    then obtain st where q: "q = Inr st" using step g Inr by (cases q) (auto simp: replica_credit_without_proof_def)
    define e where "e = TransferPropagated (credit_proof \<lparr>tap_signed_credit = \<lparr>sc_credit = credit, sc_actor_signature = sig\<rparr>,
      tap_signed_debit = \<lparr>sd_debit = transfer_debit transfer, sd_actor_signature = sig\<rparr>,
      tap_debit_sig = sig, tap_credit_sig = sig, tap_debiting_replicas_keys = ks\<rparr>)"
    obtain r2 where ins: "insert_locked R (transfer_to transfer) st e s1 = (r2, s')"
      using step g Inr q False
      by (auto simp: replica_credit_without_proof_def Let_def e_def split: sum.split_asm prod.split_asm)
        (metis surjective_pairing)
    have own: "event_owner e = transfer_to transfer" by (simp add: e_def cap_recipient_def credit_proof_def to)
    have "length (events_of E R K s1 (transfer_to transfer)) < 2 ^ 64" using has_room_lt [OF room] ge(2) by simp
    note ie = insert_locked_effect [OF ok ge(1) ge(4) [OF q] own this ins]
    have "appends E R K (transfer_to transfer) (if r2 = Inr () then [e] else []) s1 s'"
      using ie(1,3) by (simp add: appends_def)
    then have "grows E R K 1 s1 s'" by (rule grows_appends) (simp_all add: root_dir_insert [OF ins])
    from grows_trans [OF g1 this] show ?thesis by simp
  qed
qed

section \<open>The module\<close>

text \<open>The wallets an operation of the module is about, besides those that are open.\<close>

fun duty_keys :: "NodeDuty \<Rightarrow> PublicKey set" where
  "duty_keys (PropagateTransfer p i src) = {cap_recipient p}"
| "duty_keys (SimulatePayout transfer i src) = {transfer_to transfer}"
| "duty_keys (GetTransfersHistory pk v i src) = {pk}"
| "duty_keys (GetBalance pk i src) = {pk}"
| "duty_keys (ProcessDataPayment (CmdM (DataCmdMsg payment cmd) i t) u) = {tap_recipient payment}"
| "duty_keys d = {}"

abbreviation module_grows :: "externals \<Rightarrow> ('db, 'd, 'w, 'a, 'f) transfers_api \<Rightarrow> PublicKey set \<Rightarrow> ('db, 'd, 'a) Transfers \<Rightarrow> ('db, 'd, 'a) Transfers \<Rightarrow> bool" where
  "module_grows E P K t t' \<equiv> grows E (tp_replica P) K 2 (tr_replicas t) (tr_replicas t')"

lemma on_replicas_grows:
  assumes "\<And>r s'. f (tr_replicas t) = (r, s') \<Longrightarrow> grows E R K n (tr_replicas t) s'" and "n \<le> 2"
  shows "grows E R K 2 (tr_replicas t) (tr_replicas (snd (on_replicas f t)))"
  using assms grows_mono by (cases "f (tr_replicas t)") (auto simp: on_replicas_def)

lemma module_grows_handlers:
  assumes A: "wallets_api_ok E (tp_replica P) K" and inv: "replicas_inv E (tp_replica P) K (tr_replicas t)"
    and room: "has_room E (tp_replica P) K 2 (tr_replicas t)"
  shows "module_grows E P K t (snd (transfers_all_events E P i src t))"
    and "cap_recipient cp \<in> K \<Longrightarrow> module_grows E P K t (snd (transfers_receive_propagated E P cp i src t))"
    and "module_grows E P K t (snd (transfers_validate E P n st i src t))"
    and "transfer_to tr \<in> K \<Longrightarrow> module_grows E P K t (snd (transfers_credit_without_proof E P sig ks tr t))"
    and "pk \<in> K \<Longrightarrow> module_grows E P K t (snd (transfers_history E P pk i src t))"
    and "pk \<in> K \<Longrightarrow> module_grows E P K t (snd (transfers_balance E P pk i src t))"
    and "module_grows E P K t (snd (transfers_register E P p i t))"
proof -
  have room1: "has_room E (tp_replica P) K 1 (tr_replicas t)" using has_room_mono [OF room] by simp
  note c = grow_commands [OF A inv room1] and q = grow_queries [OF A inv] and g = on_replicas_grows [where E = E and R = "tp_replica P" and K = K and n = 1, OF _ one_le_numeral]
  show "module_grows E P K t (snd (transfers_all_events E P i src t))"
    by (simp add: transfers_all_events_def case_prod_unfold) (rule g, rule q(3); simp)
  show "cap_recipient cp \<in> K \<Longrightarrow> module_grows E P K t (snd (transfers_receive_propagated E P cp i src t))"
  proof -
    assume "cap_recipient cp \<in> K"
    then have "module_grows E P K t (snd (on_replicas (replica_receive_propagated E (tp_replica P) cp) t))" using c(3) by (blast intro: g)
    then show ?thesis by (auto simp: transfers_receive_propagated_def split: prod.splits sum.splits)
  qed
  show "module_grows E P K t (snd (transfers_validate E P n st i src t))"
  proof -
    have "module_grows E P K t (snd (on_replicas (replica_validate (tp_replica P) st) t))" by (rule g, rule c(1))
    then show ?thesis by (auto simp: transfers_validate_def split: prod.splits sum.splits)
  qed
  show "transfer_to tr \<in> K \<Longrightarrow> module_grows E P K t (snd (transfers_credit_without_proof E P sig ks tr t))"
    using grow_credit_without_proof [OF A inv room1] unfolding transfers_credit_without_proof_def by (blast intro: g)
  show "pk \<in> K \<Longrightarrow> module_grows E P K t (snd (transfers_history E P pk i src t))"
    by (simp add: transfers_history_def case_prod_unfold) (rule g, rule q(2); simp)
  show "pk \<in> K \<Longrightarrow> module_grows E P K t (snd (transfers_balance E P pk i src t))"
    by (simp add: transfers_balance_def case_prod_unfold) (rule g, rule q(1); simp)
  show "module_grows E P K t (snd (transfers_register E P p i t))"
  proof -
    have "module_grows E P K t (snd (on_replicas (replica_register (tp_bls P) (tp_replica P) p) t))" by (rule g, rule c(2))
    then show ?thesis by (auto simp: transfers_register_def split: prod.splits sum.splits)
  qed
qed

lemma module_queries:
  assumes A: "wallets_api_ok E (tp_replica P) K" and inv: "replicas_inv E (tp_replica P) K (tr_replicas t)"
  shows "grows E (tp_replica P) K 0 (tr_replicas t) (tr_replicas (snd (transfers_user_wallets E P t)))"
    and "grows E (tp_replica P) K 0 (tr_replicas t) (tr_replicas (snd (transfers_managed_amount E P t)))"
  using grow_queries(4,5) [OF A inv]
  by (auto simp: transfers_user_wallets_def transfers_managed_amount_def on_replicas_def Let_def prod_eq_iff)

lemma module_grows_payment:
  assumes A: "wallets_api_ok E (tp_replica P) K" and inv: "replicas_inv E (tp_replica P) K (tr_replicas t)"
    and room: "has_room E (tp_replica P) K 2 (tr_replicas t)" and K: "duty_keys (ProcessDataPayment m u) \<subseteq> K"
  shows "module_grows E P K t (snd (process_payment E P m u t))"
proof (cases "\<exists>payment cmd i tg. m = CmdM (DataCmdMsg payment cmd) i tg")
  case False
  then have "snd (process_payment E P m u t) = t" by (auto simp: process_payment_def split: Message.split Cmd.split)
  with inv show ?thesis by (simp add: grows_refl)
next
  case True
  then obtain payment cmd i tg where m: "m = CmdM (DataCmdMsg payment cmd) i tg" by blast
  then have K': "tap_recipient payment \<in> K" using K by simp
  let ?R = "tp_replica P" and ?rp = "on_replicas (register_and_propagate E P payment) t"
  have g: "module_grows E P K t (snd ?rp)"
    by (rule on_replicas_grows [where n = 2]) (use grow_register_and_propagate [OF A inv room K'] in auto)
  then have inv1: "replicas_inv E ?R K (tr_replicas (snd ?rp))" by (simp add: grows_def)
  have "grows E ?R K 0 (tr_replicas (snd ?rp)) s" if "replica_balance E ?R (tap_recipient payment) (tr_replicas (snd ?rp)) = (r, s)" for r s
    using grow_queries(1) [OF A inv1 K' that] .
  then have b: "grows E ?R K 0 (tr_replicas (snd ?rp)) (tr_replicas (snd (on_replicas (replica_balance E ?R (tap_recipient payment)) (snd ?rp))))"
    by (auto simp: on_replicas_def Let_def prod_eq_iff)
  from grows_trans [OF g this] have gb: "module_grows E P K t (snd (on_replicas (replica_balance E ?R (tap_recipient payment)) (snd ?rp)))" by simp
  have "snd (process_payment E P m u t) \<in> {t, snd ?rp, snd (on_replicas (replica_balance E ?R (tap_recipient payment)) (snd ?rp))}"
    by (auto simp: process_payment_def m Let_def split: prod.splits sum.splits)
  with g gb inv grows_refl show ?thesis by auto
qed

section \<open>The node\<close>

text \<open>
  The wallets on the disk of a node, whether or not it has a module for them at the moment: what their
  files hold, which does not depend on whether a load of them succeeds.
\<close>

definition disk_db :: "externals \<Rightarrow> ('db, 'd, 'w) replica_api \<Rightarrow> PublicKey set \<Rightarrow> dir \<Rightarrow> 'd \<Rightarrow> PublicKey \<Rightarrow> 'db option" where
  "disk_db E R K dir d pk = (if pk \<in> K then ev_content (ta_db (ra_store R)) (dir @ [TRANSFERS_DIR_NAME]) (wallet_file E R pk) d else None)"

definition wallet_events :: "('db, 'd, 'w, 'a, 'f, 'm, 'h) node_api \<Rightarrow> PublicKey set \<Rightarrow> ('db, 'd, 'a, 'm, 'h) Node \<Rightarrow> PublicKey \<Rightarrow> ReplicaEvent list" where
  "wallet_events A K nd pk = (let R = tp_replica (na_transfers A) in
     case disk_db (na_ext A) R K (nd_root_dir nd) (current_disk nd) pk of None \<Rightarrow> [] | Some db \<Rightarrow> db_events R db)"

definition wallets_ok :: "('db, 'd, 'w, 'a, 'f, 'm, 'h) node_api \<Rightarrow> PublicKey set \<Rightarrow> ('db, 'd, 'a, 'm, 'h) Node \<Rightarrow> bool" where
  "wallets_ok A K nd \<longleftrightarrow> (let E = na_ext A; R = tp_replica (na_transfers A) in
     (\<forall>pk db. disk_db E R K (nd_root_dir nd) (current_disk nd) pk = Some db \<longrightarrow> db_fine R pk db) \<and>
     (\<forall>t. nd_transfers nd = Some t \<longrightarrow> replicas_inv E R K (tr_replicas t) \<and> rp_root_dir (tr_replicas t) = nd_root_dir nd))"

definition wallets_grow :: "('db, 'd, 'w, 'a, 'f, 'm, 'h) node_api \<Rightarrow> PublicKey set \<Rightarrow> nat \<Rightarrow>
    ('db, 'd, 'a, 'm, 'h) Node \<Rightarrow> ('db, 'd, 'a, 'm, 'h) Node \<Rightarrow> bool" where
  "wallets_grow A K n nd nd' \<longleftrightarrow> wallets_ok A K nd' \<and> nd_root_dir nd' = nd_root_dir nd \<and>
     (\<forall>pk. \<exists>evs. wallet_events A K nd' pk = wallet_events A K nd pk @ evs \<and> length evs \<le> n)"

definition node_room :: "('db, 'd, 'w, 'a, 'f, 'm, 'h) node_api \<Rightarrow> PublicKey set \<Rightarrow> nat \<Rightarrow> ('db, 'd, 'a, 'm, 'h) Node \<Rightarrow> bool" where
  "node_room A K n nd \<longleftrightarrow> (\<forall>pk. length (wallet_events A K nd pk) + n < 2 ^ 64)"

lemma wallets_grow_trans: "wallets_grow A K n a b \<Longrightarrow> wallets_grow A K m b c \<Longrightarrow> wallets_grow A K (n + m) a c"
  unfolding wallets_grow_def by (metis add_mono append_assoc length_append)

lemma wallets_grow_trans0: "wallets_grow A K 0 a b \<Longrightarrow> wallets_grow A K n b c \<Longrightarrow> wallets_grow A K n a c"
  using wallets_grow_trans [of A K 0 a b n c] by simp

lemma wallets_grow_mono: "wallets_grow A K n nd nd' \<Longrightarrow> n \<le> m \<Longrightarrow> wallets_grow A K m nd nd'"
  unfolding wallets_grow_def by (meson le_trans)

lemma wallets_grow_ok: "wallets_grow A K n nd nd' \<Longrightarrow> wallets_ok A K nd'"
  by (simp add: wallets_grow_def)

lemma on_disk_db: "on_disk E R K s = disk_db E R K (rp_root_dir s) (rp_disk s)"
  by (simp add: fun_eq_iff on_disk_def disk_db_def)

lemma wallets_grow_disk:
  assumes "wallets_ok A K nd" and "current_disk nd' = current_disk nd" and "nd_root_dir nd' = nd_root_dir nd"
    and "\<forall>t. nd_transfers nd' = Some t \<longrightarrow>
      replicas_inv (na_ext A) (tp_replica (na_transfers A)) K (tr_replicas t) \<and> rp_root_dir (tr_replicas t) = nd_root_dir nd"
  shows "wallets_grow A K n nd nd'"
  using assms by (simp add: wallets_grow_def wallets_ok_def wallet_events_def Let_def)

lemma wallets_grow_same [grow_rules]:
  assumes "wallets_ok A K nd" and "nd_transfers nd' = nd_transfers nd" and "nd_db_disk nd' = nd_db_disk nd" and "nd_root_dir nd' = nd_root_dir nd"
  shows "wallets_grow A K n nd nd'"
proof (rule wallets_grow_disk)
  show "current_disk nd' = current_disk nd" using assms by (simp add: current_disk_def split: option.split)
qed (use assms in \<open>auto simp: wallets_ok_def Let_def\<close>)

lemma wallets_grow_refl: "wallets_ok A K nd \<Longrightarrow> wallets_grow A K n nd nd"
  by (simp add: wallets_grow_same)

lemma wallet_events_module:
  assumes "nd_transfers nd = Some t" and "rp_root_dir (tr_replicas t) = nd_root_dir nd"
  shows "wallet_events A K nd = events_of (na_ext A) (tp_replica (na_transfers A)) K (tr_replicas t)"
  using assms by (simp add: fun_eq_iff wallet_events_def events_of_def on_disk_db current_disk_def Let_def)

text \<open>A step of the module is a step of the node.\<close>

lemma wallets_grow_module:
  assumes ok: "wallets_ok A K nd" and t: "nd_transfers nd = Some t" "nd_transfers nd' = Some t'" "nd_root_dir nd' = nd_root_dir nd"
    and g: "grows (na_ext A) (tp_replica (na_transfers A)) K n (tr_replicas t) (tr_replicas t')"
  shows "wallets_grow A K n nd nd'"
proof -
  let ?R = "tp_replica (na_transfers A)"
  have d: "rp_root_dir (tr_replicas t) = nd_root_dir nd" using ok t(1) by (simp add: wallets_ok_def Let_def)
  then have d': "rp_root_dir (tr_replicas t') = nd_root_dir nd'" using g t(3) by (simp add: grows_def)
  have "replicas_inv (na_ext A) ?R K (tr_replicas t')" using g by (simp add: grows_def)
  moreover from this have "db_fine ?R pk db" if "disk_db (na_ext A) ?R K (nd_root_dir nd') (current_disk nd') pk = Some db" for pk db
    using that t(2) d' by (auto simp: replicas_inv_def on_disk_db current_disk_def)
  ultimately have "wallets_ok A K nd'" using t(2) d' by (auto simp: wallets_ok_def Let_def)
  then show ?thesis
    using g t(3) wallet_events_module [OF t(1) d, of A K] wallet_events_module [OF t(2) d', of A K] by (simp add: wallets_grow_def grows_def)
qed

text \<open>Fresh information about the section and the network changes no wallet.\<close>

lemma grows_info:
  assumes "rp_root_dir s1 = rp_root_dir s" "rp_disk s1 = rp_disk s" "rp_locks s1 = rp_locks s"
  shows "grows E R K n s1 s' \<longleftrightarrow> grows E R K n s s'" and "replicas_inv E R K s1 \<longleftrightarrow> replicas_inv E R K s"
    and "has_room E R K m s1 \<longleftrightarrow> has_room E R K m s"
  using assms by (simp_all add: grows_def replicas_inv_def events_of_def on_disk_def has_room_def)

lemma live_same: "rp_root_dir (tr_replicas (live_transfers N t)) = rp_root_dir (tr_replicas t)"
  "rp_disk (tr_replicas (live_transfers N t)) = rp_disk (tr_replicas t)"
  "rp_locks (tr_replicas (live_transfers N t)) = rp_locks (tr_replicas t)"
  "rp_root_dir (tr_replicas (transfers_update_replica_info info t)) = rp_root_dir (tr_replicas t)"
  "rp_disk (tr_replicas (transfers_update_replica_info info t)) = rp_disk (tr_replicas t)"
  "rp_locks (tr_replicas (transfers_update_replica_info info t)) = rp_locks (tr_replicas t)"
  by (simp_all add: live_transfers_def transfers_update_replica_info_def update_replica_info_def)

lemmas live_info = grows_info [OF live_same(1-3)] grows_info [OF live_same(4-6)]

lemma module_room:
  assumes "wallets_ok A K nd" and "nd_transfers nd = Some t" and "node_room A K n nd"
  shows "replicas_inv (na_ext A) (tp_replica (na_transfers A)) K (tr_replicas t)"
    and "has_room (na_ext A) (tp_replica (na_transfers A)) K n (tr_replicas t)"
  using assms wallet_events_module [OF assms(2), of A K] by (simp_all add: wallets_ok_def node_room_def has_room_def Let_def)

lemma with_transfers_grows:
  assumes ok: "wallets_ok A K nd" and room: "node_room A K 2 nd"
    and f: "\<And>t. replicas_inv (na_ext A) (tp_replica (na_transfers A)) K (tr_replicas t) \<Longrightarrow>
      has_room (na_ext A) (tp_replica (na_transfers A)) K 2 (tr_replicas t) \<Longrightarrow> module_grows (na_ext A) (na_transfers A) K t (snd (f t))"
  shows "wallets_grow A K 2 nd (snd (with_transfers S f nd))"
proof (cases "nd_transfers nd")
  case None
  with ok show ?thesis by (simp add: with_transfers_def get_transfers_def ok_or_def wallets_grow_refl)
next
  case (Some t)
  let ?t = "live_transfers (se_network S) t"
  have "module_grows (na_ext A) (na_transfers A) K ?t (snd (f ?t))"
    using module_room [OF ok Some room] by (intro f) (simp_all add: live_info)
  then have "module_grows (na_ext A) (na_transfers A) K t (snd (f ?t))" by (simp add: live_info)
  from wallets_grow_module [OF ok Some _ _ this] Some show ?thesis
    by (simp add: with_transfers_def get_transfers_def ok_or_def Let_def)
qed

text \<open>Reading wallets, as for the state pushed to other elders.\<close>

lemma module_info_grows:
  assumes ok: "wallets_ok A K nd" and t: "nd_transfers nd = Some t"
  shows "wallets_grow A K n nd (nd\<lparr>nd_transfers := Some (transfers_update_replica_info info t)\<rparr>)"
proof (rule wallets_grow_disk [OF ok])
  let ?t = "transfers_update_replica_info info t"
  have r: "tr_replicas ?t = (tr_replicas t)\<lparr>rp_info := info\<rparr>"
    by (simp add: transfers_update_replica_info_def update_replica_info_def)
  show "current_disk (nd\<lparr>nd_transfers := Some ?t\<rparr>) = current_disk nd" using t by (simp add: current_disk_def r)
  have "replicas_inv (na_ext A) (tp_replica (na_transfers A)) K (tr_replicas t) \<and> rp_root_dir (tr_replicas t) = nd_root_dir nd"
    using ok t by (simp add: wallets_ok_def Let_def)
  then show "\<forall>t'. nd_transfers (nd\<lparr>nd_transfers := Some ?t\<rparr>) = Some t' \<longrightarrow>
      replicas_inv (na_ext A) (tp_replica (na_transfers A)) K (tr_replicas t') \<and> rp_root_dir (tr_replicas t') = nd_root_dir nd"
    by (simp add: r grows_info(2) [of "(tr_replicas t)\<lparr>rp_info := info\<rparr>" "tr_replicas t"])
qed simp

lemma push_state_grows:
  assumes "wallets_api_ok (na_ext A) (tp_replica (na_transfers A)) K" and ok: "wallets_ok A K nd"
  shows "wallets_grow A K 0 nd (snd (push_state A pre i nd))"
proof (cases "nd_transfers nd")
  case None
  with ok show ?thesis by (simp add: push_state_def Let_def wallets_grow_refl)
next
  case (Some t)
  then have "replicas_inv (na_ext A) (tp_replica (na_transfers A)) K (tr_replicas t)" using ok by (simp add: wallets_ok_def Let_def)
  from module_queries(1) [OF assms(1) this] wallets_grow_module [OF ok Some] Some show ?thesis
    by (auto simp: push_state_def Let_def split: prod.splits)
qed

lemma update_replicas_grows:
  assumes "wallets_ok A K nd"
  shows "wallets_grow A K 0 nd (snd (update_replicas S nd))"
  using assms module_info_grows [OF assms]
  by (auto simp: update_replicas_def wallets_grow_refl split: option.splits sum.splits)

lemma fresh_replicas_inv:
  assumes "\<forall>pk db. disk_db E R K dir d pk = Some db \<longrightarrow> db_fine R pk db"
  shows "replicas_inv E R K \<lparr>rp_root_dir = dir, rp_info = info, rp_locks = [], rp_disk = d\<rparr>"
  using assms by (simp add: replicas_inv_def on_disk_db)

text \<open>Promotion: the new module has the wallets that are on disk; demotion leaves them there.\<close>

lemma transfer_replicas_empty:
  "transfer_replicas E R dir N [] d = (r, d') \<Longrightarrow> d' = d \<and> (\<forall>s. r = Inr s \<longrightarrow> (\<exists>info. s = \<lparr>rp_root_dir = dir, rp_info = info, rp_locks = [], rp_disk = d\<rparr>))"
  by (auto simp: transfer_replicas_def replicas_new_def replicas_setup_def split: sum.split_asm)

lemma level_up_grows:
  assumes ok: "wallets_ok A K nd"
  shows "wallets_grow A K 0 nd (snd (level_up A S nd))"
proof -
  let ?E = "na_ext A" and ?R = "tp_replica (na_transfers A)"
  have inv: "\<forall>t. nd_transfers nd = Some t \<longrightarrow> replicas_inv ?E ?R K (tr_replicas t) \<and> rp_root_dir (tr_replicas t) = nd_root_dir nd"
    and fine: "\<forall>pk db. disk_db ?E ?R K (nd_root_dir nd) (current_disk nd) pk = Some db \<longrightarrow> db_fine ?R pk db"
    using ok by (simp_all add: wallets_ok_def Let_def)
  obtain r d' where tr: "transfer_replicas ?E ?R (nd_root_dir nd) (se_network S) [] (current_disk nd) = (r, d')" by (metis surj_pair)
  note e = transfer_replicas_empty [OF tr]
  have stay: "wallets_grow A K 0 nd nd'" if "nd_transfers nd' = nd_transfers nd" "nd_root_dir nd' = nd_root_dir nd"
      "nd_db_disk nd' = nd_db_disk nd \<or> nd_db_disk nd' = current_disk nd" for nd'
    by (rule wallets_grow_disk [OF ok]) (use that inv in \<open>auto simp: current_disk_def split: option.splits\<close>)
  have promoted: "wallets_grow A K 0 nd nd'" if p: "nd_transfers nd' = Some (transfers_new s x)" "r = Inr s" "nd_root_dir nd' = nd_root_dir nd" for nd' s x
  proof (rule wallets_grow_disk [OF ok])
    obtain info where s: "s = \<lparr>rp_root_dir = nd_root_dir nd, rp_info = info, rp_locks = [], rp_disk = current_disk nd\<rparr>" using e p(2) by blast
    show "current_disk nd' = current_disk nd" using p(1) by (simp add: current_disk_def transfers_new_def s)
    show "\<forall>t. nd_transfers nd' = Some t \<longrightarrow> replicas_inv ?E ?R K (tr_replicas t) \<and> rp_root_dir (tr_replicas t) = nd_root_dir nd"
      using p(1) fresh_replicas_inv [OF fine] by (simp add: transfers_new_def s)
  qed (rule p(3))
  have disk: "current_disk (nd\<lparr>nd_chunks := c, nd_world := w, nd_meta_data := m\<rparr>) = current_disk nd" for c w m
    by (simp add: current_disk_def split: option.split)
  let ?nd' = "snd (level_up A S nd)"
  have "nd_root_dir ?nd' = nd_root_dir nd \<and>
      (nd_transfers ?nd' = nd_transfers nd \<and> (nd_db_disk ?nd' = nd_db_disk nd \<or> nd_db_disk ?nd' = current_disk nd) \<or>
       (\<exists>s x. nd_transfers ?nd' = Some (transfers_new s x) \<and> r = Inr s))"
    by (auto simp: level_up_def Let_def disk tr e split: sum.splits prod.splits)
  with stay promoted show ?thesis by blast
qed

lemma level_down_grows:
  assumes "wallets_ok A K nd"
  shows "wallets_grow A K 0 nd (snd (level_down A S nd))"
  by (rule wallets_grow_disk [OF assms]) (auto simp: level_down_def current_disk_def Let_def split: sum.splits prod.splits)

lemma newbie_grows:
  assumes "wallets_ok A K nd"
  shows "wallets_grow A K 0 nd (snd (begin_split_as_newbie A S key pre nd))"
proof (cases "level_up A S nd")
  case (Pair r nd1)
  have "wallets_grow A K 0 nd nd1" using level_up_grows [OF assms, of S] by (simp add: Pair)
  moreover from this have "wallets_grow A K 0 nd1 (nd1\<lparr>nd_section_funds := f\<rparr>)" for f
    by (intro wallets_grow_same) (simp_all add: wallets_grow_def)
  ultimately show ?thesis using assms wallets_grow_trans0 [of A K nd nd1 0]
    by (auto simp: begin_split_as_newbie_def Pair wallets_grow_refl split: sum.splits)
qed

lemma push_both_grows:
  assumes "wallets_api_ok (na_ext A) (tp_replica (na_transfers A)) K" and "wallets_ok A K nd"
  shows "wallets_grow A K 0 nd (snd (push_both_states A pre key sib nd))"
proof -
  have 1: "wallets_grow A K 0 nd (snd (push_state A p i nd))" for p i by (rule push_state_grows [OF assms])
  have 2: "wallets_grow A K 0 (snd (push_state A p i nd)) (snd (push_state A q j (snd (push_state A p i nd))))" for p i q j
    by (rule push_state_grows [OF assms(1) wallets_grow_ok [OF 1]])
  show ?thesis using wallets_grow_trans0 [OF 1 2] by (simp add: push_both_states_def Let_def)
qed

lemma split_payout_grows:
  assumes A: "wallets_api_ok (na_ext A) (tp_replica (na_transfers A)) K" and ok: "wallets_ok A K nd" and t: "nd_transfers nd = Some t"
    and step: "split_payout A S pre key ws p t nd = Some (r, nd')"
  shows "wallets_grow A K 0 nd nd'"
proof -
  have inv: "replicas_inv (na_ext A) (tp_replica (na_transfers A)) K (tr_replicas t)" using ok t by (simp add: wallets_ok_def Let_def)
  obtain q t1 where m: "transfers_managed_amount (na_ext A) (na_transfers A) t = (q, t1)" by (metis surj_pair)
  have "nd_transfers nd' = Some t1" "nd_root_dir nd' = nd_root_dir nd"
    using step m by (auto simp: split_payout_def Let_def split: sum.split_asm option.split_asm prod.split_asm)
  then show ?thesis
    by (rule wallets_grow_module [OF ok t]) (use module_queries(2) [OF A inv] m in simp)
qed

lemma oldie_grows:
  assumes A: "wallets_api_ok (na_ext A) (tp_replica (na_transfers A)) K" and ok: "wallets_ok A K nd"
    and step: "begin_split_as_oldie A S pre key sib nd = Some (r, nd')"
  shows "wallets_grow A K 0 nd nd'"
proof (cases "nd_transfers nd")
  case None
  with step ok show ?thesis by (simp add: begin_split_as_oldie_def wallets_grow_refl)
next
  case (Some t0)
  show ?thesis
  proof (cases "replica_info (se_network S)")
    case (Inl e)
    with step ok Some show ?thesis by (simp add: begin_split_as_oldie_def wallets_grow_refl)
  next
    case (Inr info)
    let ?ndi = "nd\<lparr>nd_transfers := Some (transfers_update_replica_info info t0)\<rparr>"
    let ?t = "snd (transfers_user_wallets (na_ext A) (na_transfers A) (transfers_update_replica_info info t0))"
    let ?nd1 = "nd\<lparr>nd_transfers := Some ?t\<rparr>"
    have i: "wallets_grow A K 0 nd ?ndi" by (rule module_info_grows [OF ok Some])
    then have oki: "wallets_ok A K ?ndi" by (rule wallets_grow_ok)
    then have "replicas_inv (na_ext A) (tp_replica (na_transfers A)) K (tr_replicas (transfers_update_replica_info info t0))"
      by (simp add: wallets_ok_def Let_def)
    from wallets_grow_module [OF oki _ _ _ module_queries(1) [OF A this], of ?nd1]
    have g1: "wallets_grow A K 0 nd ?nd1" by (intro wallets_grow_trans0 [OF i]) simp
    note ok1 = wallets_grow_ok [OF g1]
    have done1: "wallets_grow A K 0 nd nd2" if "wallets_grow A K 0 ?nd1 nd2" for nd2 using wallets_grow_trans0 [OF g1 that] .
    have pay: "wallets_grow A K 0 ?nd1 nd2" if "split_payout A S pre key ws p ?t ?nd1 = Some (q, nd2)" for ws p q nd2
      using split_payout_grows [OF A ok1 _ that] by simp
    have push: "wallets_grow A K 0 ?nd1 (snd (push_both_states A pre key sib nd2))" if "wallets_grow A K 0 ?nd1 nd2" for nd2
      by (rule wallets_grow_trans0 [OF that push_both_grows [OF A wallets_grow_ok [OF that]]])
    from step Some Inr show ?thesis
      by (auto simp: begin_split_as_oldie_def Let_def wallets_grow_refl [OF ok1] intro!: done1 push dest: pay
          split: option.split_asm sum.split_asm prod.split_asm if_split_asm)
  qed
qed

text \<open>Every duty.\<close>

lemma handle_duty_grows:
  assumes A: "wallets_api_ok (na_ext A) (tp_replica (na_transfers A)) K" and ok: "wallets_ok A K nd"
    and room: "node_room A K 2 nd" and K: "duty_keys d \<subseteq> K"
  shows "wallets_grow A K 2 nd (snd (handle_duty A S d nd))"
proof -
  note up = wallets_grow_mono [of A K 0 nd _ 2, OF _ zero_le] and T = with_transfers_grows [OF ok room]
  note same = wallets_grow_same [OF ok, of _ 2] and refl = wallets_grow_refl [OF ok, of 2]
  show ?thesis
  proof (cases d)
    case (EldersChanged pre key newbie)
    have "wallets_grow A K 0 nd (snd (push_state A pre i (snd (update_replicas S nd))))" for i
      by (rule wallets_grow_trans0 [OF update_replicas_grows [OF ok] push_state_grows [OF A wallets_grow_ok [OF update_replicas_grows [OF ok]]]])
    then show ?thesis using up level_up_grows [OF ok, of S] update_replicas_grows [OF ok, of S]
      by (auto simp: EldersChanged Let_def split: prod.splits sum.splits)
  next
    case (ReceiveRewardProposal p)
    then show ?thesis by (auto simp: Let_def refl intro!: same split: sum.splits prod.splits)
  next
    case (ReceiveRewardAccumulation a)
    then show ?thesis
      by (auto simp: handle_accumulation_def Let_def refl intro!: same split: sum.splits prod.splits RewardStage.splits)
  next
    case (SetNodeWallet w n i src)
    then show ?thesis by (auto simp: refl intro!: same split: sum.splits option.splits)
  next
    case (ProcessLostMember n age)
    then show ?thesis by (auto simp: with_funds_def Let_def refl intro!: same split: sum.splits prod.splits)
  next
    case (SynchState rs ws)
    have "map_option (transfers_merge ws) (nd_transfers nd) = nd_transfers nd"
      by (cases "nd_transfers nd") (simp_all add: transfers_merge_def replicas_merge_def)
    then show ?thesis by (auto simp: SynchState synch_state_def Let_def intro!: same split: option.splits)
  next
    case (ProcessWrite c i u)
    then show ?thesis by (auto simp: Let_def refl intro!: same split: sum.splits)
  next
    case (SendToNodes ts m)
    then show ?thesis by (auto intro!: same)
  next
    case (IncrementFullNodeCount n)
    then show ?thesis by (auto simp: transfers_increase_full_node_count_def Let_def intro!: T grows_refl)
  next
    case (GetStoreCost rq b i src)
    then show ?thesis by (auto intro!: T grows_refl)
  next
    case (ProcessDataPayment m u)
    with K show ?thesis by (auto intro!: T module_grows_payment [OF A])
  next
    case (SectionSplit pre key sib newbie)
    then show ?thesis using up [OF newbie_grows [OF ok]] by simp
  next
    case Genesis
    then show ?thesis using up [OF level_up_grows [OF ok]] by simp
  next
    case LevelDown
    then show ?thesis using up [OF level_down_grows [OF ok]] by simp
  qed (use K in \<open>auto simp: refl with_chunks_def with_funds_def Let_def
      intro!: T same module_grows_handlers [OF A] split: sum.splits\<close>)
qed

lemma handle_grows:
  assumes A: "wallets_api_ok (na_ext A) (tp_replica (na_transfers A)) K" and ok: "wallets_ok A K nd"
    and room: "node_room A K 2 nd" and K: "duty_keys d \<subseteq> K" and step: "handle A S d nd = Some (r, nd')"
  shows "wallets_grow A K 2 nd nd'"
proof (cases "\<exists>pre key sib. d = SectionSplit pre key sib False")
  case True
  with step oldie_grows [OF A ok] show ?thesis by (auto simp: handle_def intro: wallets_grow_mono [of A K 0 nd nd' 2])
next
  case False
  then have "nd' = snd (handle_duty A S d nd)" using step by (auto simp: handle_def split: NodeDuty.splits bool.splits)
  with handle_duty_grows [OF A ok room K] show ?thesis by simp
qed

text \<open>What a duty leaves to do touches no wallet.\<close>

lemma handle_plain_same:
  assumes "plain d" and "handle A S d nd = Some (r, nd')"
  shows "nd_transfers nd' = nd_transfers nd \<and> nd_db_disk nd' = nd_db_disk nd \<and> nd_root_dir nd' = nd_root_dir nd"
  by (cases d) (use assms in \<open>auto simp: plain_def handle_def no_duties_def with_funds_def Let_def split: sum.split_asm if_split_asm\<close>)

lemma handle_all_plain_same:
  assumes "list_all plain ds" and "handle_all A env n ds nd = Some (ops, nd')"
  shows "nd_transfers nd' = nd_transfers nd \<and> nd_db_disk nd' = nd_db_disk nd \<and> nd_root_dir nd' = nd_root_dir nd"
  using assms
proof (induction ds arbitrary: n nd ops)
  case (Cons d ds)
  then obtain r nd1 ops1 where "handle A (env n) d nd = Some (r, nd1)" "handle_all A env (Suc n) ds nd1 = Some (ops1, nd')"
    by (auto split: option.split_asm)
  with Cons.IH [of "Suc n" nd1 ops1] Cons.prems handle_plain_same [of d A "env n" nd r nd1] show ?case by simp
qed simp

lemma work_grows:
  assumes A: "wallets_api_ok (na_ext A) (tp_replica (na_transfers A)) K" and ok: "wallets_ok A K nd"
    and room: "node_room A K 2 nd" and K: "duty_keys op \<subseteq> K" and work: "process_while_any A env op nd = Some nd'"
  shows "wallets_grow A K 2 nd nd'"
proof -
  obtain ops1 nd1 ops2 nd2 ops3 where r: "handle_all A env 0 [op] nd = Some (ops1, nd1)" "handle_all A env 1 ops1 nd1 = Some (ops2, nd2)"
      "handle_all A env (1 + length ops1) ops2 nd2 = Some (ops3, nd')"
    using work by (auto simp: process_while_any_rounds three_rounds_def bind_eq_Some_conv simp del: handle_all.simps)
  obtain res where "handle A (env 0) op nd = Some (res, nd1)" using r(1) by (auto split: option.split_asm)
  note g = handle_grows [OF A ok room K this]
  have p1: "list_all plain ops1" by (rule first_round_plain [OF r(1)])
  then have "list_all leaf ops2" using handle_all_plain [OF p1, of A env 1 nd1] r(2) by auto
  then have p2: "list_all plain ops2" by (auto simp: list_all_iff plain_def)
  have "wallets_grow A K 0 nd1 nd'"
    by (rule wallets_grow_same [OF wallets_grow_ok [OF g]]) (use handle_all_plain_same [OF p1 r(2)] handle_all_plain_same [OF p2 r(3)] in simp_all)
  from wallets_grow_trans [OF g this] show ?thesis by simp
qed

text \<open>The wallets an event is about are among \<open>K\<close>.\<close>

definition event_within :: "('db, 'd, 'w, 'a, 'f, 'm, 'h) node_api \<Rightarrow> message_api \<Rightarrow> PublicKey set \<Rightarrow>
    RoutingEvent \<times> (nat \<Rightarrow> nat + PublicKeySet) \<times> (nat \<Rightarrow> ('a, 'm, 'h) step_env) \<Rightarrow> bool" where
  "event_within A M K e = (case e of (event, polls, env) \<Rightarrow>
     (case map_routing_event (na_ext A) M event (se_network (env 0)) polls of
       Returns (MappingOk op _) \<Rightarrow> duty_keys op \<subseteq> K
     | _ \<Rightarrow> True))"

lemma event_grows:
  assumes A: "wallets_api_ok (na_ext A) (tp_replica (na_transfers A)) K" and ok: "wallets_ok A K nd"
    and room: "node_room A K 2 nd" and K: "event_within A M K e" and step: "node_event A M e nd = Returns nd'"
  shows "wallets_grow A K 2 nd nd'"
  using step K work_grows [OF A ok room] wallets_grow_refl [OF ok]
  by (auto simp: node_event_def event_within_def split: prod.split_asm outcome.split_asm Mapping.split_asm option.split_asm)

lemma node_room_grows:
  assumes "wallets_grow A K n nd nd'" and "node_room A K (n + m) nd"
  shows "node_room A K m nd'"
  unfolding node_room_def
proof
  fix pk
  obtain evs where "wallet_events A K nd' pk = wallet_events A K nd pk @ evs" "length evs \<le> n" using assms(1) by (auto simp: wallets_grow_def)
  moreover have "length (wallet_events A K nd pk) + (n + m) < 2 ^ 64" using assms(2) by (simp add: node_room_def)
  ultimately show "length (wallet_events A K nd' pk) + m < 2 ^ 64" by (simp only: length_append)
qed

lemma node_room_mono: "node_room A K n nd \<Longrightarrow> m \<le> n \<Longrightarrow> node_room A K m nd"
  unfolding node_room_def by (meson add_left_mono le_less_trans)

text \<open>
  C2. No event of a wallet is lost or changed in the life of a node, as long as no load of an existing
  database fails (\<open>databases_load\<close>, part of \<open>replica_api_ok\<close>): over any sequence of events, whatever
  the node is asked by clients and other sections, and through every promotion, demotion, change of
  elders and split, whether or not it succeeds and also when writes of databases fail, the events
  in the file of a wallet are the ones it had before, followed by at most two new ones for each
  event. The condition is needed: a failing load makes \<^verbatim>\<open>new_auto_dump_db\<close> overwrite the
  database with an empty one (lemma \<open>failed_load_erases\<close>), and then its events are lost.
\<close>

theorem wallets_survive:
  assumes "wallets_api_ok (na_ext A) (tp_replica (na_transfers A)) K" and "wallets_ok A K nd"
    and "node_room A K (2 * length events) nd" and "\<forall>e \<in> set events. event_within A M K e"
    and "node_run A M events nd = Returns nd'"
  shows "wallets_ok A K nd' \<and>
    (\<exists>evs. wallet_events A K nd' pk = wallet_events A K nd pk @ evs \<and> length evs \<le> 2 * length events)"
proof -
  have "wallets_grow A K (2 * length events) nd nd'"
    using assms(2-5)
  proof (induction events arbitrary: nd)
    case Nil
    then show ?case by (simp add: wallets_grow_refl)
  next
    case (Cons e events)
    then obtain nd1 where step: "node_event A M e nd = Returns nd1" "node_run A M events nd1 = Returns nd'"
      by (auto split: outcome.split_asm)
    have "node_room A K 2 nd" using node_room_mono [OF Cons.prems(2)] by simp
    with Cons.prems(1,3) event_grows [OF assms(1) _ _ _ step(1)] have g: "wallets_grow A K 2 nd nd1" by simp
    moreover have "node_room A K (2 * length events) nd1" using node_room_grows [OF g] Cons.prems(2) by simp
    with Cons.IH [OF wallets_grow_ok [OF g] _ _ step(2)] Cons.prems(3) have "wallets_grow A K (2 * length events) nd1 nd'" by simp
    ultimately show ?case using wallets_grow_trans by fastforce
  qed
  then show ?thesis by (simp add: wallets_grow_def)
qed

text \<open>An elder that takes a paid write and is then demoted.\<close>

lemma toy_wallets_api: "wallets_api_ok (na_ext toy_node_api) (tp_replica (na_transfers toy_node_api)) two_keys"
  using list_replica_ok by (simp add: wallets_api_ok_def toy_node_api_def toy_replica_of) (simp add: list_replica_def)

lemma toy_elder_replicas: "nd_transfers toy_elder = Some toy_transfers" "rp_root_dir (tr_replicas toy_transfers) = nd_root_dir toy_elder"
  by (simp_all add: toy_elder_def toy_transfers_replicas with_events_def fresh_replica_def Let_def)

lemma toy_elder_wallets: "wallets_ok toy_node_api two_keys toy_elder" "node_room toy_node_api two_keys 4 toy_elder"
proof -
  have api: "na_ext toy_node_api = example_ext" "tp_replica (na_transfers toy_node_api) = list_replica"
    by (simp_all add: toy_node_api_def toy_replica_of)
  have inv: "replicas_inv example_ext list_replica two_keys (tr_replicas toy_transfers)"
    using toy_payer(1) by (simp add: toy_transfers_replicas)
  then have "\<forall>pk db. disk_db example_ext list_replica two_keys (nd_root_dir toy_elder) (current_disk toy_elder) pk = Some db \<longrightarrow> db_fine list_replica pk db"
    using toy_elder_replicas by (simp add: replicas_inv_def on_disk_db current_disk_def)
  then show "wallets_ok toy_node_api two_keys toy_elder"
    using inv toy_elder_replicas by (simp add: wallets_ok_def api)
  have "length (wallet_events toy_node_api two_keys toy_elder pk) \<le> 1" for pk
    using toy_payer(2) [of pk] by (simp add: wallet_events_module [OF toy_elder_replicas] api toy_transfers_replicas)
  then show "node_room toy_node_api two_keys 4 toy_elder"
    unfolding node_room_def by (intro allI, rule le_less_trans [OF add_right_mono]) simp_all
qed

definition toy_life :: "(RoutingEvent \<times> (nat \<Rightarrow> nat + PublicKeySet) \<times> (nat \<Rightarrow> (nat, string \<Rightarrow> ChunkMetadata option, string \<Rightarrow> HolderMetadata option) step_env)) list" where
  "toy_life = [(ClientMessageReceived (CmdM (DataCmdMsg toy_debit toy_cmd) 3 None) (AllClients toy_key), \<lambda>n. Inl 0, \<lambda>n. toy_env),
     (EldersChangedEvent (Prefix 0 0) 7 None Demoted, \<lambda>n. Inl 0, \<lambda>n. toy_env)]"

lemma toy_demoted: "map_routing_event E M (EldersChangedEvent (Prefix 0 0) 7 None Demoted) (se_network toy_env) polls = Returns (MappingOk LevelDown None)"
  by (simp add: map_routing_event_def toy_env_def Wallet_Guarantees.toy_routing_def our_elder_names_def bts_collect_def Let_def)

theorem wallets_survive_witness:
  "\<exists>nd' evs. node_run toy_node_api toy_message_api toy_life toy_elder = Returns nd' \<and>
     wallet_events toy_node_api two_keys nd' toy_key = wallet_events toy_node_api two_keys toy_elder toy_key @ evs"
proof -
  obtain nd1 where w: "node_event toy_node_api toy_message_api
      (ClientMessageReceived (CmdM (DataCmdMsg toy_debit toy_cmd) 3 None) (AllClients toy_key), \<lambda>n. Inl 0, \<lambda>n. toy_env) toy_elder = Returns nd1"
    using toy_write by blast
  have "process_while_any toy_node_api (\<lambda>n. toy_env) LevelDown nd1 \<noteq> None" by (simp add: process_while_any_returns handle_def)
  then obtain nd' where "process_while_any toy_node_api (\<lambda>n. toy_env) LevelDown nd1 = Some nd'" by blast
  with w have run: "node_run toy_node_api toy_message_api toy_life toy_elder = Returns nd'"
    by (simp add: toy_life_def) (simp add: node_event_def toy_demoted)
  have "\<forall>e \<in> set toy_life. event_within toy_node_api toy_message_api two_keys e"
    using toy_recipient by (simp add: toy_life_def event_within_def toy_demoted) (simp add: map_routing_event_def match_user_sent_msg_def)
  moreover have "node_room toy_node_api two_keys (2 * length toy_life) toy_elder" using toy_elder_wallets(2) by (simp add: toy_life_def)
  ultimately show ?thesis
    using wallets_survive [OF toy_wallets_api toy_elder_wallets(1) _ _ run, of toy_key] run by blast
qed

end
