(* ===== verification/Config_Example.thy ===== *)
theory Config_Example
  imports Config
begin

text \<open>
  The program that demonstrates how settings are put together
  (\<^verbatim>\<open>src/examples/config_handling.rs\<close>): it saves settings to the file, makes the settings of a node
  from the file and the command line, and asserts what has become of each of them.
\<close>

section \<open>The program\<close>

text \<open>The settings it saves; \<open>net\<close> is the default of the transport's settings.\<close>

definition file_config :: "NetworkConfig \<Rightarrow> Config" where
  "file_config net = (config_default net)\<lparr>cfg_skip_igd := True,
     cfg_network_config := net\<lparr>nc_local_ip := Some (V4 3232235521), nc_local_port := Some 0, nc_external_port := Some 12345\<rparr>\<rparr>"

text \<open>The assertions, in order, on the saved settings, the command line and the settings made of them.\<close>

definition expected :: "'a option \<Rightarrow> 'a option \<Rightarrow> 'a option \<Rightarrow> bool" where
  "expected command_line file value \<longleftrightarrow> (if command_line \<noteq> None then command_line = value else file = value)"

definition assert_settings :: "Config \<Rightarrow> Config \<Rightarrow> Config \<Rightarrow> bool" where
  "assert_settings file args config \<longleftrightarrow>
     expected (cfg_wallet_id args) (cfg_wallet_id file) (cfg_wallet_id config) \<and>
     expected (cfg_max_capacity args) (cfg_max_capacity file) (cfg_max_capacity config) \<and>
     expected (cfg_root_dir args) (cfg_root_dir file) (cfg_root_dir config) \<and>
     (if cfg_verbose args > 0 then cfg_verbose args = cfg_verbose config else cfg_verbose file = cfg_verbose config) \<and>
     expected (cfg_completions args) (cfg_completions file) (cfg_completions config) \<and>
     expected (cfg_log_dir args) (cfg_log_dir file) (cfg_log_dir config) \<and>
     cfg_update config = (cfg_update file \<or> cfg_update args) \<and>
     cfg_update_only config = (cfg_update_only file \<or> cfg_update_only args) \<and>
     cfg_clear_data config = (cfg_clear_data file \<or> cfg_clear_data args)"

definition assert_addresses :: "Config \<Rightarrow> Config \<Rightarrow> Config \<Rightarrow> bool" where
  "assert_addresses file args config \<longleftrightarrow>
     (if cfg_local_addr args \<noteq> None \<or> cfg_first args \<noteq> None
      then newer (cfg_first args) (cfg_local_addr args) = cfg_local_addr config
      else nc_local_ip (cfg_network_config file) = map_option ip (cfg_local_addr config) \<and>
        nc_local_port (cfg_network_config file) = map_option port (cfg_local_addr config)) \<and>
     (if cfg_public_addr args \<noteq> None then cfg_public_addr args = cfg_public_addr config
      else nc_external_ip (cfg_network_config file) = nc_external_ip (cfg_network_config config) \<and>
        nc_external_port (cfg_network_config file) = nc_external_port (cfg_network_config config))"

definition assert_network :: "Config \<Rightarrow> Config \<Rightarrow> Config \<Rightarrow> bool" where
  "assert_network file args config \<longleftrightarrow> (let was = cfg_network_config file; net = cfg_network_config config in
     nc_forward_port net = (\<not> cfg_skip_igd args) \<and>
     (if cfg_hard_coded_contacts args \<noteq> {} then cfg_hard_coded_contacts args = nc_hard_coded_contacts net
      else nc_hard_coded_contacts was = nc_hard_coded_contacts net) \<and>
     expected (cfg_max_msg_size_allowed args) (nc_max_msg_size_allowed was) (nc_max_msg_size_allowed net) \<and>
     expected (cfg_idle_timeout_msec args) (nc_idle_timeout_msec was) (nc_idle_timeout_msec net) \<and>
     expected (cfg_keep_alive_interval_msec args) (nc_keep_alive_interval_msec was) (nc_keep_alive_interval_msec net) \<and>
     expected (cfg_bootstrap_cache_dir args) (nc_bootstrap_cache_dir was) (nc_bootstrap_cache_dir net) \<and>
     expected (cfg_upnp_lease_duration args) (nc_upnp_lease_duration was) (nc_upnp_lease_duration net))"

text \<open>At the end the file of settings is removed again; the flag says whether this works.\<close>

definition clear_disk_config :: "dir option \<Rightarrow> bool \<Rightarrow> fs \<Rightarrow> unit result \<times> fs" where
  "clear_disk_config home removed d = (case ok_or Io home of
     Inl e \<Rightarrow> (Inl e, d)
   | Inr home_dir \<Rightarrow>
       let path = (home_dir @ [''.safe'', ''node''], ''node.config'') in
       if removed \<and> fs_read d path \<noteq> None then (Inr (), fs_remove path d) else (Inl Io, d))"

definition config_handling :: "json_api \<Rightarrow> NetworkConfig \<Rightarrow> dir option \<Rightarrow> cfg_write_io \<Rightarrow> bool \<Rightarrow> remove_io \<Rightarrow> bool \<Rightarrow> Config \<Rightarrow> fs \<Rightarrow>
    (unit result \<times> fs) outcome" where
  "config_handling J net home write_io can_open io removed args d =
     (case write_to_disk J home write_io (file_config net) d of
       (Inl e, d1) \<Rightarrow> Returns (Inl e, d1)
     | (Inr _, d1) \<Rightarrow> (case config_new J net home can_open io args d1 of
         (Inl e, d2) \<Rightarrow> Returns (Inl e, d2)
       | (Inr config, d2) \<Rightarrow>
           if assert_settings (file_config net) args config \<and> assert_addresses (file_config net) args config \<and>
             assert_network (file_config net) args config
           then Returns (clear_disk_config home removed d2)
           else Panics))"

section \<open>What it shows of the settings\<close>

text \<open>Everything but the addresses comes out as asserted, for any command line and any file.\<close>

lemma newer_expected: "expected a b (newer a b)"
  by (auto simp: expected_def)

lemma merged_settings:
  "assert_settings file args (merge_config args file)" "assert_network file args (merge_config args file)"
  by (simp_all add: assert_settings_def assert_network_def merge_config_def merge_network_def Let_def newer_expected, auto)

text \<open>The assertions look only at fields of the command line that validation leaves alone.\<close>

definition same_settings :: "Config \<Rightarrow> Config \<Rightarrow> bool" where
  "same_settings a b \<longleftrightarrow> b = a\<lparr>cfg_local_addr := cfg_local_addr b, cfg_public_addr := cfg_public_addr b\<rparr>"

lemma same_settings_assertions:
  assumes "same_settings a b"
  shows "assert_settings file b c = assert_settings file a c" and "assert_network file b c = assert_network file a c"
    and "cfg_first b = cfg_first a" and "cfg_skip_igd b = cfg_skip_igd a"
proof -
  obtain l p where b: "b = a\<lparr>cfg_local_addr := l, cfg_public_addr := p\<rparr>" using assms unfolding same_settings_def by blast
  show "assert_settings file b c = assert_settings file a c" by (simp add: b assert_settings_def)
  show "assert_network file b c = assert_network file a c" by (simp add: b assert_network_def)
  show "cfg_first b = cfg_first a" "cfg_skip_igd b = cfg_skip_igd a" by (simp_all add: b)
qed

text \<open>The command line after validation, with the address of a first node taken over.\<close>

definition started_args :: "Config \<Rightarrow> Config" where
  "started_args args = (let v = snd (validate args) in
     case cfg_first v of Some a \<Rightarrow> v\<lparr>cfg_local_addr := Some a\<rparr> | None \<Rightarrow> v)"

definition rejected_args :: "Config \<Rightarrow> bool" where
  "rejected_args args \<longleftrightarrow> cfg_public_addr args \<noteq> None \<and> cfg_first args = None \<and> cfg_local_addr args = None"

lemma started_args_same: "same_settings args (started_args args)"
  by (simp add: same_settings_def started_args_def validate_def Let_def split: option.split)

lemma started_args_addrs:
  "cfg_public_addr (started_args args) =
     (if cfg_public_addr args = None \<and> cfg_skip_igd args then cfg_local_addr args else cfg_public_addr args)"
  "cfg_local_addr (started_args args) =
     (if cfg_first args \<noteq> None then cfg_first args
      else if cfg_public_addr args = None \<and> \<not> cfg_skip_igd args then None else cfg_local_addr args)"
  by (auto simp: started_args_def validate_def Let_def split: option.split)

lemma config_new_started:
  assumes "read_from_file J home can_open d = Inr (Some file)"
  shows "\<exists>e. config_new J net home can_open io args d =
    (if rejected_args args then (Inl e, d)
     else (Inr (merge_config (started_args args) file), snd (clear_data_from_disk home io (merge_config (started_args args) file) d)))"
proof (cases "rejected_args args")
  case True
  then show ?thesis by (simp add: config_new_def validate_def rejected_args_def)
next
  case False
  then have "validate args = (Inr (), snd (validate args))" by (auto simp: rejected_args_def validate_def)
  then obtain v where "validate args = (Inr (), v)" by blast
  with False assms show ?thesis by (simp add: config_new_def started_args_def Let_def)
qed

lemma example_asserted:
  assumes "nc_external_ip net = None" and "\<not> rejected_args args"
  defines "c \<equiv> merge_config (started_args args) (file_config net)"
  shows "assert_settings (file_config net) args c \<and> assert_network (file_config net) args c"
    and "assert_addresses (file_config net) args c \<longleftrightarrow>
      cfg_public_addr args \<noteq> None \<or> cfg_first args \<noteq> None \<and> (cfg_local_addr args = None \<or> \<not> cfg_skip_igd args)"
proof -
  note same = same_settings_assertions [OF started_args_same [of args]]
  show "assert_settings (file_config net) args c \<and> assert_network (file_config net) args c"
    using merged_settings [of "file_config net" "started_args args"] by (simp add: c_def same)
  show "assert_addresses (file_config net) args c \<longleftrightarrow>
      cfg_public_addr args \<noteq> None \<or> cfg_first args \<noteq> None \<and> (cfg_local_addr args = None \<or> \<not> cfg_skip_igd args)"
    using assms(1,2)
    by (cases "cfg_first args"; cases "cfg_local_addr args"; cases "cfg_public_addr args"; cases "cfg_skip_igd args")
      (simp_all add: c_def assert_addresses_def merge_config_def merge_network_def started_args_addrs same file_config_def
        config_default_def rejected_args_def)
qed

text \<open>
  C40. Which settings of the demonstration do not come out as it asserts: on a file that was saved
  and read back, it is stopped by an assertion exactly if no public address is given, and
  either the node is not a first one or a local address comes with the flag that skips port forwarding.
  Without arguments, it always is: the local address of a node is never taken from the
  transport's part of the file. A command line with a public and without a local address is refused.
\<close>

theorem config_handling_panics_iff:
  assumes "js_read_config J (js_config J (file_config net)) = Some (Some (file_config net))" and "nc_external_ip net = None"
    and "home = Some h"
  shows "config_handling J net home CfgWritten True io removed args d = Panics \<longleftrightarrow>
    cfg_public_addr args = None \<and> (cfg_first args = None \<or> cfg_local_addr args \<noteq> None \<and> cfg_skip_igd args)"
proof -
  obtain d1 where w: "write_to_disk J home CfgWritten (file_config net) d = (Inr (), d1)"
    using assms(3) by (simp add: write_to_disk_def write_file_def project_dirs_def ok_or_def)
  obtain e where new: "config_new J net home True io args d1 =
    (if rejected_args args then (Inl e, d1)
     else (Inr (merge_config (started_args args) (file_config net)),
       snd (clear_data_from_disk home io (merge_config (started_args args) (file_config net)) d1)))"
    using config_new_started [OF saved_settings_read_back [OF w assms(1)]] by blast
  show ?thesis
  proof (cases "rejected_args args")
    case True
    then show ?thesis by (auto simp: config_handling_def w new rejected_args_def)
  next
    case False
    with example_asserted [OF assms(2) False] show ?thesis by (auto simp: config_handling_def w new)
  qed
qed

text \<open>A coding of settings that knows the demonstration's.\<close>

definition demo_json :: json_api where
  "demo_json = mute_json\<lparr>js_read_config := (\<lambda>b. Some (Some (file_config empty_net)))\<rparr>"

theorem config_handling_panics_iff_witness:
  "config_handling demo_json empty_net (Some [''home'']) CfgWritten True AllRemoved True (config_default empty_net) [] = Panics \<and>
   config_handling demo_json empty_net (Some [''home'']) CfgWritten True AllRemoved True
     ((config_default empty_net)\<lparr>cfg_first := Some home_addr\<rparr>) [] \<noteq> Panics"
proof -
  have "js_read_config demo_json (js_config demo_json (file_config empty_net)) = Some (Some (file_config empty_net))"
    "nc_external_ip empty_net = None"
    by (simp_all add: demo_json_def empty_net_def)
  from config_handling_panics_iff [OF this refl] show ?thesis by (simp add: config_default_def)
qed

end
