(* ===== verification/Program.thy ===== *)
theory Program
  imports Node_Wallets Node_Space Config_Example
begin

text \<open>
  The program that runs a node (\<^verbatim>\<open>src/src/bin/sn_node.rs\<close>), from its command line to its exit status, and
  the one that launches a network of nodes for tests (\<^verbatim>\<open>src/src/bin/launch_network.rs\<close>). The parser of
  the command line, the generator of completions, the updater and the launcher of processes are
  parameters.
\<close>

section \<open>Completions and updates\<close>

datatype (plugins only: code size) Status = UpToDate | Updated

text \<open>
  What a run of the program meets. The name of the executable may have no last component or one
  that is no text; the parser of the command line may end the process.
\<close>

record ('a, 'm, 'h) program_env =
  pr_spawned :: bool
  pr_runtime :: bool
  pr_args :: "nat + Config"
  pr_config_open :: bool
  pr_remove_io :: remove_io
  pr_shell :: "string \<Rightarrow> nat option"
  pr_exe :: "string + string option option"
  pr_completions :: "string \<Rightarrow> nat \<Rightarrow> bytes"
  pr_stdout :: bool
  pr_target :: string
  pr_releases :: "nat + string list"
  pr_updater :: "string \<Rightarrow> nat + Status"
  pr_start :: start_env
  pr_step :: "('a, 'm, 'h) step_env"
  pr_conn_info :: SocketAddr
  pr_contacts_open :: bool
  pr_contacts_io :: cfg_write_io
  pr_events :: "(RoutingEvent \<times> (nat \<Rightarrow> nat + PublicKeySet) \<times> (nat \<Rightarrow> ('a, 'm, 'h) step_env)) list"

definition gen_completions_for_shell :: "('a, 'm, 'h) program_env \<Rightarrow> nat \<Rightarrow> string + bytes" where
  "gen_completions_for_shell P sh = (case pr_exe P of
     Inl err \<Rightarrow> Inl (''Can't get the exec path: '' @ err)
   | Inr None \<Rightarrow> Inl ''Can't extract file_name of executable from path''
   | Inr (Some None) \<Rightarrow> Inl ''Can't decode unicode in executable name''
   | Inr (Some (Some exec_name)) \<Rightarrow> Inr (pr_completions P exec_name sh))"

text \<open>\<^verbatim>\<open>str::contains\<close>.\<close>

definition str_contains :: "string \<Rightarrow> string \<Rightarrow> bool" where
  "str_contains s pat \<longleftrightarrow> list_ex (\<lambda>i. take (length pat) (drop i s) = pat) [0..<Suc (length s)]"

definition update_node :: "('a, 'm, 'h) program_env \<Rightarrow> nat + Status" where
  "update_node P = (case pr_releases P of
     Inl e \<Rightarrow> Inl e
   | Inr releases \<Rightarrow>
       if releases \<noteq> []
       then pr_updater P (if str_contains (pr_target P) ''pc-windows'' then ''sn_node.exe'' else ''sn_node'')
       else Inr UpToDate)"

section \<open>Running a node\<close>

text \<open>How the function that runs a node ends: it returns, with what it printed, or ends the process.\<close>

datatype (plugins only: code size) run_end = Returned bytes | Exited nat

text \<open>What is printed for a request of completions; errors are only reported.\<close>

definition print_completions :: "('a, 'm, 'h) program_env \<Rightarrow> string \<Rightarrow> bytes" where
  "print_completions P c = (case pr_shell P c of
     None \<Rightarrow> []
   | Some sh \<Rightarrow> (case gen_completions_for_shell P sh of
       Inl _ \<Rightarrow> []
     | Inr buf \<Rightarrow> if pr_stdout P then buf else []))"

text \<open>The status with which an update ends the process, if it does.\<close>

definition update_exit :: "('a, 'm, 'h) program_env \<Rightarrow> Config \<Rightarrow> nat option" where
  "update_exit P config =
     (if cfg_update config \<or> cfg_update_only config
      then if update_node P = Inr Updated then Some 0
        else if cfg_update_only config then Some 0 else None
      else None)"

text \<open>The address of the node is left for others, whether or not this works.\<close>

definition announce :: "json_api \<Rightarrow> ('a, 'm, 'h) program_env \<Rightarrow> Config \<Rightarrow> fs \<Rightarrow> fs" where
  "announce J P config d = snd
     (if is_first config then set_connection_info J (st_home (pr_start P)) (pr_contacts_io P) (pr_conn_info P) d
      else add_connection_info J (st_home (pr_start P)) (pr_contacts_open P) (pr_contacts_io P) (pr_conn_info P) d)"

definition run_started :: "('db, 'd, 'w, 'a, 'f, 'm, 'h) node_api \<Rightarrow> message_api \<Rightarrow> json_api \<Rightarrow> ('a, 'm, 'h) program_env \<Rightarrow> Config \<Rightarrow>
    ('db, 'd, 'a, 'm, 'h) Node \<Rightarrow> fs \<Rightarrow> (run_end \<times> fs \<times> ('db, 'd, 'a, 'm, 'h) Node option) outcome" where
  "run_started A M J P config nd d =
     (let nd1 = nd\<lparr>nd_world := (nd_world nd)\<lparr>disk := announce J P config d\<rparr>\<rparr>
      in case node_run A M (pr_events P) nd1 of
        Returns nd' \<Rightarrow> Returns (Exited 0, disk (nd_world nd'), Some nd')
      | Panics \<Rightarrow> Panics
      | Runs_forever \<Rightarrow> Runs_forever)"

definition run_node :: "('db, 'd, 'w, 'a, 'f, 'm, 'h) node_api \<Rightarrow> message_api \<Rightarrow> key_codec \<Rightarrow> json_api \<Rightarrow> NetworkConfig \<Rightarrow>
    ('a, 'm, 'h) program_env \<Rightarrow> 'd \<Rightarrow> fs \<Rightarrow> (run_end \<times> fs \<times> ('db, 'd, 'a, 'm, 'h) Node option) outcome" where
  "run_node A M C J net P db d = (case pr_args P of
     Inl status \<Rightarrow> Returns (Exited status, d, None)
   | Inr args \<Rightarrow> (case config_new J net (st_home (pr_start P)) (pr_config_open P) (pr_remove_io P) args d of
       (Inl e, d1) \<Rightarrow> Returns (Exited 1, d1, None)
     | (Inr config, d1) \<Rightarrow> (case cfg_completions config of
         Some c \<Rightarrow> Returns (Returned (print_completions P c), d1, None)
       | None \<Rightarrow> (case update_exit P config of
           Some status \<Rightarrow> Returns (Exited status, d1, None)
         | None \<Rightarrow> (case node_new A C (pr_start P) (pr_step P) config db d1 of
             Returns (Inr nd, d2) \<Rightarrow> run_started A M J P config nd d2
           | Returns (Inl e, d2) \<Rightarrow> Returns (Exited 1, d2, None)
           | Panics \<Rightarrow> Panics
           | Runs_forever \<Rightarrow> Runs_forever)))))"

text \<open>
  The exit status of the process. The node runs in a thread of its own; if this cannot be started
  or panics, this is printed, and the process ends as usual.
\<close>

definition program_main :: "('db, 'd, 'w, 'a, 'f, 'm, 'h) node_api \<Rightarrow> message_api \<Rightarrow> key_codec \<Rightarrow> json_api \<Rightarrow> NetworkConfig \<Rightarrow>
    ('a, 'm, 'h) program_env \<Rightarrow> 'd \<Rightarrow> fs \<Rightarrow> nat outcome" where
  "program_main A M C J net P db d =
     (if \<not> pr_spawned P \<or> \<not> pr_runtime P then Returns 0
      else (case run_node A M C J net P db d of
          Returns (Exited status, _) \<Rightarrow> Returns status
        | Returns (Returned _, _) \<Rightarrow> Returns 0
        | Panics \<Rightarrow> Returns 0
        | Runs_forever \<Rightarrow> Runs_forever))"

section \<open>Launching a network\<close>

definition SAFE_NODE_EXECUTABLE :: string where
  "SAFE_NODE_EXECUTABLE = ''sn_node''"

definition NODES_DIR :: string where
  "NODES_DIR = ''local-test-network''"

definition INTERVAL :: string where
  "INTERVAL = ''2''"

definition NODE_COUNT :: string where
  "NODE_COUNT = ''60''"

definition get_node_bin_path :: "dir option \<Rightarrow> PathBuf option \<Rightarrow> string + PathBuf" where
  "get_node_bin_path home node_path = (case node_path of
     Some p \<Rightarrow> Inr p
   | None \<Rightarrow> and_then (ok_or ''Failed to obtain user's home path'' home)
       (\<lambda>home_dirs. Inr (AbsPath (home_dirs @ [''.safe'', ''node'']))))"

text \<open>\<^verbatim>\<open>Path::join\<close> of a name, and \<^verbatim>\<open>Path::display\<close>.\<close>

fun join_name :: "PathBuf \<Rightarrow> string \<Rightarrow> PathBuf" where
  "join_name (AbsPath d) n = AbsPath (d @ [n])"
| "join_name (RelPath d) n = RelPath (d @ [n])"

fun intersperse_slash :: "string list \<Rightarrow> string" where
  "intersperse_slash [] = []"
| "intersperse_slash [n] = n"
| "intersperse_slash (n # ns) = n @ ''/'' @ intersperse_slash ns"

fun display :: "PathBuf \<Rightarrow> string" where
  "display (AbsPath d) = ''/'' @ intersperse_slash d"
| "display (RelPath d) = intersperse_slash d"

text \<open>What the launcher meets: directories, environment variables, and the tools it calls.\<close>

record launch_env =
  ln_home :: "dir option"
  ln_nodes_created :: bool
  ln_build :: "string + nat"
  ln_log_dir_exists :: bool
  ln_log_dir_created :: "string + unit"
  ln_node_count :: "string option"
  ln_rust_log :: "string option"
  ln_tool :: "string list \<Rightarrow> string + unit"

definition launch_args :: "launch_env \<Rightarrow> string \<Rightarrow> string \<Rightarrow> string list" where
  "launch_args L arg_node_path arg_node_log_dir =
     (let node_count = (case ln_node_count L of Some n \<Rightarrow> n | None \<Rightarrow> NODE_COUNT);
          rust_log = (case ln_rust_log L of Some l \<Rightarrow> l | None \<Rightarrow> []);
          verbosity = 4
      in [''sn_launch_tool'', ''-v'', ''--node-path'', arg_node_path, ''--nodes-dir'', arg_node_log_dir,
          ''--interval'', INTERVAL, ''--local'', ''--num-nodes'', node_count]
        @ (if rust_log \<noteq> [] then [''--rust-log'', rust_log] else [])
        @ (if verbosity > 0 then [''-'' @ replicate verbosity (CHR ''y'')] else []))"

text \<open>The number of seconds it waits for the network at the end.\<close>

definition run_network :: "launch_env \<Rightarrow> string + nat" where
  "run_network L = and_then (get_node_bin_path (ln_home L) (Some (RelPath [''.'', ''target'', ''release'']))) (\<lambda>node_path.
     and_then (get_node_bin_path (ln_home L) None) (\<lambda>base_log_dir.
     let node_log_dir = join_name base_log_dir NODES_DIR in
     and_then (if ln_log_dir_exists L then Inr ()
         else map_err (\<lambda>e. ''Couldn't create target path to store nodes' generated data: '' @ e) (ln_log_dir_created L)) (\<lambda>_.
     and_then (ln_tool L (launch_args L (display (join_name node_path SAFE_NODE_EXECUTABLE)) (display node_log_dir))) (\<lambda>_.
       Inr (2 * 15)))))"

text \<open>The status of the build is not looked at, only whether it could be run.\<close>

definition launch_main :: "launch_env \<Rightarrow> (string + unit) outcome" where
  "launch_main L = (if \<not> ln_nodes_created L then Panics
     else Returns (and_then (map_err (\<lambda>e. ''Failed to run build command with args: '' @ e) (ln_build L)) (\<lambda>_.
       and_then (run_network L) (\<lambda>_. Inr ()))))"

section \<open>The node that runs\<close>

lemma run_node_startedD:
  assumes "run_node A M C J net P db d = Returns (e, d', Some nd')"
  obtains args config d1 nd d2 where "pr_args P = Inr args"
    and "config_new J net (st_home (pr_start P)) (pr_config_open P) (pr_remove_io P) args d = (Inr config, d1)"
    and "cfg_completions config = None" and "update_exit P config = None"
    and "node_new A C (pr_start P) (pr_step P) config db d1 = Returns (Inr nd, d2)"
    and "run_started A M J P config nd d2 = Returns (e, d', Some nd')"
  using assms that
  by (auto simp: run_node_def split: sum.split_asm prod.split_asm option.split_asm outcome.split_asm)

lemma run_startedD:
  assumes "run_started A M J P config nd d = Returns (e, d', Some nd')"
  shows "e = Exited 0 \<and> d' = disk (nd_world nd') \<and>
    node_run A M (pr_events P) (nd\<lparr>nd_world := (nd_world nd)\<lparr>disk := announce J P config d\<rparr>\<rparr>) = Returns nd'"
  using assms by (auto simp: run_started_def Let_def split: outcome.split_asm)

text \<open>A capacity on the command line is the one that counts.\<close>

lemma command_line_capacity:
  assumes "config_new J net home can_open io args d = (Inr config, d')" and "cfg_max_capacity args = Some n"
  shows "config_max_capacity config = n"
proof -
  obtain v where v: "validate args = (Inr (), v)" "cfg_max_capacity v = Some n"
    using assms by (auto simp: config_new_def validate_def split: if_split_asm)
  with assms(1) show ?thesis
    by (auto simp: config_new_def Let_def merge_config_def config_max_capacity_def split: option.split_asm)
qed

lemma announced_within: "space_within cap nd \<Longrightarrow> space_within cap (nd\<lparr>nd_world := (nd_world nd)\<lparr>disk := d\<rparr>\<rparr>)"
  by (simp add: space_within_def)

lemma announced_inv: "node_inv nd \<Longrightarrow> node_inv (nd\<lparr>nd_world := w\<rparr>)"
  by (simp add: node_inv_def)

text \<open>
  C5. From the command line to the running node: a process that ran a node had valid settings, was
  not asked for completions or only for an update, and ends with status 0. Whatever events the
  node met, the use of space it records (which leaves out the files of an earlier run) is within the
  settings: the capacity of the command line if there is one, else the one of the file or the
  default; and it was never adult and elder at once.
\<close>

theorem running_node_respects_settings:
  assumes "run_node A M C J net P db d = Returns (e, d', Some nd')"
  shows "\<exists>args config d1. pr_args P = Inr args \<and>
    config_new J net (st_home (pr_start P)) (pr_config_open P) (pr_remove_io P) args d = (Inr config, d1) \<and>
    cfg_completions config = None \<and> \<not> cfg_update_only config \<and> e = Exited 0 \<and> node_inv nd' \<and>
    total (nd_world nd') \<le> config_max_capacity config \<and>
    (\<forall>n. cfg_max_capacity args = Some n \<longrightarrow> total (nd_world nd') \<le> n)"
  using assms
proof (rule run_node_startedD)
  fix args config d1 nd d2
  assume h: "pr_args P = Inr args"
      "config_new J net (st_home (pr_start P)) (pr_config_open P) (pr_remove_io P) args d = (Inr config, d1)"
      "cfg_completions config = None" "update_exit P config = None"
    and new: "node_new A C (pr_start P) (pr_step P) config db d1 = Returns (Inr nd, d2)"
    and run: "run_started A M J P config nd d2 = Returns (e, d', Some nd')"
  note ran = run_startedD [OF run]
  then have "space_within (config_max_capacity config) nd'" "node_inv nd'"
    using within_run [OF _ announced_within [OF within_new [OF new]]] node_run_inv [OF _ announced_inv [OF node_new_inv [OF new]]] by blast+
  then have "total (nd_world nd') \<le> config_max_capacity config" "node_inv nd'"
    by (auto simp: space_within_def space_wf_def total_def)
  moreover have "\<not> cfg_update_only config" using h(4) by (auto simp: update_exit_def split: if_split_asm)
  ultimately show ?thesis using h(1-3) ran command_line_capacity [OF h(2)] by blast
qed

section \<open>The exit status\<close>

text \<open>
  C39. What the exit status tells: with arguments that were parsed, the process ends with a status
  other than 0 exactly if the settings are refused or, when a node is to be run, its start
  fails with an error; the status is then 1. In particular the status is 0 if the
  thread of the node cannot be started or panics.
\<close>

theorem exit_status_failure:
  assumes "pr_args P = Inr args"
    and "config_new J net (st_home (pr_start P)) (pr_config_open P) (pr_remove_io P) args d = (r, d1)"
  shows "program_main A M C J net P db d = Returns n \<and> n \<noteq> 0 \<longleftrightarrow>
    n = 1 \<and> pr_spawned P \<and> pr_runtime P \<and>
    (case r of
       Inl _ \<Rightarrow> True
     | Inr config \<Rightarrow> cfg_completions config = None \<and> update_exit P config = None \<and>
         (\<exists>e d2. node_new A C (pr_start P) (pr_step P) config db d1 = Returns (Inl e, d2)))"
proof -
  have started: "run_started A M J P config nd d2 = Returns (e, x) \<Longrightarrow> e = Exited 0" for config nd d2 e x
    by (auto simp: run_started_def Let_def split: outcome.split_asm)
  have "update_exit P config = Some status \<Longrightarrow> status = 0" for config status
    by (auto simp: update_exit_def split: if_split_asm)
  with assms show ?thesis
    by (auto simp: program_main_def run_node_def split: sum.split option.split outcome.split run_end.split
        dest!: started)
qed

text \<open>
  A mistyped wallet goes unnoticed: if the wallet of the settings has fewer hexadecimal digits than a
  key, no node is started and the process ends with status 0, as if all was well.
\<close>

theorem short_wallet_id_exits_with_success:
  assumes "pr_args P = Inr args"
    and "config_new J net (st_home (pr_start P)) (pr_config_open P) (pr_remove_io P) args d = (Inr config, d1)"
    and "cfg_completions config = None" and "update_exit P config = None"
    and "config_root_dir (st_home (pr_start P)) config = Inr root_dir" and "st_dir_ok (pr_start P)"
    and "cfg_wallet_id config = Some hex" and "length (filter (\<lambda>c. hex_value c \<noteq> None) hex) < 2 * kc_size C"
  shows "run_node A M C J net P db d = Panics \<and> program_main A M C J net P db d = Returns 0"
proof -
  have "pk_from_hex C hex = Panics" using assms(8) by (simp add: pk_from_hex_panics_iff)
  then have "node_new A C (pr_start P) (pr_step P) config db d1 = Panics"
    using assms(5-7) by (simp add: node_new_def start_reward_key_def Let_def)
  then have "run_node A M C J net P db d = Panics" using assms(1-4) by (simp add: run_node_def)
  then show ?thesis by (simp add: program_main_def)
qed

text \<open>The address of a node is among the addresses that it leaves for others; a first node starts anew.\<close>

lemma announced_address:
  assumes "json_ok J" and "project_dirs (st_home (pr_start P)) = Inr p" and "pr_contacts_io P = CfgWritten" and "pr_contacts_open P"
    and "read_conn_info_from_file J (st_home (pr_start P)) True d = r" and "\<forall>S. r = Inr S \<longrightarrow> finite S"
  shows "read_conn_info_from_file J (st_home (pr_start P)) True (announce J P config d) =
    Inr (if is_first config then {pr_conn_info P} else insert (pr_conn_info P) (case r of Inr S \<Rightarrow> S | Inl _ \<Rightarrow> {}))"
  using assms
  by (cases r) (auto simp: announce_def set_connection_info_def add_connection_info_def write_file_def read_conn_info_from_file_def
      json_ok_def ok_or_def update_conv')

text \<open>A failed build of the program does not keep the launcher from going on.\<close>

lemma launch_ignores_build_status:
  "ln_build L = Inr status \<Longrightarrow> launch_main L = launch_main (L\<lparr>ln_build := Inr 0\<rparr>)"
  by (simp add: launch_main_def run_network_def launch_args_def Let_def)

section \<open>A run of the program\<close>

definition toy_program :: "Config \<Rightarrow> (nat, string \<Rightarrow> ChunkMetadata option, string \<Rightarrow> HolderMetadata option) program_env" where
  "toy_program args = \<lparr>pr_spawned = True, pr_runtime = True, pr_args = Inr args, pr_config_open = True, pr_remove_io = AllRemoved,
     pr_shell = (\<lambda>s. None), pr_exe = Inr None, pr_completions = (\<lambda>n sh. []), pr_stdout = True, pr_target = ''linux'',
     pr_releases = Inr [], pr_updater = (\<lambda>n. Inr UpToDate), pr_start = toy_start, pr_step = toy_env, pr_conn_info = home_addr,
     pr_contacts_open = True, pr_contacts_io = CfgWritten, pr_events = []\<rparr>"

lemma toy_config:
  "config_new mute_json empty_net home True AllRemoved (config_default empty_net) [] = (Inr (config_default empty_net), [])"
proof -
  have "merge_config (config_default empty_net) (config_default empty_net) = config_default empty_net"
    by (simp add: start_without_arguments) (simp add: config_default_def empty_net_def)
  moreover have "read_from_file mute_json home True [] \<noteq> Inr (Some c)" for c
    by (cases home) (simp_all add: read_from_file_def project_dirs_def ok_or_def)
  ultimately show ?thesis
    by (auto simp: config_new_def validate_def clear_data_from_disk_def Let_def split: sum.split option.split)
      (simp_all add: config_default_def)
qed

theorem running_node_respects_settings_witness:
  "\<exists>e d' nd'. run_node toy_node_api toy_message_api byte_codec mute_json empty_net (toy_program (config_default empty_net)) (\<lambda>p. None) [] =
       Returns (e, d', Some nd') \<and>
     e = Exited 0 \<and> node_inv nd' \<and> total (nd_world nd') \<le> config_max_capacity (config_default empty_net)"
proof -
  let ?P = "toy_program (config_default empty_net)"
  obtain nd d1 where new: "node_new toy_node_api byte_codec toy_start toy_env (config_default empty_net) (\<lambda>p. None) [] = Returns (Inr nd, d1)"
    using toy_node_runs by blast
  have "cfg_completions (config_default empty_net) = None" "update_exit ?P (config_default empty_net) = None"
    by (simp_all add: update_exit_def config_default_def)
  then have "run_node toy_node_api toy_message_api byte_codec mute_json empty_net ?P (\<lambda>p. None) [] =
      run_started toy_node_api toy_message_api mute_json ?P (config_default empty_net) nd d1"
    by (simp add: run_node_def toy_program_def toy_config new)
  then obtain e d' nd' where run: "run_node toy_node_api toy_message_api byte_codec mute_json empty_net ?P (\<lambda>p. None) [] = Returns (e, d', Some nd')"
    by (simp add: run_started_def toy_program_def Let_def)
  from running_node_respects_settings [OF run] run show ?thesis by (auto simp: toy_program_def toy_config)
qed

theorem exit_status_failure_witness:
  "program_main toy_node_api toy_message_api byte_codec mute_json empty_net
     (toy_program ((config_default empty_net)\<lparr>cfg_public_addr := Some home_addr\<rparr>)) (\<lambda>p. None) [] = Returns 1"
proof -
  let ?args = "(config_default empty_net)\<lparr>cfg_public_addr := Some home_addr\<rparr>"
  obtain e where refused: "config_new mute_json empty_net (st_home (pr_start (toy_program ?args))) (pr_config_open (toy_program ?args))
      (pr_remove_io (toy_program ?args)) ?args [] = (Inl e, [])"
    by (simp add: config_new_def validate_def config_default_def)
  have "pr_args (toy_program ?args) = Inr ?args" by (simp add: toy_program_def)
  from exit_status_failure [OF this refused, of toy_node_api toy_message_api byte_codec "\<lambda>p. None" 1]
  show ?thesis by (simp add: toy_program_def)
qed

theorem short_wallet_id_exits_with_success_witness:
  "program_main toy_node_api toy_message_api byte_codec mute_json empty_net
     (toy_program ((config_default empty_net)\<lparr>cfg_wallet_id := Some ''no key''\<rparr>)) (\<lambda>p. None) [] = Returns 0"
proof -
  let ?args = "(config_default empty_net)\<lparr>cfg_wallet_id := Some ''no key''\<rparr>"
  let ?P = "toy_program ?args"
  obtain config where new: "config_new mute_json empty_net (st_home (pr_start ?P)) (pr_config_open ?P) (pr_remove_io ?P) ?args [] = (Inr config, [])"
      "cfg_wallet_id config = Some ''no key''" "cfg_completions config = None" "cfg_update config = False" "cfg_update_only config = False"
      "cfg_root_dir config = None"
    by (simp add: toy_program_def toy_start_def config_new_def validate_def merge_config_def clear_data_from_disk_def config_default_def
        read_from_file_def project_dirs_def ok_or_def Let_def)
  have env: "pr_args ?P = Inr ?args" "update_exit ?P config = None" "st_dir_ok (pr_start ?P)"
    using new by (simp_all add: toy_program_def update_exit_def toy_start_def)
  obtain root_dir where root: "config_root_dir (st_home (pr_start ?P)) config = Inr root_dir"
    using new(6) by (simp add: config_root_dir_def project_dirs_def toy_program_def toy_start_def ok_or_def)
  have "length (filter (\<lambda>c. hex_value c \<noteq> None) ''no key'') < 2 * kc_size byte_codec"
    by (simp add: byte_codec_def hex_value_def)
  from short_wallet_id_exits_with_success [OF env(1) new(1,3) env(2) root env(3) new(2) this] show ?thesis by (rule conjunct2)
qed

end
