(* ===== verification/Spec2Isabelle.thy ===== *)
theory Spec2Isabelle
  imports Node_Chunks Node_Rewards Program
begin

text \<open>
  Verification of the network node \<^verbatim>\<open>sn_node\<close> of the SAFE network.

  \<^bold>\<open>The program.\<close> A node is an adult, which stores chunks of data, or an elder, which in addition
  keeps the metadata of the data, the wallets of users and the funds of its section. Events of the
  routing layer are mapped to duties (\<^verbatim>\<open>NodeDuty\<close>); each duty is handled by one module, whose
  handler changes the module's state and returns further duties, mostly messages to send. A client
  pays for a write with a transfer to its section; the elders register the transfer at the payer's
  wallet, propagate it to the section's wallet and forward the write to the section of the data's
  address, whose elders record who holds which blob (and hold maps and sequences themselves) and
  ask adults to store the chunks. When members churn, elders agree on rewards by threshold
  signatures, and new elders take over the state of the old ones.

  \<^bold>\<open>Theories.\<close> Each theory names the sources it models; state is a \<^verbatim>\<open>record\<close>, an operation a function
  that returns its result together with the new state, an error a value of type \<open>Error\<close> (the left
  part of \<open>result\<close>), a machine integer a word of its width.
  \<^item> \<open>Prelude\<close>: results and the question-mark operator (\<open>and_then\<close>), loops with early return
    (\<open>try_fold\<close>), sequences of requests (\<open>run_steps\<close>), checked and saturating arithmetic, decimal
    numbers, ordered maps and sets (locale \<open>ordered_map\<close>, interpreted as \<open>btm\<close>).
  \<^item> \<open>Data_Types\<close>, \<open>Errors\<close> (\<^verbatim>\<open>error.rs\<close>), \<open>Node_Ops\<close> (\<^verbatim>\<open>node_ops.rs\<close>): data, errors, messages and
    duties.
  \<^item> \<open>Network\<close> (\<^verbatim>\<open>network.rs\<close>, \<^verbatim>\<open>metadata/adult_reader.rs\<close>): what the node asks of the routing layer, on
    a snapshot of it.
  \<^item> \<open>Used_Space\<close>, \<open>Chunk_Store\<close>, \<open>Chunk_Store_Correct\<close> (\<^verbatim>\<open>chunk_store/\<close>): the record of used space
    and the store of chunks on an explicit disk whose accesses may fail (locales \<open>space_ledger\<close>,
    \<open>chunk_kv\<close>); \<open>Chunk_Storage\<close> (\<^verbatim>\<open>chunks/\<close>): the handlers of an adult.
  \<^item> \<open>Reward_Calc\<close>, \<open>Reward_Stage\<close>, \<open>Reward_Process\<close>, \<open>Section_Funds\<close> (\<^verbatim>\<open>section_funds/\<close>): minting and
    distribution of rewards, collection of signature shares (locale \<open>share_collector\<close>, interpreted
    for both stages), the payout process, wallets and payments.
  \<^item> \<open>Blob_Register\<close>, \<open>Blob_Register_Correct\<close>, \<open>Map_Storage\<close>, \<open>Sequence_Storage\<close>, \<open>Metadata\<close>
    (\<^verbatim>\<open>metadata/\<close>): the elders' register of holders (locale \<open>holder_index\<close>), the stores of maps and
    sequences (locale \<open>guarded_store\<close>, interpreted for both), the dispatch between them.
  \<^item> \<open>Capacity\<close> (\<^verbatim>\<open>capacity/\<close>): the count of full adults and the price of storing data.
  \<^item> \<open>Transfer_Store\<close> (\<^verbatim>\<open>transfers/store.rs\<close>; locale \<open>event_log\<close>), \<open>Replicas\<close>, \<open>Replicas_Correct\<close>,
    \<open>Wallet_Guarantees\<close> (\<^verbatim>\<open>transfers/replicas.rs\<close>, \<^verbatim>\<open>replica_signing.rs\<close>, \<^verbatim>\<open>get_replicas.rs\<close>): the events
    of wallets and the commands on them; \<open>Transfers\<close> (\<^verbatim>\<open>transfers/mod.rs\<close>): payments and the steps of
    a transfer as messages.
  \<^item> \<open>Event_Mapping\<close> (\<^verbatim>\<open>event_mapping/\<close>): from routing events and messages to duties.
  \<^item> \<open>State_Db\<close> (\<^verbatim>\<open>state_db.rs\<close>): the reward keys in files; \<open>Config\<close> (\<^verbatim>\<open>config_handler.rs\<close>): settings from
    the file and the command line.
  \<^item> \<open>Node\<close> (\<^verbatim>\<open>node/\<close>): the record of the node with its modules, its start (\<open>node_new\<close>), the dispatch
    of every duty to its module (\<open>handle\<close>), promotion and demotion, churn and splits, sending, the
    loop over the duties of an event (\<open>process_while_any\<close>) and the main loop (\<open>node_run\<close>). The
    environment of a step (\<open>step_env\<close>) is what it meets: the network, failing accesses, fresh ids.
  \<^item> \<open>Node_Correct\<close>: what duties handlers leave to do, and which modules they keep;
    \<open>Node_Guarantees\<close>: invariants over runs, the messages a client can cause, a concrete node;
    \<open>Node_Wallets\<close>, \<open>Node_Space\<close>, \<open>Node_Chunks\<close>, \<open>Node_Rewards\<close>: the wallets, the used space, the
    blobs of an adult and the rewards through the life of a node.
  \<^item> \<open>Program\<close> (\<^verbatim>\<open>bin/sn_node.rs\<close>, \<^verbatim>\<open>bin/launch_network.rs\<close>): the process, from its command line to its
    exit status, and the launcher of test networks; \<open>Config_Example\<close> (\<^verbatim>\<open>examples/config_handling.rs\<close>):
    the demonstration of settings.

  \<^bold>\<open>What the lemmas show.\<close>
  \<^item> Storage: the used space never exceeds the capacity, in any run of a node, and is exact while no
    file access fails; the store of chunks refines a map from ids to chunks, also across a restart
    and whichever accesses fail, except that a delete that cannot look up its file leaves it;
    adults serve what they stored, and only owners delete private blobs, in any run of an adult; an
    overwriting write without space loses the chunk.
  \<^item> Metadata: the two databases of the register are inverse to each other with at most four holders
    per chunk and a lost member's chunks are replicated exactly, each copy asked for once, while no
    access to the databases fails; writes of maps and sequences refine the update of a function, and
    maps and sequences change only by permitted commands, with the exceptions that a failing look-up
    of a file causes; unreadable maps are indistinguishable; data types do not interfere.
  \<^item> Rewards: the distribution returns exactly when an age class is owed something and then
    conserves the amount; a proposal never pays more than the reward; payouts carry signatures of more shares than the threshold, in any run
    of a node; duplicates change nothing; with enough honest shares a payout completes.
  \<^item> Wallets, as long as no load of an existing database fails (\<open>databases_load\<close>; a failing load
    erases the database): events are only appended and never lost or reordered, propagation is
    idempotent, a new replica takes over the same events, histories are sound and complete; no run
    of a node, through any promotions, demotions and splits, loses an event of a wallet.
  \<^item> Payments: from the message of a client to the message of the node, data is forwarded only if
    its payment is registered, covers the price and is added to the funds; larger data never costs
    less.
  \<^item> The node: it is never adult and elder at once, whatever it meets from its start on; the work of
    an event ends after at most three rounds, unless the distribution of rewards does not end.
  \<^item> Start: stored reward keys read back; settings have consistent addresses; a running node respects
    the settings of its command line; the process ends with a failing status in exactly the stated
    cases.
  \<^item> Event mapping: a client can only cause the duties of clients; the mapping returns except
    exactly when an elder waits for a key that never comes.

  \<^bold>\<open>Parameters.\<close> Code of other crates is an argument of the definitions that use it: \<open>externals\<close> for
  \<^verbatim>\<open>sn_messaging\<close>, \<^verbatim>\<open>sn_data_types\<close> and \<^verbatim>\<open>xor_name\<close>, \<open>bls_api\<close> for threshold signatures, \<open>chunk_api\<close> for
  serialisation, \<open>pickle\<close> and \<open>events_db\<close> for \<^verbatim>\<open>pickledb\<close>, \<open>map_ext\<close> and the like for the data types,
  \<open>wallet_api\<close> for \<^verbatim>\<open>sn_transfers\<close>, \<open>f64_ops\<close> for floating point, \<open>message_api\<close> for parsing. What is
  relied on is a named predicate (\<open>events_db_ok\<close>, \<open>databases_load\<close>, \<open>f64_monotone\<close>, ...), and each
  witness instantiates the parameter with concrete functions. The failures of file accesses are
  arguments too. Locks make handlers atomic, so that concurrent requests are sequences of steps;
  hash maps are iterated in the order of their keys, which no property depends on.

  \<^bold>\<open>Bounds and loops.\<close> Loops that may not end are \<^verbatim>\<open>partial_function (option)\<close> with the value \<^const>\<open>None\<close>
  for not returning (the rounds of the reward distribution, the wait for a section key), and the
  theorems say exactly when they return; every other function is total. There is no fuel. The
  bound of \<open>2 ^ 64\<close> events per wallet is the range of the keys of the store. The set \<open>K\<close> of keys in
  use restricts the assumption that names of wallets differ to the keys a run is about.

  \<^bold>\<open>Not modelled.\<close> The set-up of the logger (\<^verbatim>\<open>utils.rs\<close>), the macro for random failures that is off by
  default (\<^verbatim>\<open>chaos.rs\<close>) and the routing layer's connections have no logic of the node's own; wrappers that
  only pass a call on are modelled by what they call.
  The parsers of the command line, of JSON and of messages are derived by macros and are parameters.
  Errors that the node only logs have no further effect and are dropped by \<open>handle_all\<close>. Texts of
  errors and of debug output are parameters. Paths are lists of names, without links and dots.
\<close>

text \<open>
  C1. Data is stored only if it is paid for: whatever message a client sends to an elder, if the node
  then sends a command to store data, the message was a write with a payment, and the command is
  the client's own, unchanged, to the section of its address. The payment was made to this section's
  wallet and covers the price at that moment; it is recorded as registered at the payer's wallet
  and is among the payments of the section's funds. (No load of an existing database of a wallet
  fails.)
\<close>

theorem client_writes_are_paid:
  assumes A: "replica_api_ok (na_ext A) (tp_replica (na_transfers A)) K" and W: "wallet_ok (ra_wallet (tp_replica (na_transfers A)))"
    and node: "node_inv nd" "nd_transfers nd = Some t0"
    and inv: "replicas_inv (na_ext A) (tp_replica (na_transfers A)) K (tr_replicas t0)"
    and room: "\<forall>pk. length (events_of (na_ext A) (tp_replica (na_transfers A)) K (tr_replicas t0) pk) + 1 < 2 ^ 64"
    and K: "\<forall>payment cmd i target. m = CmdM (DataCmdMsg payment cmd) i target \<longrightarrow> tap_recipient payment \<in> K"
    and event: "node_event A M (ClientMessageReceived m user, polls, env) nd = Returns nd'"
    and sent: "(src, d, ag, NodeCmdM (NodeMetadataCmd cmd origin) i' target') \<in> set (drop (length (nd_sent nd)) (nd_sent nd'))"
  shows "\<exists>payment i target bytes funds t'.
    m = CmdM (DataCmdMsg payment cmd) i target \<and> origin = user \<and> d = DstSection (data_cmd_dst_address (na_ext A) cmd) \<and>
    tap_recipient payment = section_wallet_id (tp_bls (na_transfers A)) (live_transfers (se_network (env 0)) t0) \<and>
    tp_ser_cmd (na_transfers A) cmd = Some bytes \<and>
    rate_limit_from (tp_float (na_transfers A)) (tp_full (na_transfers A)) (of_nat (length bytes))
      (tr_rate_limit (live_transfers (se_network (env 0)) t0)) \<le> tap_amount payment \<and>
    nd_transfers nd' = Some t' \<and>
    TransferRegistered payment \<in> set (events_of (na_ext A) (tp_replica (na_transfers A)) K (tr_replicas t') (tap_sender payment)) \<and>
    nd_section_funds nd' = Some funds \<and>
    btm_get (funds_payments funds) (cap_id (credit_proof payment)) = Some (credit_proof payment)"
proof -
  obtain op where op: "process_while_any A env op nd = Some nd'" "client_duty user op"
      "\<forall>m' u. op = ProcessDataPayment m' u \<longrightarrow> m' = m \<and> u = user \<and> (\<exists>payment cmd i t. m = CmdM (DataCmdMsg payment cmd) i t)"
    by (rule client_event_work [OF event]) (use sent in auto)
  have "\<exists>m' u. op = ProcessDataPayment m' u" using client_work_quiet [OF op(2,1)] sent by force
  with op(3) obtain payment cmd0 i target where m: "m = CmdM (DataCmdMsg payment cmd0) i target"
    and work: "process_while_any A env (ProcessDataPayment (CmdM (DataCmdMsg payment cmd0) i target) user) nd = Some nd'"
    using op(1) by blast
  obtain funds where "nd_section_funds nd = Some funds" using node by (auto simp: node_inv_def)
  from payment_stored [OF A W refl refl node(2) this refl inv _ room work sent] K m show ?thesis by blast
qed

theorem client_writes_are_paid_witness:
  "\<exists>nd' payment funds. node_event toy_node_api toy_message_api
       (ClientMessageReceived (CmdM (DataCmdMsg toy_debit toy_cmd) 3 None) (AllClients toy_key), \<lambda>n. Inl 0, \<lambda>n. toy_env) toy_elder = Returns nd' \<and>
     nd_sent nd' \<noteq> [] \<and> nd_section_funds nd' = Some funds \<and>
     btm_get (funds_payments funds) (cap_id (credit_proof payment)) = Some (credit_proof payment)"
proof -
  let ?m = "CmdM (DataCmdMsg toy_debit toy_cmd) 3 None"
  obtain nd' where ev: "node_event toy_node_api toy_message_api (ClientMessageReceived ?m (AllClients toy_key), \<lambda>n. Inl 0, \<lambda>n. toy_env) toy_elder = Returns nd'"
    and sent: "nd_sent nd' = [(SrcSection (prefix_name (Network.our_prefix (se_network toy_env))), DstSection (data_cmd_dst_address example_ext toy_cmd),
       AtDestination, NodeCmdM (NodeMetadataCmd toy_cmd (AllClients toy_key)) (in_response_to example_ext 3) None)]"
    using toy_write by blast
  have api: "na_ext toy_node_api = example_ext" "tp_replica (na_transfers toy_node_api) = list_replica"
    by (simp_all add: toy_node_api_def toy_replica_of)
  have el: "nd_transfers toy_elder = Some toy_transfers" "nd_sent toy_elder = []" by (simp_all add: toy_elder_def)
  have K: "\<forall>payment cmd i target. ?m = CmdM (DataCmdMsg payment cmd) i target \<longrightarrow> tap_recipient payment \<in> two_keys"
    by (simp add: toy_recipient)
  have sent': "(SrcSection (prefix_name (Network.our_prefix (se_network toy_env))), DstSection (data_cmd_dst_address example_ext toy_cmd),
      AtDestination, NodeCmdM (NodeMetadataCmd toy_cmd (AllClients toy_key)) (in_response_to example_ext 3) None) \<in>
      set (drop (length (nd_sent toy_elder)) (nd_sent nd'))"
    by (simp add: sent el)
  note paid = client_writes_are_paid [of toy_node_api two_keys, unfolded api, OF list_replica_ok toy_elder_inv el(1)
      toy_payer(1) [folded toy_transfers_replicas] toy_room K ev sent']
  from paid ev sent show ?thesis by auto
qed

end
